(* ===== verification/Prelude.thy ===== *)
theory Prelude
  imports Main
begin

text \<open>
  Shared ground of the development: the types that stand for Rust's bytes and strings, the
  sequencing of fallible stateful steps, and generic list lemmas.

  A byte is a \<open>char\<close> (HOL's \<open>char\<close> has exactly 256 values), so a byte slice and the UTF-8
  encoding of a Rust \<open>str\<close> are both \<open>char list\<close>.  A fallible operation on a state is a function
  \<open>'s \<Rightarrow> ('e + 'a) \<times> 's\<close>: \<open>Inl\<close> is Rust's \<open>Err\<close>, \<open>Inr\<close> its \<open>Ok\<close>, and the
  state is returned in both cases, since the code keeps what it has mutated when it fails.
\<close>

named_theorems model_defs \<open>definitions that automation may unfold\<close>
named_theorems result_simps \<open>rewriting of sequenced fallible steps\<close>

type_synonym byte = char
type_synonym bytes = "char list"

section \<open>Sequencing fallible steps\<close>

text \<open>Rust's \<open>?\<close>: stop at the first \<open>Err\<close>, keeping the state reached there.\<close>

definition rbind :: "('e + 'a) \<times> 's \<Rightarrow> ('a \<Rightarrow> 's \<Rightarrow> ('e + 'b) \<times> 's) \<Rightarrow> ('e + 'b) \<times> 's" where
  "rbind p k = (case p of (Inl e, s) \<Rightarrow> (Inl e, s) | (Inr a, s) \<Rightarrow> k a s)"

lemma rbind_Inl [simp, result_simps]: "rbind (Inl e, s) k = (Inl e, s)"
  by (simp add: rbind_def)

lemma rbind_Inr [simp, result_simps]: "rbind (Inr a, s) k = k a s"
  by (simp add: rbind_def)

lemma rbind_assoc [result_simps]: "rbind (rbind p f) g = rbind p (\<lambda>a s. rbind (f a s) g)"
  by (cases p; cases "fst p") auto

lemma rbind_return [simp, result_simps]: "rbind p (\<lambda>a s. (Inr a, s)) = p"
  by (cases p; cases "fst p") auto

lemma rbind_cases:
  obtains (err) e where "fst p = Inl e" "rbind p k = (Inl e, snd p)"
  | (ok) a where "fst p = Inr a" "rbind p k = k a (snd p)"
  by (cases p; cases "fst p") (auto simp: rbind_def)

lemma rbind_okE:
  assumes "rbind p k = (Inr b, s')"
  obtains a s where "p = (Inr a, s)" "k a s = (Inr b, s')"
  using assms by (cases p; cases "fst p") auto

lemma rbind_errE:
  assumes "rbind p k = (Inl e, s')"
  obtains "p = (Inl e, s')" | a s where "p = (Inr a, s)" "k a s = (Inl e, s')"
  using assms by (cases p; cases "fst p") auto

lemma rbind_split:
  "P (rbind p k) \<longleftrightarrow>
     (\<forall>e s. p = (Inl e, s) \<longrightarrow> P (Inl e, s)) \<and> (\<forall>a s. p = (Inr a, s) \<longrightarrow> P (k a s))"
  by (cases p; cases "fst p") (auto simp: rbind_def)

section \<open>Byte values\<close>

abbreviation byte_val :: "byte \<Rightarrow> nat" where
  "byte_val c \<equiv> of_char c"

abbreviation CR :: byte where "CR \<equiv> CHR 0x0D"
abbreviation LF :: byte where "LF \<equiv> CHR 0x0A"
abbreviation HT :: byte where "HT \<equiv> CHR 0x09"
abbreviation DOT :: byte where "DOT \<equiv> CHR ''.''"

abbreviation crlf :: bytes where "crlf \<equiv> [CR, LF]"

end
