(* ===== verification/Rust_Str.thy ===== *)
theory Rust_Str
  imports Prelude
begin

text \<open>
  The operations of Rust's standard library on byte slices and strings that the source uses,
  as functions on UTF-8 byte lists: affix tests, splitting, \<open>lines\<close>, Unicode-aware trimming and
  \<open>split_whitespace\<close>, ASCII case folding, UTF-8 validation and \<open>from_utf8_lossy\<close>, integer
  parsing and decimal printing, and the \<open>{:?}\<close> form of a string.
\<close>

section \<open>Affixes, search, splitting\<close>

definition starts_with :: "bytes \<Rightarrow> bytes \<Rightarrow> bool" where
  "starts_with p s \<longleftrightarrow> take (length p) s = p"

definition ends_with :: "bytes \<Rightarrow> bytes \<Rightarrow> bool" where
  "ends_with p s \<longleftrightarrow> starts_with (rev p) (rev s)"

text \<open>\<open>strip_suffix(b"\r").unwrap_or(line)\<close>: one trailing carriage return is dropped.\<close>

definition strip_cr :: "bytes \<Rightarrow> bytes" where
  "strip_cr s = (if s \<noteq> [] \<and> last s = CR then butlast s else s)"

fun contains :: "bytes \<Rightarrow> bytes \<Rightarrow> bool" where
  "contains p [] = (p = [])"
| "contains p (x # xs) = (starts_with p (x # xs) \<or> contains p xs)"

text \<open>\<open>split(|b| b == d)\<close>: one piece more than there are separators.\<close>

fun push_byte :: "byte \<Rightarrow> bytes list \<Rightarrow> bytes list" where
  "push_byte x [] = [[x]]"
| "push_byte x (p # ps) = (x # p) # ps"

fun split_on :: "byte \<Rightarrow> bytes \<Rightarrow> bytes list" where
  "split_on d [] = [[]]"
| "split_on d (x # xs) = (if x = d then [] # split_on d xs else push_byte x (split_on d xs))"

text \<open>\<open>split_once\<close>: the parts before and after the first separator.\<close>

fun split_once :: "byte \<Rightarrow> bytes \<Rightarrow> (bytes \<times> bytes) option" where
  "split_once d [] = None"
| "split_once d (x # xs) =
     (if x = d then Some ([], xs) else map_option (\<lambda>(a, b). (x # a, b)) (split_once d xs))"

text \<open>\<open>splitn(n, d)\<close>: at most \<open>n\<close> pieces, the last one unsplit.\<close>

fun splitn :: "nat \<Rightarrow> byte \<Rightarrow> bytes \<Rightarrow> bytes list" where
  "splitn 0 d s = []"
| "splitn (Suc 0) d s = [s]"
| "splitn (Suc (Suc n)) d s =
     (case split_once d s of None \<Rightarrow> [s] | Some (a, r) \<Rightarrow> a # splitn (Suc n) d r)"

text \<open>\<open>get(k)\<close> on a vector.\<close>

definition nth_opt :: "'a list \<Rightarrow> nat \<Rightarrow> 'a option" where
  "nth_opt xs k = (if k < length xs then Some (xs ! k) else None)"

text \<open>Splitting at the last separator, as \<open>rfind\<close> followed by two slices does.\<close>

definition rsplit_once :: "byte \<Rightarrow> bytes \<Rightarrow> (bytes \<times> bytes) option" where
  "rsplit_once d s = map_option (\<lambda>(a, b). (rev b, rev a)) (split_once d (rev s))"

text \<open>
  \<open>str::lines\<close>: lines end at a line feed, a carriage return before it is dropped, and an
  unterminated last line is kept as it is.
\<close>

definition str_lines :: "bytes \<Rightarrow> bytes list" where
  "str_lines s =
     (let ps = split_on LF s
      in map strip_cr (butlast ps) @ (if last ps = [] then [] else [last ps]))"

fun join :: "bytes \<Rightarrow> bytes list \<Rightarrow> bytes" where
  "join sep [] = []"
| "join sep [p] = p"
| "join sep (p # q # ps) = p @ sep @ join sep (q # ps)"

definition trim_end_crlf :: "bytes \<Rightarrow> bytes" where
  "trim_end_crlf s = rev (dropWhile (\<lambda>c. c = CR \<or> c = LF) (rev s))"

definition trim_matches :: "(byte \<Rightarrow> bool) \<Rightarrow> bytes \<Rightarrow> bytes" where
  "trim_matches p s = rev (dropWhile p (rev (dropWhile p s)))"

section \<open>Whitespace\<close>

text \<open>
  The characters of Unicode's \<open>White_Space\<close> property in their one-, two- and three-byte
  encodings.  A leading byte is never a continuation byte, so scanning a valid UTF-8 string byte
  by byte meets these encodings exactly at character boundaries.
\<close>

definition ws1 :: "byte \<Rightarrow> bool" where
  "ws1 a \<longleftrightarrow> (9 \<le> byte_val a \<and> byte_val a \<le> 13) \<or> byte_val a = 32"

definition ws2 :: "byte \<Rightarrow> byte \<Rightarrow> bool" where
  "ws2 a b \<longleftrightarrow> byte_val a = 0xC2 \<and> (byte_val b = 0x85 \<or> byte_val b = 0xA0)"

definition ws3 :: "byte \<Rightarrow> byte \<Rightarrow> byte \<Rightarrow> bool" where
  "ws3 a b c \<longleftrightarrow>
     (byte_val a = 0xE1 \<and> byte_val b = 0x9A \<and> byte_val c = 0x80)
   \<or> (byte_val a = 0xE2 \<and> byte_val b = 0x80
        \<and> ((0x80 \<le> byte_val c \<and> byte_val c \<le> 0x8A)
           \<or> byte_val c = 0xA8 \<or> byte_val c = 0xA9 \<or> byte_val c = 0xAF))
   \<or> (byte_val a = 0xE2 \<and> byte_val b = 0x81 \<and> byte_val c = 0x9F)
   \<or> (byte_val a = 0xE3 \<and> byte_val b = 0x80 \<and> byte_val c = 0x80)"

text \<open>The number of bytes of the whitespace character a string starts with, 0 if none.\<close>

fun ws_len :: "bytes \<Rightarrow> nat" where
  "ws_len [] = 0"
| "ws_len [a] = (if ws1 a then 1 else 0)"
| "ws_len [a, b] = (if ws1 a then 1 else if ws2 a b then 2 else 0)"
| "ws_len (a # b # c # s) =
     (if ws1 a then 1 else if ws2 a b then 2 else if ws3 a b c then 3 else 0)"

fun trim_start :: "bytes \<Rightarrow> bytes" where
  "trim_start [] = []"
| "trim_start (a # s) =
     (case ws_len (a # s) of 0 \<Rightarrow> a # s | Suc n \<Rightarrow> trim_start (drop n s))"

text \<open>The same at the end of a string, on its reversal: there the last byte comes first.\<close>

fun ws_len_rev :: "bytes \<Rightarrow> nat" where
  "ws_len_rev [] = 0"
| "ws_len_rev [c] = (if ws1 c then 1 else 0)"
| "ws_len_rev [c, b] = (if ws1 c then 1 else if ws2 b c then 2 else 0)"
| "ws_len_rev (c # b # a # s) =
     (if ws1 c then 1 else if ws2 b c then 2 else if ws3 a b c then 3 else 0)"

fun trim_start_rev :: "bytes \<Rightarrow> bytes" where
  "trim_start_rev [] = []"
| "trim_start_rev (a # s) =
     (case ws_len_rev (a # s) of 0 \<Rightarrow> a # s | Suc n \<Rightarrow> trim_start_rev (drop n s))"

definition trim_end :: "bytes \<Rightarrow> bytes" where
  "trim_end s = rev (trim_start_rev (rev s))"

definition trim :: "bytes \<Rightarrow> bytes" where
  "trim s = trim_end (trim_start s)"

fun ws_pieces :: "bytes \<Rightarrow> bytes list" where
  "ws_pieces [] = [[]]"
| "ws_pieces (a # s) =
     (case ws_len (a # s) of
        0 \<Rightarrow> push_byte a (ws_pieces s)
      | Suc n \<Rightarrow> [] # ws_pieces (drop n s))"

definition split_whitespace :: "bytes \<Rightarrow> bytes list" where
  "split_whitespace s = filter (\<lambda>p. p \<noteq> []) (ws_pieces s)"

text \<open>\<open>chars().filter(|c| !c.is_whitespace())\<close> on the bytes.\<close>

definition remove_whitespace :: "bytes \<Rightarrow> bytes" where
  "remove_whitespace s = concat (ws_pieces s)"

section \<open>ASCII\<close>

definition is_ascii :: "byte \<Rightarrow> bool" where
  "is_ascii c \<longleftrightarrow> byte_val c < 128"

definition is_digit :: "byte \<Rightarrow> bool" where
  "is_digit c \<longleftrightarrow> 48 \<le> byte_val c \<and> byte_val c \<le> 57"

definition ascii_lower :: "byte \<Rightarrow> byte" where
  "ascii_lower c =
     (if 65 \<le> byte_val c \<and> byte_val c \<le> 90 then char_of (byte_val c + 32) else c)"

definition ascii_upper :: "byte \<Rightarrow> byte" where
  "ascii_upper c =
     (if 97 \<le> byte_val c \<and> byte_val c \<le> 122 then char_of (byte_val c - 32) else c)"

definition to_ascii_lowercase :: "bytes \<Rightarrow> bytes" where
  "to_ascii_lowercase s = map ascii_lower s"

definition to_ascii_uppercase :: "bytes \<Rightarrow> bytes" where
  "to_ascii_uppercase s = map ascii_upper s"

definition eq_ignore_ascii_case :: "bytes \<Rightarrow> bytes \<Rightarrow> bool" where
  "eq_ignore_ascii_case a b \<longleftrightarrow> to_ascii_lowercase a = to_ascii_lowercase b"

section \<open>UTF-8\<close>

definition utf8_cont :: "nat \<Rightarrow> nat \<Rightarrow> bytes \<Rightarrow> bool" where
  "utf8_cont lo hi s \<longleftrightarrow> (case s of [] \<Rightarrow> False | c # _ \<Rightarrow> lo \<le> byte_val c \<and> byte_val c \<le> hi)"

definition utf8_two :: "bytes \<Rightarrow> bool \<times> nat" where
  "utf8_two r = (if utf8_cont 0x80 0xBF r then (True, 2) else (False, 1))"

definition utf8_three :: "nat \<Rightarrow> nat \<Rightarrow> bytes \<Rightarrow> bool \<times> nat" where
  "utf8_three lo hi r =
     (if \<not> utf8_cont lo hi r then (False, 1)
      else if \<not> utf8_cont 0x80 0xBF (drop 1 r) then (False, 2) else (True, 3))"

definition utf8_four :: "nat \<Rightarrow> nat \<Rightarrow> bytes \<Rightarrow> bool \<times> nat" where
  "utf8_four lo hi r =
     (if \<not> utf8_cont lo hi r then (False, 1)
      else if \<not> utf8_cont 0x80 0xBF (drop 1 r) then (False, 2)
      else if \<not> utf8_cont 0x80 0xBF (drop 2 r) then (False, 3) else (True, 4))"

text \<open>
  One step of the decoder on a non-empty input \<open>a # r\<close>: whether a well-formed character starts
  here, and how many bytes it has; for an ill-formed one, the length of the maximal prefix that
  could have started a character, which the lossy decoder replaces as one unit.
\<close>

definition utf8_step :: "byte \<Rightarrow> bytes \<Rightarrow> bool \<times> nat" where
  "utf8_step a r =
     (let v = byte_val a
      in if v < 0x80 then (True, 1)
         else if 0xC2 \<le> v \<and> v \<le> 0xDF then utf8_two r
         else if v = 0xE0 then utf8_three 0xA0 0xBF r
         else if v = 0xED then utf8_three 0x80 0x9F r
         else if 0xE1 \<le> v \<and> v \<le> 0xEF then utf8_three 0x80 0xBF r
         else if v = 0xF0 then utf8_four 0x90 0xBF r
         else if 0xF1 \<le> v \<and> v \<le> 0xF3 then utf8_four 0x80 0xBF r
         else if v = 0xF4 then utf8_four 0x80 0x8F r
         else (False, 1))"

fun utf8_valid :: "bytes \<Rightarrow> bool" where
  "utf8_valid [] = True"
| "utf8_valid (a # r) =
     (fst (utf8_step a r) \<and> utf8_valid (drop (snd (utf8_step a r) - 1) r))"

definition utf8_replacement :: bytes where
  "utf8_replacement = [CHR 0xEF, CHR 0xBF, CHR 0xBD]"

text \<open>\<open>String::from_utf8_lossy\<close>.\<close>

fun from_utf8_lossy :: "bytes \<Rightarrow> bytes" where
  "from_utf8_lossy [] = []"
| "from_utf8_lossy (a # r) =
     (let n = snd (utf8_step a r) - 1
      in (if fst (utf8_step a r) then a # take n r else utf8_replacement)
         @ from_utf8_lossy (drop n r))"

section \<open>Numbers\<close>

definition digit_val :: "byte \<Rightarrow> nat" where
  "digit_val c = byte_val c - 48"

definition decimal :: "bytes \<Rightarrow> nat" where
  "decimal s = foldl (\<lambda>n c. n * 10 + digit_val c) 0 s"

text \<open>
  \<open>str::parse::<u64>\<close>: an optional plus sign, at least one digit, digits only, and no overflow
  past \<open>u64::MAX\<close>.
\<close>

definition parse_u64 :: "bytes \<Rightarrow> nat option" where
  "parse_u64 s =
     (let ds = (if s \<noteq> [] \<and> hd s = CHR ''+'' then tl s else s)
      in if ds = [] \<or> \<not> list_all is_digit ds \<or> 2 ^ 64 \<le> decimal ds then None
         else Some (decimal ds))"

definition parse_u64_or_0 :: "bytes \<Rightarrow> nat" where
  "parse_u64_or_0 s = (case parse_u64 s of None \<Rightarrow> 0 | Some n \<Rightarrow> n)"

text \<open>Decimal output, as \<open>{}\<close> prints an unsigned integer.\<close>

fun show_nat :: "nat \<Rightarrow> bytes" where
  "show_nat n =
     (if n < 10 then [char_of (48 + n)] else show_nat (n div 10) @ [char_of (48 + n mod 10)])"

declare show_nat.simps [simp del]

section \<open>Debug form of a string\<close>

definition hex_digit :: "nat \<Rightarrow> byte" where
  "hex_digit n = (if n < 10 then char_of (48 + n) else char_of (87 + n))"

text \<open>
  \<open>{:?}\<close> escapes quotes, backslashes and control characters.  Bytes above 0x7F belong to
  multi-byte characters and are printed as they are; the escapes that Rust also uses for those of them
  that are not printable are left out.  The form occurs in texts of errors only.
\<close>

definition debug_byte :: "byte \<Rightarrow> bytes" where
  "debug_byte c =
     (if c = CHR 0x22 then [CHR 0x5C, CHR 0x22]
      else if c = CHR 0x5C then [CHR 0x5C, CHR 0x5C]
      else if c = LF then [CHR 0x5C, CHR ''n'']
      else if c = CR then [CHR 0x5C, CHR ''r'']
      else if c = HT then [CHR 0x5C, CHR ''t'']
      else if c = CHR 0x00 then [CHR 0x5C, CHR ''0'']
      else if byte_val c < 16 then [CHR 0x5C] @ ''u{'' @ [hex_digit (byte_val c)] @ ''}''
      else if byte_val c < 32 \<or> byte_val c = 127 then
        [CHR 0x5C] @ ''u{'' @ [hex_digit (byte_val c div 16), hex_digit (byte_val c mod 16)] @ ''}''
      else [c])"

definition debug_str :: "bytes \<Rightarrow> bytes" where
  "debug_str s = [CHR 0x22] @ concat (map debug_byte s) @ [CHR 0x22]"

section \<open>Facts about the string operations\<close>

lemma starts_with_append [simp]: "starts_with p (p @ s)"
  by (simp add: starts_with_def)

lemma starts_with_iff: "starts_with p s \<longleftrightarrow> (\<exists>t. s = p @ t)"
  by (auto simp: starts_with_def) (metis append_take_drop_id)

lemma split_on_neq_Nil [simp]: "split_on d s \<noteq> []"
  by (induction s) (auto, metis list.distinct(1) push_byte.elims)

lemma join_push_byte: "ps \<noteq> [] \<Longrightarrow> join sep (push_byte x ps) = x # join sep ps"
  by (cases ps rule: list.exhaust; cases "tl ps") auto

lemma push_byte_neq_Nil [simp]: "push_byte x ps \<noteq> []"
  by (cases ps) auto

lemma join_split_on: "join [d] (split_on d s) = s"
proof (induction s)
  case (Cons x s)
  then show ?case
    by (cases "split_on d s") (auto simp: join_push_byte simp del: push_byte.simps)
qed simp

lemma split_on_no_sep: "d \<notin> set p \<Longrightarrow> split_on d p = [p]"
  by (induction p) auto

lemma split_on_append_sep: "d \<notin> set p \<Longrightarrow> split_on d (p @ d # s) = p # split_on d s"
  by (induction p) auto

lemma split_on_join:
  "ps \<noteq> [] \<Longrightarrow> \<forall>p \<in> set ps. d \<notin> set p \<Longrightarrow> split_on d (join [d] ps) = ps"
proof (induction ps rule: induct_list012)
  case (3 p q ps)
  then show ?case by (simp add: split_on_append_sep)
qed (auto simp: split_on_no_sep)

lemma split_on_pieces: "p \<in> set (split_on d s) \<Longrightarrow> d \<notin> set p"
proof (induction s arbitrary: p)
  case (Cons x s)
  show ?case
  proof (cases "x = d")
    case False
    obtain q qs where "split_on d s = q # qs" by (meson neq_Nil_conv split_on_neq_Nil)
    with Cons False show ?thesis by auto
  qed (use Cons in auto)
qed simp

lemma length_split_on: "length (split_on d s) = Suc (count_list s d)"
proof (induction s)
  case (Cons x s)
  obtain q qs where "split_on d s = q # qs" by (meson neq_Nil_conv split_on_neq_Nil)
  with Cons show ?case by auto
qed simp

lemma strip_cr_append [simp]: "strip_cr (s @ [CR]) = s"
  by (simp add: strip_cr_def)

lemma strip_cr_id [simp]: "CR \<notin> set s \<Longrightarrow> strip_cr s = s"
  by (metis last_in_set strip_cr_def)

text \<open>Lines written with CRLF ends are read back by \<open>lines\<close>.\<close>

definition crlf_lines :: "bytes list \<Rightarrow> bytes" where
  "crlf_lines ls = concat (map (\<lambda>l. l @ crlf) ls)"

lemma crlf_lines_simps [simp]:
  "crlf_lines [] = []" "crlf_lines (l # ls) = l @ CR # LF # crlf_lines ls"
  by (simp_all add: crlf_lines_def)

lemma split_on_crlf_lines:
  "\<forall>l \<in> set ls. LF \<notin> set l \<Longrightarrow> split_on LF (crlf_lines ls) = map (\<lambda>l. l @ [CR]) ls @ [[]]"
proof (induction ls)
  case (Cons l ls)
  have "LF \<notin> set (l @ [CR])" using Cons.prems by simp
  from split_on_append_sep [OF this, of "crlf_lines ls"] Cons show ?case by simp
qed simp

lemma str_lines_crlf_lines:
  "\<forall>l \<in> set ls. LF \<notin> set l \<Longrightarrow> str_lines (crlf_lines ls) = ls"
  by (simp add: str_lines_def Let_def split_on_crlf_lines butlast_append comp_def)

lemma utf8_lossy_valid: "utf8_valid s \<Longrightarrow> from_utf8_lossy s = s"
  by (induction s rule: utf8_valid.induct) (auto simp: Let_def)

lemma utf8_step_ascii: "is_ascii a \<Longrightarrow> utf8_step a r = (True, 1)"
  by (simp add: utf8_step_def is_ascii_def)

lemma utf8_valid_ascii: "list_all is_ascii s \<Longrightarrow> utf8_valid s"
  by (induction s) (auto simp: utf8_step_ascii)

lemma utf8_cont_simps [simp]:
  "utf8_cont lo hi [] = False"
  "utf8_cont lo hi (c # s) = (lo \<le> byte_val c \<and> byte_val c \<le> hi)"
  by (simp_all add: utf8_cont_def)

text \<open>The decoder needs no input past the character it accepts.\<close>

definition utf8_local :: "(bytes \<Rightarrow> bool \<times> nat) \<Rightarrow> bytes \<Rightarrow> bytes \<Rightarrow> bool" where
  "utf8_local f r t \<longleftrightarrow> (fst (f r) \<longrightarrow> f (r @ t) = f r \<and> snd (f r) - 1 \<le> length r)"

lemma list_cases4:
  obtains "r = []" | b where "r = [b]" | b c where "r = [b, c]" | b c d s where "r = b # c # d # s"
  by (metis list.exhaust)

lemma utf8_local_two: "utf8_local utf8_two r t"
  by (cases r rule: list_cases4) (auto simp: utf8_local_def utf8_two_def)

lemma utf8_local_three: "utf8_local (utf8_three lo hi) r t"
  by (cases r rule: list_cases4) (auto simp: utf8_local_def utf8_three_def)

lemma utf8_local_four: "utf8_local (utf8_four lo hi) r t"
  by (cases r rule: list_cases4) (auto simp: utf8_local_def utf8_four_def)

lemma utf8_step_append:
  "fst (utf8_step a r) \<Longrightarrow> utf8_step a (r @ t) = utf8_step a r \<and> snd (utf8_step a r) - 1 \<le> length r"
  using utf8_local_two [of r t] utf8_local_three [of _ _ r t] utf8_local_four [of _ _ r t]
  by (simp add: utf8_step_def Let_def utf8_local_def split: if_splits)

lemma utf8_valid_append: "utf8_valid s \<Longrightarrow> utf8_valid (s @ t) = utf8_valid t"
proof (induction s rule: utf8_valid.induct)
  case (2 a r)
  then have v: "fst (utf8_step a r)" by simp
  from utf8_step_append [OF v, of t]
  have "snd (utf8_step a r) - Suc (length r) = 0" and "utf8_step a (r @ t) = utf8_step a r" by auto
  with 2 show ?case by simp
qed simp

lemma digit_char [simp]: "(d::nat) < 10 \<Longrightarrow> byte_val (char_of (48 + d)) = 48 + d"
  by simp

lemma is_digit_char [simp]: "(d::nat) < 10 \<Longrightarrow> is_digit (char_of (48 + d))"
  by (simp add: is_digit_def)

lemma digit_val_char [simp]: "(d::nat) < 10 \<Longrightarrow> digit_val (char_of (48 + d)) = d"
  by (simp add: digit_val_def)

lemma decimal_Nil [simp]: "decimal [] = 0"
  by (simp add: decimal_def)

lemma decimal_snoc [simp]: "decimal (s @ [c]) = decimal s * 10 + digit_val c"
  by (simp add: decimal_def)

lemma show_nat_digits: "list_all is_digit (show_nat n) \<and> show_nat n \<noteq> []"
proof (induction n rule: show_nat.induct)
  case (1 n)
  then show ?case by (cases "n < 10") (simp_all add: show_nat.simps [of n])
qed

lemma decimal_show_nat [simp]: "decimal (show_nat n) = n"
proof (induction n rule: show_nat.induct)
  case (1 n)
  show ?case
  proof (cases "n < 10")
    case True
    then show ?thesis using decimal_snoc [of "[]" "char_of (48 + n)"] by (simp add: show_nat.simps [of n])
  next
    case False
    with 1 show ?thesis by (simp add: show_nat.simps [of n])
  qed
qed

lemma show_nat_mem: "c \<in> set (show_nat n) \<Longrightarrow> is_digit c"
  using show_nat_digits [of n] by (auto simp: list_all_iff)

lemma parse_u64_digits:
  "s \<noteq> [] \<Longrightarrow> list_all is_digit s \<Longrightarrow> parse_u64 s = (if decimal s < 2 ^ 64 then Some (decimal s) else None)"
proof -
  assume s: "s \<noteq> []" "list_all is_digit s"
  then have "hd s \<noteq> CHR ''+''" by (cases s) (auto simp: is_digit_def)
  with s show ?thesis by (simp add: parse_u64_def Let_def)
qed

lemma parse_u64_show_nat: "n < 2 ^ 64 \<Longrightarrow> parse_u64 (show_nat n) = Some n"
  using show_nat_digits [of n] by (simp add: parse_u64_digits)

lemma parse_u64_bound: "parse_u64 s = Some n \<Longrightarrow> n < 2 ^ 64"
  by (auto simp: parse_u64_def Let_def split: if_splits)

lemma parse_u64_or_0_bound: "parse_u64_or_0 s < 2 ^ 64"
  by (auto simp: parse_u64_or_0_def dest: parse_u64_bound split: option.splits)

lemma is_digit_ascii: "is_digit c \<Longrightarrow> is_ascii c"
  by (simp add: is_digit_def is_ascii_def)

text \<open>Trimming leaves a string alone whose first and last bytes start no whitespace.\<close>

definition ws_lead :: "byte \<Rightarrow> bool" where
  "ws_lead c \<longleftrightarrow> ws1 c \<or> byte_val c \<in> {0xC2, 0xE1, 0xE2, 0xE3}"

definition ws_trail :: "byte \<Rightarrow> bool" where
  "ws_trail c \<longleftrightarrow> ws1 c \<or> 128 \<le> byte_val c"

lemma ws_len_0: "\<not> ws_lead a \<Longrightarrow> ws_len (a # s) = 0"
  by (cases "a # s" rule: ws_len.cases) (auto simp: ws_lead_def ws2_def ws3_def)

lemma ws_len_rev_0: "\<not> ws_trail a \<Longrightarrow> ws_len_rev (a # s) = 0"
  by (cases "a # s" rule: ws_len_rev.cases) (auto simp: ws_trail_def ws2_def ws3_def)

lemma trim_start_id: "s = [] \<or> \<not> ws_lead (hd s) \<Longrightarrow> trim_start s = s"
  by (cases s) (auto simp: ws_len_0)

lemma trim_end_id: "s = [] \<or> \<not> ws_trail (last s) \<Longrightarrow> trim_end s = s"
  by (cases s rule: rev_cases) (auto simp: trim_end_def ws_len_rev_0)

lemma trim_id: "s = [] \<or> (\<not> ws_lead (hd s) \<and> \<not> ws_trail (last s)) \<Longrightarrow> trim s = s"
  by (auto simp: trim_def trim_start_id trim_end_id)

lemma digit_not_ws: "is_digit c \<Longrightarrow> \<not> ws_lead c \<and> \<not> ws_trail c"
  by (auto simp: is_digit_def ws_lead_def ws_trail_def ws1_def)

text \<open>A plain string: no byte of it can begin a whitespace character.\<close>

abbreviation ws_free :: "bytes \<Rightarrow> bool" where
  "ws_free s \<equiv> list_all (\<lambda>c. \<not> ws_lead c) s"

lemma ws_pieces_neq_Nil [simp]: "ws_pieces s \<noteq> []"
  by (cases s) (auto split: nat.splits)

lemma ws_pieces_free_append:
  "ws_free p \<Longrightarrow> ws_pieces (p @ s) = (p @ hd (ws_pieces s)) # tl (ws_pieces s)"
  by (induction p) (simp_all add: ws_len_0 del: ws_pieces_neq_Nil, simp)

lemma ws_pieces_space: "ws_pieces (CHR '' '' # s) = [] # ws_pieces s"
proof -
  have "ws_len (CHR '' '' # s) = 1" by (cases "CHR '' '' # s" rule: ws_len.cases) (auto simp: ws1_def)
  then show ?thesis by simp
qed

lemma ws_pieces_free: "ws_free p \<Longrightarrow> ws_pieces p = [p]"
  using ws_pieces_free_append [of p "[]"] by simp

lemma split_whitespace_word: "ws_free p \<Longrightarrow> p \<noteq> [] \<Longrightarrow> split_whitespace p = [p]"
  by (simp add: split_whitespace_def ws_pieces_free)

lemma split_whitespace_cons:
  "ws_free p \<Longrightarrow> p \<noteq> [] \<Longrightarrow> split_whitespace (p @ CHR '' '' # s) = p # split_whitespace s"
  by (simp add: split_whitespace_def ws_pieces_free_append ws_pieces_space del: ws_pieces.simps)

lemma split_whitespace_Nil [simp]: "split_whitespace [] = []"
  by (simp add: split_whitespace_def)

lemma ws_free_show_nat: "ws_free (show_nat n)"
  by (auto simp: list_all_iff dest!: show_nat_mem dest: digit_not_ws)

end
