(* ===== verification/Nntp_Error.thy ===== *)
theory Nntp_Error
  imports Rust_Str
begin

text \<open>
  \<open>src/error.rs\<close>: the error enum, its \<open>Display\<close> strings (which the penalty classifier of the
  server state reads), and the classification of unexpected responses to an article command.
\<close>

text \<open>An \<open>std::io::Error\<close>: its kind and the text it displays.\<close>

datatype io_kind = TimedOut | InvalidData | OtherKind

datatype io_error = IoError (io_kind: io_kind) (io_msg: bytes)

datatype nntp_error =
    Connection bytes
  | Tls bytes
  | Auth bytes
  | AuthRequired bytes
  | PermissionDenied bytes
  | ServiceUnavailable bytes
  | ArticleNotFound bytes
  | NoSuchGroup bytes
  | NoArticleSelected bytes
  | Protocol bytes
  | UnsupportedCommand bytes
  | ResponseTooLarge bytes
  | Io io_error
  | NoConnectionsAvailable bytes
  | Timeout bytes
  | AllServersExhausted bytes
  | Shutdown

type_synonym 'a nntp_result = "nntp_error + 'a"

text \<open>The \<open>#[error("...")]\<close> attributes: what \<open>e.to_string()\<close> gives.\<close>

fun error_to_string :: "nntp_error \<Rightarrow> bytes" where
  "error_to_string (Connection m) = ''Connection error: '' @ m"
| "error_to_string (Tls m) = ''TLS error: '' @ m"
| "error_to_string (Auth m) = ''Authentication failed: '' @ m"
| "error_to_string (AuthRequired m) = ''Authentication required: '' @ m"
| "error_to_string (PermissionDenied m) = ''Permission denied: '' @ m"
| "error_to_string (ServiceUnavailable m) = ''Service unavailable: '' @ m"
| "error_to_string (ArticleNotFound m) = ''Article not found: '' @ m"
| "error_to_string (NoSuchGroup m) = ''No such group: '' @ m"
| "error_to_string (NoArticleSelected m) = ''No article selected: '' @ m"
| "error_to_string (Protocol m) = ''Protocol error: '' @ m"
| "error_to_string (UnsupportedCommand m) = ''Unsupported command: '' @ m"
| "error_to_string (ResponseTooLarge m) = ''Response too large: '' @ m"
| "error_to_string (Io e) = ''I/O error: '' @ io_msg e"
| "error_to_string (NoConnectionsAvailable m) = ''No connections available for server '' @ m"
| "error_to_string (Timeout m) = ''Timeout: '' @ m"
| "error_to_string (AllServersExhausted m) = ''All servers exhausted for article '' @ m"
| "error_to_string Shutdown = ''Downloader shut down''"

definition expired_session :: "nat \<Rightarrow> bytes \<Rightarrow> bool" where
  "expired_session cd msg =
     (let normalized = to_ascii_lowercase msg
      in cd = 400
         \<and> ((contains ''idle'' normalized \<and> contains ''timeout'' normalized)
            \<or> (contains ''session'' normalized
                \<and> (contains ''timeout'' normalized
                   \<or> contains ''expired'' normalized
                   \<or> contains ''closed'' normalized))))"

definition unexpected_article_response :: "nat \<Rightarrow> bytes \<Rightarrow> nntp_error" where
  "unexpected_article_response cd msg =
     (if expired_session cd msg
      then Connection (''NNTP session expired ('' @ show_nat cd @ ''): '' @ msg)
      else Protocol (''Unexpected ARTICLE response '' @ show_nat cd @ '': '' @ msg))"

lemma unexpected_article_response_kinds:
  "(\<exists>m. unexpected_article_response cd msg = Connection m)
   \<or> (\<exists>m. unexpected_article_response cd msg = Protocol m)"
  by (simp add: unexpected_article_response_def)

lemma unexpected_not_connection: "cd \<noteq> 400 \<Longrightarrow> \<exists>m. unexpected_article_response cd msg = Protocol m"
  by (simp add: unexpected_article_response_def expired_session_def Let_def)

end
