(* ===== verification/Overview.thy ===== *)
theory Overview
  imports Nntp_Error
begin

text \<open>
  \<open>src/overview.rs\<close>: the overview format a server announces and the lossless parser of
  \<open>XOVER\<close> rows, which keeps every wire line either as a row or as a typed defect.
\<close>

definition REQUIRED_HEADER_FIELDS :: "bytes list" where
  "REQUIRED_HEADER_FIELDS = [''Subject:'', ''From:'', ''Date:'', ''Message-ID:'', ''References:'']"

definition MAX_OVERVIEW_FIELDS :: nat where "MAX_OVERVIEW_FIELDS = 64"
definition MAX_FIELD_DESCRIPTOR_BYTES :: nat where "MAX_FIELD_DESCRIPTOR_BYTES = 256"

record overview_format =
  fmt_fields :: "bytes list"

record lossless_overview_row =
  row_number :: nat
  row_fields :: "bytes list"

datatype defective_overview_row_code =
  ArticleNumberInvalid | ArticleNumberOutOfRange | DuplicateArticleNumber | FieldCountInvalid

fun defect_as_str :: "defective_overview_row_code \<Rightarrow> bytes" where
  "defect_as_str ArticleNumberInvalid = ''article_number_invalid''"
| "defect_as_str ArticleNumberOutOfRange = ''article_number_out_of_range''"
| "defect_as_str DuplicateArticleNumber = ''duplicate_article_number''"
| "defect_as_str FieldCountInvalid = ''field_count_invalid''"

record defective_overview_row =
  def_number :: "nat option"
  wire_line :: bytes
  failure_code :: defective_overview_row_code

record lossless_overview_rows =
  rows :: "lossless_overview_row list"
  defective_rows :: "defective_overview_row list"

text \<open>Split at line feeds, drop one carriage return per line and all empty lines.\<close>

definition wire_lines :: "bytes \<Rightarrow> bytes list" where
  "wire_lines d = filter (\<lambda>l. l \<noteq> []) (map strip_cr (split_on LF d))"

definition parse_ascii_u64 :: "bytes \<Rightarrow> nat option" where
  "parse_ascii_u64 v =
     (if v = [] \<or> \<not> list_all is_digit v then None else parse_u64 v)"

text \<open>The per-field loop: the first bad descriptor decides the error.\<close>

fun check_descriptors :: "nat \<Rightarrow> bytes list \<Rightarrow> bytes option" where
  "check_descriptors i [] = None"
| "check_descriptors i (f # fs) =
     (if f = [] \<or> MAX_FIELD_DESCRIPTOR_BYTES < length f \<or> \<not> list_all is_ascii f
      then Some ''LIST OVERVIEW.FMT field descriptor is invalid''
      else if i < length REQUIRED_HEADER_FIELDS
              \<and> \<not> eq_ignore_ascii_case f (REQUIRED_HEADER_FIELDS ! i)
      then Some ''LIST OVERVIEW.FMT required field order is invalid''
      else check_descriptors (Suc i) fs)"

definition metadata_fields_valid :: "bytes list \<Rightarrow> bool" where
  "metadata_fields_valid fs \<longleftrightarrow>
     (eq_ignore_ascii_case (fs ! 5) '':bytes'' \<and> eq_ignore_ascii_case (fs ! 6) '':lines'')
   \<or> (eq_ignore_ascii_case (fs ! 5) ''Bytes:'' \<and> eq_ignore_ascii_case (fs ! 6) ''Lines:'')"

definition parse_overview_format :: "bytes \<Rightarrow> overview_format nntp_result" where
  "parse_overview_format d =
     (let fs = wire_lines d
      in if length fs < length REQUIRED_HEADER_FIELDS + 2 \<or> MAX_OVERVIEW_FIELDS < length fs
         then Inl (Protocol ''LIST OVERVIEW.FMT field count is invalid'')
         else if \<not> metadata_fields_valid fs
         then Inl (Protocol ''LIST OVERVIEW.FMT metadata fields are invalid'')
         else case check_descriptors 0 fs of
           Some m \<Rightarrow> Inl (Protocol m)
         | None \<Rightarrow> Inr \<lparr>fmt_fields = fs\<rparr>)"

text \<open>
  One wire line against the numbers accepted so far (\<open>seen\<close>, a \<open>BTreeSet\<close>).  The number joins
  the set only when every other check has passed, as the \<open>insert\<close> sits in the last condition.
\<close>

definition classify_line ::
  "overview_format \<Rightarrow> nat \<Rightarrow> nat \<Rightarrow> nat list \<Rightarrow> bytes
     \<Rightarrow> defective_overview_row + lossless_overview_row" where
  "classify_line fmt start_article end_article seen line =
     (let parts = split_on HT line;
          num = parse_ascii_u64 (hd parts);
          fs = tl parts;
          defect = (\<lambda>cd. Inl \<lparr>def_number = num, wire_line = line, failure_code = cd\<rparr>)
      in case num of
           None \<Rightarrow> defect ArticleNumberInvalid
         | Some n \<Rightarrow>
             if n < start_article \<or> end_article < n then defect ArticleNumberOutOfRange
             else if length fs \<noteq> length (fmt_fields fmt) then defect FieldCountInvalid
             else if n \<in> set seen then defect DuplicateArticleNumber
             else Inr \<lparr>row_number = n, row_fields = fs\<rparr>)"

fun classify_lines ::
  "overview_format \<Rightarrow> nat \<Rightarrow> nat \<Rightarrow> nat list \<Rightarrow> bytes list
     \<Rightarrow> (defective_overview_row + lossless_overview_row) list" where
  "classify_lines fmt a b seen [] = []"
| "classify_lines fmt a b seen (l # ls) =
     (case classify_line fmt a b seen l of
        Inl d \<Rightarrow> Inl d # classify_lines fmt a b seen ls
      | Inr r \<Rightarrow> Inr r # classify_lines fmt a b (row_number r # seen) ls)"

definition lefts :: "('a + 'b) list \<Rightarrow> 'a list" where
  "lefts xs = concat (map (\<lambda>x. case x of Inl a \<Rightarrow> [a] | Inr _ \<Rightarrow> []) xs)"

definition rights :: "('a + 'b) list \<Rightarrow> 'b list" where
  "rights xs = concat (map (\<lambda>x. case x of Inl _ \<Rightarrow> [] | Inr b \<Rightarrow> [b]) xs)"

definition parse_lossless_overview_rows ::
  "bytes \<Rightarrow> overview_format \<Rightarrow> nat \<Rightarrow> nat \<Rightarrow> lossless_overview_rows" where
  "parse_lossless_overview_rows d fmt start_article end_article =
     (let cs = classify_lines fmt start_article end_article [] (wire_lines d)
      in \<lparr>rows = rights cs, defective_rows = lefts cs\<rparr>)"

end
