(* ===== verification/Config.thy ===== *)
theory Config
  imports Rust_Str
begin

text \<open>
  \<open>src/config.rs\<close>: server configuration with its serde defaults, the article record and the
  \<open>LIST ACTIVE\<close> entry.  Unsigned integers are naturals; \<open>config_in_range\<close> states their widths.
\<close>

record server_config =
  cfg_id :: bytes
  cfg_name :: bytes
  host :: bytes
  port :: nat
  ssl :: bool
  ssl_verify :: bool
  username :: "bytes option"
  password :: "bytes option"
  connections :: nat
  priority :: nat
  enabled :: bool
  retention :: nat
  pipelining :: nat
  optional :: bool
  compress :: bool
  ramp_up_delay_ms :: nat
  recv_buffer_size :: nat
  proxy_url :: "bytes option"
  trusted_fingerprint :: "bytes option"
  connect_timeout_secs :: nat

text \<open>The widths of the Rust fields: \<open>u16\<close>, \<open>u8\<close> and \<open>u32\<close>.\<close>

definition config_in_range :: "server_config \<Rightarrow> bool" where
  "config_in_range c \<longleftrightarrow>
     port c < 2 ^ 16 \<and> connections c < 2 ^ 16 \<and> priority c < 2 ^ 8 \<and> pipelining c < 2 ^ 8
   \<and> retention c < 2 ^ 32 \<and> ramp_up_delay_ms c < 2 ^ 32 \<and> recv_buffer_size c < 2 ^ 32
   \<and> connect_timeout_secs c < 2 ^ 32"

definition default_port :: nat where "default_port = 563"
definition default_true :: bool where "default_true = True"
definition default_connections :: nat where "default_connections = 8"
definition default_recv_buffer_size :: nat where "default_recv_buffer_size = 2 * 1024 * 1024"
definition default_ramp_up_delay_ms :: nat where "default_ramp_up_delay_ms = 50"
definition default_connect_timeout_secs :: nat where "default_connect_timeout_secs = 30"
definition default_pipelining :: nat where "default_pipelining = 4"

lemmas config_defaults =
  default_port_def default_true_def default_connections_def default_recv_buffer_size_def
  default_ramp_up_delay_ms_def default_connect_timeout_secs_def default_pipelining_def

text \<open>
  \<open>ServerConfig::default()\<close>.  The identifier is a random UUID from the \<open>uuid\<close> crate: the
  argument is the string it produced.
\<close>

definition default_config :: "bytes \<Rightarrow> server_config" where
  "default_config uuid =
     \<lparr>cfg_id = uuid, cfg_name = [], host = [], port = default_port, ssl = True, ssl_verify = True,
      username = None, password = None, connections = default_connections, priority = 0,
      enabled = True, retention = 0, pipelining = default_pipelining, optional = False,
      compress = False, ramp_up_delay_ms = default_ramp_up_delay_ms,
      recv_buffer_size = default_recv_buffer_size, proxy_url = None,
      trusted_fingerprint = None, connect_timeout_secs = default_connect_timeout_secs\<rparr>"

definition new_config :: "bytes \<Rightarrow> bytes \<Rightarrow> bytes \<Rightarrow> server_config" where
  "new_config uuid i h = (default_config uuid)\<lparr>cfg_id := i, host := h\<rparr>"

text \<open>
  What a configuration file supplies: each field present or absent.  The derived \<open>Deserialize\<close>
  fills an absent field with its \<open>#[serde(default)]\<close> value and fails without \<open>host\<close>.
\<close>

record partial_config =
  p_id :: "bytes option"
  p_name :: "bytes option"
  p_host :: "bytes option"
  p_port :: "nat option"
  p_ssl :: "bool option"
  p_ssl_verify :: "bool option"
  p_username :: "bytes option"
  p_password :: "bytes option"
  p_connections :: "nat option"
  p_priority :: "nat option"
  p_enabled :: "bool option"
  p_retention :: "nat option"
  p_pipelining :: "nat option"
  p_optional :: "bool option"
  p_compress :: "bool option"
  p_ramp_up_delay_ms :: "nat option"
  p_recv_buffer_size :: "nat option"
  p_proxy_url :: "bytes option"
  p_trusted_fingerprint :: "bytes option"
  p_connect_timeout_secs :: "nat option"

definition or_default :: "'a option \<Rightarrow> 'a \<Rightarrow> 'a" where
  "or_default v d = (case v of None \<Rightarrow> d | Some x \<Rightarrow> x)"

definition deserialize_config :: "partial_config \<Rightarrow> bytes + server_config" where
  "deserialize_config p =
     (case p_host p of
        None \<Rightarrow> Inl ''missing field `host`''
      | Some h \<Rightarrow> Inr
         \<lparr>cfg_id = or_default (p_id p) [], cfg_name = or_default (p_name p) [], host = h,
          port = or_default (p_port p) default_port,
          ssl = or_default (p_ssl p) default_true,
          ssl_verify = or_default (p_ssl_verify p) default_true,
          username = p_username p, password = p_password p,
          connections = or_default (p_connections p) default_connections,
          priority = or_default (p_priority p) 0,
          enabled = or_default (p_enabled p) default_true,
          retention = or_default (p_retention p) 0,
          pipelining = or_default (p_pipelining p) default_pipelining,
          optional = or_default (p_optional p) False,
          compress = or_default (p_compress p) False,
          ramp_up_delay_ms = or_default (p_ramp_up_delay_ms p) default_ramp_up_delay_ms,
          recv_buffer_size = or_default (p_recv_buffer_size p) default_recv_buffer_size,
          proxy_url = p_proxy_url p, trusted_fingerprint = p_trusted_fingerprint p,
          connect_timeout_secs =
            or_default (p_connect_timeout_secs p) default_connect_timeout_secs\<rparr>)"

text \<open>What the derived \<open>Serialize\<close> writes: every field.\<close>

definition serialize_config :: "server_config \<Rightarrow> partial_config" where
  "serialize_config c =
     \<lparr>p_id = Some (cfg_id c), p_name = Some (cfg_name c), p_host = Some (host c),
      p_port = Some (port c), p_ssl = Some (ssl c), p_ssl_verify = Some (ssl_verify c),
      p_username = username c, p_password = password c,
      p_connections = Some (connections c), p_priority = Some (priority c),
      p_enabled = Some (enabled c), p_retention = Some (retention c),
      p_pipelining = Some (pipelining c), p_optional = Some (optional c),
      p_compress = Some (compress c), p_ramp_up_delay_ms = Some (ramp_up_delay_ms c),
      p_recv_buffer_size = Some (recv_buffer_size c), p_proxy_url = proxy_url c,
      p_trusted_fingerprint = trusted_fingerprint c,
      p_connect_timeout_secs = Some (connect_timeout_secs c)\<rparr>"

record list_active_entry =
  la_name :: bytes
  la_high :: nat
  la_low :: nat
  la_status :: bytes

record article =
  message_id :: bytes
  segment_number :: nat
  art_bytes :: nat
  downloaded :: bool
  data_begin :: "nat option"
  data_size :: "nat option"
  crc32 :: "nat option"
  tried_servers :: "bytes list"
  tries :: nat

text \<open>
  Both are written and read by derived code: every field is written, an absent \<open>Option\<close> reads as
  \<open>None\<close>, and any other absent field is the error of the first one missing.
\<close>

definition required :: "bytes \<Rightarrow> 'a option \<Rightarrow> ('a \<Rightarrow> bytes + 'b) \<Rightarrow> bytes + 'b" where
  "required f v k = (case v of None \<Rightarrow> Inl (''missing field `'' @ f @ ''`'') | Some x \<Rightarrow> k x)"

record partial_entry =
  pe_name :: "bytes option"
  pe_high :: "nat option"
  pe_low :: "nat option"
  pe_status :: "bytes option"

definition serialize_entry :: "list_active_entry \<Rightarrow> partial_entry" where
  "serialize_entry e =
     \<lparr>pe_name = Some (la_name e), pe_high = Some (la_high e), pe_low = Some (la_low e),
      pe_status = Some (la_status e)\<rparr>"

definition deserialize_entry :: "partial_entry \<Rightarrow> bytes + list_active_entry" where
  "deserialize_entry p =
     required ''name'' (pe_name p) (\<lambda>name.
     required ''high'' (pe_high p) (\<lambda>high.
     required ''low'' (pe_low p) (\<lambda>low.
     required ''status'' (pe_status p) (\<lambda>status.
       Inr \<lparr>la_name = name, la_high = high, la_low = low, la_status = status\<rparr>))))"

record partial_article =
  pa_message_id :: "bytes option"
  pa_segment_number :: "nat option"
  pa_bytes :: "nat option"
  pa_downloaded :: "bool option"
  pa_data_begin :: "nat option"
  pa_data_size :: "nat option"
  pa_crc32 :: "nat option"
  pa_tried_servers :: "bytes list option"
  pa_tries :: "nat option"

definition serialize_article :: "article \<Rightarrow> partial_article" where
  "serialize_article a =
     \<lparr>pa_message_id = Some (message_id a), pa_segment_number = Some (segment_number a),
      pa_bytes = Some (art_bytes a), pa_downloaded = Some (downloaded a),
      pa_data_begin = data_begin a, pa_data_size = data_size a, pa_crc32 = crc32 a,
      pa_tried_servers = Some (tried_servers a), pa_tries = Some (tries a)\<rparr>"

definition deserialize_article :: "partial_article \<Rightarrow> bytes + article" where
  "deserialize_article p =
     required ''message_id'' (pa_message_id p) (\<lambda>mid.
     required ''segment_number'' (pa_segment_number p) (\<lambda>segment.
     required ''bytes'' (pa_bytes p) (\<lambda>size.
     required ''downloaded'' (pa_downloaded p) (\<lambda>dl.
     required ''tried_servers'' (pa_tried_servers p) (\<lambda>tried.
     required ''tries'' (pa_tries p) (\<lambda>n.
       Inr \<lparr>message_id = mid, segment_number = segment, art_bytes = size, downloaded = dl,
            data_begin = pa_data_begin p, data_size = pa_data_size p, crc32 = pa_crc32 p,
            tried_servers = tried, tries = n\<rparr>))))))"

lemma entry_round_trip [simp]: "deserialize_entry (serialize_entry e) = Inr e"
  by (simp add: deserialize_entry_def serialize_entry_def required_def)

lemma article_round_trip [simp]: "deserialize_article (serialize_article a) = Inr a"
  by (simp add: deserialize_article_def serialize_article_def required_def)

lemma or_default_Some [simp]: "or_default (Some x) d = x"
  and or_default_None [simp]: "or_default None d = d"
  by (simp_all add: or_default_def)

lemma default_config_in_range: "config_in_range (default_config u)"
  by (simp add: config_in_range_def default_config_def config_defaults)

end
