(* ===== verification/Wire.thy ===== *)
theory Wire
  imports Nntp_Error Config
begin

text \<open>
  The pure helpers of \<open>src/connection.rs\<close>: response types, the status-line parser, message-id
  normalisation, header stripping, and the parsers of \<open>XOVER\<close>, \<open>XHDR\<close>/\<open>XPAT\<close> and
  \<open>LIST ACTIVE\<close> bodies, of SOCKS5 proxy URLs and of certificate fingerprints.
\<close>

section \<open>Response types\<close>

record nntp_response =
  code :: nat
  message :: bytes
  data :: "bytes option"

definition is_success :: "nntp_response \<Rightarrow> bool" where
  "is_success r \<longleftrightarrow> 200 \<le> code r \<and> code r < 300"

definition needs_auth :: "nntp_response \<Rightarrow> bool" where
  "needs_auth r \<longleftrightarrow> code r = 480"

record body_prefix_response =
  prefix_data :: bytes
  complete :: bool

record group_response =
  grp_count :: nat
  grp_first :: nat
  grp_last :: nat
  grp_name :: bytes

record xover_entry =
  xo_article_num :: nat
  xo_subject :: bytes
  xo_from :: bytes
  xo_date :: bytes
  xo_message_id :: bytes
  xo_references :: bytes
  xo_bytes :: nat
  xo_lines :: nat

record header_entry =
  he_article_num :: nat
  he_value :: bytes

record 'a bounded_response =
  br_value :: 'a
  br_response_bytes :: nat

section \<open>Status lines\<close>

text \<open>
  \<open>parse_response_line\<close>: at least three bytes, all ASCII digits, then one separator character
  is skipped.  That character may be a multi-byte one, so its UTF-8 length is skipped.
\<close>

definition skip_char :: "bytes \<Rightarrow> bytes" where
  "skip_char s = (case s of [] \<Rightarrow> [] | a # r \<Rightarrow> drop (snd (utf8_step a r) - 1) r)"

definition parse_response_line :: "bytes \<Rightarrow> nntp_response nntp_result" where
  "parse_response_line line =
     (let trimmed = trim_end_crlf line
      in if length trimmed < 3 then
           Inl (Protocol (''Response line too short: '' @ debug_str trimmed))
         else if \<not> list_all is_digit (take 3 trimmed) then
           Inl (Protocol (''Invalid response code in: '' @ debug_str trimmed))
         else Inr \<lparr>code = decimal (take 3 trimmed), message = skip_char (drop 3 trimmed),
                   data = None\<rparr>)"

section \<open>Message ids and ranges\<close>

definition normalize_message_id :: "bytes \<Rightarrow> bytes" where
  "normalize_message_id mid =
     (if starts_with ''<'' mid \<and> ends_with ''>'' mid then mid else ''<'' @ mid @ ''>'')"

datatype article_range = Range nat nat | MessageId bytes

fun to_command_arg :: "article_range \<Rightarrow> bytes" where
  "to_command_arg (Range a b) = show_nat a @ ''-'' @ show_nat b"
| "to_command_arg (MessageId mid) = normalize_message_id mid"

section \<open>Article headers\<close>

text \<open>
  The scan of \<open>strip_article_headers\<close>, on the bytes from position \<open>i\<close> on: the loop runs while
  two bytes are left and returns what follows the first blank line.
\<close>

fun strip_article_headers :: "bytes \<Rightarrow> bytes" where
  "strip_article_headers (a # b # s) =
     (if a = CR \<and> b = LF then
        (if 2 \<le> length s \<and> s ! 0 = CR \<and> s ! 1 = LF then drop 2 s
         else strip_article_headers (b # s))
      else if a = LF \<and> b = LF then s
      else strip_article_headers (b # s))"
| "strip_article_headers _ = []"

section \<open>Multi-line bodies\<close>

definition parse_xover_line :: "bytes \<Rightarrow> xover_entry option" where
  "parse_xover_line line =
     (let parts = split_on HT line
      in if length parts < 8 then None
         else Some \<lparr>xo_article_num = parse_u64_or_0 (parts ! 0),
                    xo_subject = parts ! 1, xo_from = parts ! 2, xo_date = parts ! 3,
                    xo_message_id =
                      trim_matches (\<lambda>c. c = CHR ''<'' \<or> c = CHR ''>'') (parts ! 4),
                    xo_references = parts ! 5, xo_bytes = parse_u64_or_0 (parts ! 6),
                    xo_lines = parse_u64_or_0 (trim (parts ! 7))\<rparr>)"

definition parse_xover_data :: "bytes \<Rightarrow> xover_entry list" where
  "parse_xover_data d = List.map_filter parse_xover_line (str_lines (from_utf8_lossy d))"

text \<open>\<open>trimmed.find([' ', '\t'])\<close>: the parts before and from the first space or tab.\<close>

definition split_at_blank :: "bytes \<Rightarrow> (bytes \<times> bytes) option" where
  "split_at_blank s =
     (let blank = (\<lambda>c. c = CHR '' '' \<or> c = HT);
          num = takeWhile (\<lambda>c. \<not> blank c) s
      in if num = s then None else Some (num, drop (length num) s))"

definition parse_header_line :: "bytes \<Rightarrow> header_entry option" where
  "parse_header_line line =
     (let trimmed = trim line
      in if trimmed = [] then None
         else case split_at_blank trimmed of
           None \<Rightarrow> None
         | Some (num, rest) \<Rightarrow>
             (case parse_u64 num of
                None \<Rightarrow> None
              | Some n \<Rightarrow> Some \<lparr>he_article_num = n, he_value = trim_start rest\<rparr>))"

definition parse_header_data :: "bytes \<Rightarrow> header_entry list" where
  "parse_header_data d = List.map_filter parse_header_line (str_lines (from_utf8_lossy d))"

definition parse_list_active_line :: "bytes \<Rightarrow> list_active_entry option" where
  "parse_list_active_line line =
     (let trimmed = trim line
      in if trimmed = [] then None
         else let parts = split_whitespace trimmed
              in if length parts < 4 then None
                 else Some \<lparr>la_name = parts ! 0, la_high = parse_u64_or_0 (parts ! 1),
                            la_low = parse_u64_or_0 (parts ! 2), la_status = parts ! 3\<rparr>)"

definition parse_list_active_data :: "bytes \<Rightarrow> list_active_entry list" where
  "parse_list_active_data d = List.map_filter parse_list_active_line (str_lines (from_utf8_lossy d))"

text \<open>The success branch of \<open>group\<close>: the fields of a 211 response.\<close>

definition parse_group_message :: "bytes \<Rightarrow> bytes \<Rightarrow> group_response nntp_result" where
  "parse_group_message nm msg =
     (let parts = split_whitespace msg
      in if length parts < 3 then Inl (Protocol (''Malformed GROUP response: '' @ msg))
         else Inr \<lparr>grp_count = parse_u64_or_0 (parts ! 0), grp_first = parse_u64_or_0 (parts ! 1),
                   grp_last = parse_u64_or_0 (parts ! 2),
                   grp_name = (if 3 < length parts then parts ! 3 else nm)\<rparr>)"

section \<open>SOCKS5 proxy URLs\<close>

record socks5_proxy =
  proxy_addr :: bytes
  proxy_auth :: "(bytes \<times> bytes) option"

definition parse_socks5_url :: "bytes \<Rightarrow> bytes + socks5_proxy" where
  "parse_socks5_url url =
     (if \<not> starts_with ''socks5://'' url
      then Inl (''proxy URL must start with socks5://, got: '' @ url)
      else let rest = drop 9 url
           in case rsplit_once (CHR ''@'') rest of
                Some (auth_part, host_part) \<Rightarrow>
                  (case split_once (CHR '':'') auth_part of
                     None \<Rightarrow> Inl ''proxy auth must be username:password''
                   | Some (user, pass) \<Rightarrow>
                       if host_part = [] then Inl ''proxy URL must contain host:port''
                       else Inr \<lparr>proxy_addr = host_part, proxy_auth = Some (user, pass)\<rparr>)
              | None \<Rightarrow>
                  if rest = [] then Inl ''proxy URL must contain host:port''
                  else Inr \<lparr>proxy_addr = rest, proxy_auth = None\<rparr>)"

section \<open>Certificate fingerprints\<close>

definition hex_val :: "byte \<Rightarrow> nat option" where
  "hex_val c =
     (let v = byte_val c
      in if 48 \<le> v \<and> v \<le> 57 then Some (v - 48)
         else if 97 \<le> v \<and> v \<le> 102 then Some (v - 87)
         else if 65 \<le> v \<and> v \<le> 70 then Some (v - 55)
         else None)"

text \<open>
  \<open>u8::from_str_radix(hex, 16)\<close> on a two-byte string.  Like every \<open>from_str_radix\<close> of an
  unsigned type it accepts a leading plus sign.
\<close>

definition parse_hex_byte :: "byte \<Rightarrow> byte \<Rightarrow> nat option" where
  "parse_hex_byte a b =
     (if a = CHR ''+'' then hex_val b
      else case (hex_val a, hex_val b) of
        (Some x, Some y) \<Rightarrow> Some (16 * x + y) | _ \<Rightarrow> None)"

fun parse_hex_pairs :: "bytes \<Rightarrow> bytes option" where
  "parse_hex_pairs (a # b # s) =
     (case (parse_hex_byte a b, parse_hex_pairs s) of
        (Some v, Some r) \<Rightarrow> Some (char_of v # r) | _ \<Rightarrow> None)"
| "parse_hex_pairs [] = Some []"
| "parse_hex_pairs [a] = None"

definition parse_fingerprint :: "bytes \<Rightarrow> bytes option" where
  "parse_fingerprint s =
     (let cleaned = filter (\<lambda>c. c \<noteq> CHR '':'') (remove_whitespace s)
      in if length cleaned \<noteq> 64 then None else parse_hex_pairs cleaned)"

definition hex_encode_short :: "bytes \<Rightarrow> bytes" where
  "hex_encode_short bs =
     concat (map (\<lambda>b. [hex_digit (byte_val b div 16), hex_digit (byte_val b mod 16)]) (take 8 bs))"

text \<open>
  Which certificate verifier \<open>build_tls_config\<close> installs.  A pinned fingerprint wins over the
  \<open>ssl_verify\<close> flag.  The construction of the \<open>rustls\<close> configuration itself cannot fail with
  the default protocol versions of the \<open>ring\<close> provider.
\<close>

datatype tls_verifier = FingerprintVerifier bytes | WebPkiVerifier | NoVerifier

definition build_tls_config :: "bool \<Rightarrow> bytes option \<Rightarrow> tls_verifier nntp_result" where
  "build_tls_config verify_certs fp =
     (case fp of
        Some fp_hex \<Rightarrow>
          (case parse_fingerprint fp_hex of
             None \<Rightarrow> Inl (Connection (''invalid trusted_fingerprint: '' @ fp_hex))
           | Some expected \<Rightarrow> Inr (FingerprintVerifier expected))
      | None \<Rightarrow> Inr (if verify_certs then WebPkiVerifier else NoVerifier))"

text \<open>
  The decision of the installed verifier on an end-entity certificate.  \<open>sha256\<close> is the digest
  of the \<open>sha2\<close> crate and \<open>webpki\<close> the chain validation of \<open>rustls\<close>: both are parameters.
\<close>

definition verify_server_cert ::
  "(bytes \<Rightarrow> bytes) \<Rightarrow> (bytes \<Rightarrow> bytes + unit) \<Rightarrow> tls_verifier \<Rightarrow> bytes \<Rightarrow> bytes + unit" where
  "verify_server_cert sha256 webpki v cert =
     (case v of
        FingerprintVerifier expected \<Rightarrow>
          (let got = sha256 cert
           in if got = expected then Inr ()
              else Inl (''server cert fingerprint mismatch (expected ''
                        @ hex_encode_short expected @ '', got '' @ hex_encode_short got @ '')''))
      | WebPkiVerifier \<Rightarrow> webpki cert
      | NoVerifier \<Rightarrow> Inr ())"

text \<open>
  The check of the handshake signature, for TLS 1.2 and 1.3 alike.  The two verifiers of the source
  accept every signature; only the default one checks it, with \<open>webpki_sig\<close>, that of \<open>rustls\<close>, on
  the message, the certificate and the signature.
\<close>

definition verify_tls_signature ::
  "(bytes \<Rightarrow> bytes \<Rightarrow> bytes \<Rightarrow> bytes + unit) \<Rightarrow> tls_verifier \<Rightarrow> bytes \<Rightarrow> bytes \<Rightarrow> bytes \<Rightarrow> bytes + unit" where
  "verify_tls_signature webpki_sig v msg cert dss =
     (case v of
        FingerprintVerifier _ \<Rightarrow> Inr ()
      | WebPkiVerifier \<Rightarrow> webpki_sig msg cert dss
      | NoVerifier \<Rightarrow> Inr ())"

end
