(* ===== verification/Wire_Laws.thy ===== *)
theory Wire_Laws
  imports Wire
begin

text \<open>
  What the parsers of \<open>Wire\<close> promise.  The bodies of \<open>XOVER\<close>, \<open>XHDR\<close>/\<open>XPAT\<close> and \<open>LIST ACTIVE\<close> are
  instances of one interface, a line format: a parser of lines that inverts a renderer.
\<close>

section \<open>Line formats\<close>

lemma utf8_valid_crlf_lines:
  "\<forall>l \<in> set ls. utf8_valid l \<Longrightarrow> utf8_valid (crlf_lines ls)"
proof (induction ls)
  case (Cons l ls)
  have "utf8_valid (crlf @ crlf_lines ls) = utf8_valid (crlf_lines ls)"
    by (rule utf8_valid_append, rule utf8_valid_ascii) (simp add: is_ascii_def)
  with Cons show ?case by (simp add: utf8_valid_append)
qed simp

locale line_format =
  fixes parse :: "bytes \<Rightarrow> 'a option"
    and render :: "'a \<Rightarrow> bytes"
    and wf :: "'a \<Rightarrow> bool"
  assumes parse_render: "wf e \<Longrightarrow> parse (render e) = Some e"
    and render_one_line: "wf e \<Longrightarrow> LF \<notin> set (render e)"
    and render_utf8: "wf e \<Longrightarrow> utf8_valid (render e)"
begin

lemma lines_render:
  assumes "list_all wf es"
  shows "str_lines (from_utf8_lossy (crlf_lines (map render es))) = map render es"
proof -
  from assms have "utf8_valid (crlf_lines (map render es))"
    by (intro utf8_valid_crlf_lines) (auto simp: list_all_iff render_utf8)
  with assms show ?thesis
    by (simp add: utf8_lossy_valid str_lines_crlf_lines list_all_iff render_one_line)
qed

lemma data_round_trip:
  assumes "list_all wf es"
  shows "List.map_filter parse (str_lines (from_utf8_lossy (crlf_lines (map render es)))) = es"
proof -
  have "List.map_filter parse (map render es) = es"
    using assms by (induction es) (simp_all add: parse_render)
  with assms show ?thesis by (simp add: lines_render)
qed

lemma data_bounded_by_lines:
  "length (List.map_filter parse (str_lines d)) \<le> length (str_lines d)"
  by (simp add: map_filter_def)

end

section \<open>XOVER\<close>

definition xover_fields :: "xover_entry \<Rightarrow> bytes list" where
  "xover_fields e = [show_nat (xo_article_num e), xo_subject e, xo_from e, xo_date e,
     ''<'' @ xo_message_id e @ ''>'', xo_references e, show_nat (xo_bytes e), show_nat (xo_lines e)]"

definition xover_line :: "xover_entry \<Rightarrow> bytes" where
  "xover_line e = join [HT] (xover_fields e)"

definition field_ok :: "bytes \<Rightarrow> bool" where
  "field_ok s \<longleftrightarrow> HT \<notin> set s \<and> LF \<notin> set s \<and> utf8_valid s"

definition angle :: "byte \<Rightarrow> bool" where
  "angle c \<longleftrightarrow> c = CHR ''<'' \<or> c = CHR ''>''"

definition xover_ok :: "xover_entry \<Rightarrow> bool" where
  "xover_ok e \<longleftrightarrow>
     xo_article_num e < 2 ^ 64 \<and> xo_bytes e < 2 ^ 64 \<and> xo_lines e < 2 ^ 64
     \<and> list_all field_ok [xo_subject e, xo_from e, xo_date e, xo_message_id e, xo_references e]
     \<and> xo_message_id e \<noteq> [] \<and> \<not> angle (hd (xo_message_id e)) \<and> \<not> angle (last (xo_message_id e))"

lemma show_nat_chars:
  assumes "c \<in> set (show_nat n)" shows "is_digit c" "is_ascii c" "c \<noteq> HT" "c \<noteq> LF" "c \<noteq> CR"
  using show_nat_mem [OF assms] by (auto simp: is_digit_def is_ascii_def)

lemma field_ok_show_nat [simp]: "field_ok (show_nat n)"
  unfolding field_ok_def
  by (auto dest: show_nat_chars intro!: utf8_valid_ascii simp: list_all_iff)

lemma parse_u64_or_0_show_nat [simp]: "n < 2 ^ 64 \<Longrightarrow> parse_u64_or_0 (show_nat n) = n"
  by (simp add: parse_u64_or_0_def parse_u64_show_nat)

lemma trim_show_nat [simp]: "trim (show_nat n) = show_nat n"
proof (rule trim_id)
  have "show_nat n \<noteq> []" using show_nat_digits by blast
  then have "is_digit (hd (show_nat n))" "is_digit (last (show_nat n))"
    by (rule show_nat_mem [OF hd_in_set], rule show_nat_mem [OF last_in_set])
  then show "show_nat n = [] \<or> \<not> ws_lead (hd (show_nat n)) \<and> \<not> ws_trail (last (show_nat n))"
    by (simp add: digit_not_ws)
qed

lemma trim_matches_angle:
  assumes "m \<noteq> []" and "\<not> p (hd m)" and "\<not> p (last m)" and "p a" and "p b"
  shows "trim_matches p (a # m @ [b]) = m"
proof -
  from assms(1,2) have d: "dropWhile p (m @ s) = m @ s" for s by (cases m) auto
  from assms(1,3) have "dropWhile p (rev m) = rev m" by (cases m rule: rev_cases) auto
  with d assms(4,5) show ?thesis by (simp add: trim_matches_def)
qed

lemma utf8_valid_join:
  "utf8_valid sep \<Longrightarrow> \<forall>p \<in> set ps. utf8_valid p \<Longrightarrow> utf8_valid (join sep ps)"
  by (induction ps rule: induct_list012) (simp_all add: utf8_valid_append)

lemma set_join: "set (join sep ps) \<subseteq> set sep \<union> \<Union> (set ` set ps)"
  by (induction ps rule: induct_list012) auto

lemma field_ok_bracketed: "field_ok m \<Longrightarrow> field_ok (''<'' @ m @ ''>'')"
proof -
  assume m: "field_ok m"
  have "utf8_valid ''<''" "utf8_valid ''>''" by (rule utf8_valid_ascii, simp add: is_ascii_def)+
  with m have "utf8_valid (''<'' @ m @ ''>'')" unfolding field_ok_def by (metis utf8_valid_append)
  with m show ?thesis by (simp add: field_ok_def)
qed

lemma xover_fields_ok: "xover_ok e \<Longrightarrow> p \<in> set (xover_fields e) \<Longrightarrow> field_ok p"
  using field_ok_bracketed [of "xo_message_id e"] by (auto simp: xover_ok_def xover_fields_def)

lemma xover_split: "xover_ok e \<Longrightarrow> split_on HT (xover_line e) = xover_fields e"
  unfolding xover_line_def
  by (rule split_on_join) (auto dest: xover_fields_ok simp: field_ok_def, simp add: xover_fields_def)

interpretation xover_format: line_format parse_xover_line xover_line xover_ok
proof
  fix e assume e: "xover_ok e"
  have "trim_matches (\<lambda>c. c = CHR ''<'' \<or> c = CHR ''>'') (''<'' @ xo_message_id e @ ''>'') = xo_message_id e"
    using trim_matches_angle [of "xo_message_id e" angle "CHR ''<''" "CHR ''>''"] e
    by (simp add: xover_ok_def angle_def [abs_def])
  with e show "parse_xover_line (xover_line e) = Some e"
    by (simp add: parse_xover_line_def xover_split) (simp add: xover_fields_def xover_ok_def)
  show "LF \<notin> set (xover_line e)"
    using set_join [of "[HT]" "xover_fields e"] xover_fields_ok [OF e]
    unfolding xover_line_def field_ok_def by fastforce
  have "utf8_valid [HT]" by (rule utf8_valid_ascii) (simp add: is_ascii_def)
  then show "utf8_valid (xover_line e)"
    unfolding xover_line_def
    by (rule utf8_valid_join) (auto dest: xover_fields_ok [OF e] simp: field_ok_def)
qed

section \<open>XHDR and XPAT\<close>

definition blank :: "byte \<Rightarrow> bool" where "blank c \<longleftrightarrow> c = CHR '' '' \<or> c = HT"

definition header_line :: "header_entry \<Rightarrow> bytes" where
  "header_line e = show_nat (he_article_num e) @ '' '' @ he_value e"

definition header_ok :: "header_entry \<Rightarrow> bool" where
  "header_ok e \<longleftrightarrow>
     he_article_num e < 2 ^ 64 \<and> he_value e \<noteq> [] \<and> \<not> ws_lead (hd (he_value e))
     \<and> \<not> ws_trail (last (he_value e)) \<and> LF \<notin> set (he_value e) \<and> utf8_valid (he_value e)"

lemma takeWhile_show_nat [simp]:
  "takeWhile (\<lambda>c. \<not> (c = CHR '' '' \<or> c = HT)) (show_nat n @ CHR '' '' # s) = show_nat n"
proof -
  have "\<forall>c \<in> set (show_nat n). \<not> (c = CHR '' '' \<or> c = HT)"
    by (auto dest!: show_nat_mem simp: is_digit_def)
  then show ?thesis by (subst takeWhile_append2) auto
qed

lemma utf8_valid_digits: "utf8_valid (show_nat n @ s) = utf8_valid s"
  by (rule utf8_valid_append, rule utf8_valid_ascii) (auto simp: list_all_iff dest: show_nat_chars)

lemma utf8_valid_space: "utf8_valid (CHR '' '' # s) = utf8_valid s"
  using utf8_valid_append [of "'' ''" s] utf8_valid_ascii [of "'' ''"] by (simp add: is_ascii_def del: utf8_valid.simps)

lemma show_nat_nonempty [simp]: "show_nat n \<noteq> []"
  using show_nat_digits by blast

interpretation header_format: line_format parse_header_line header_line header_ok
proof
  fix e assume e: "header_ok e"
  have h: "header_line e = show_nat (he_article_num e) @ CHR '' '' # he_value e"
    by (simp add: header_line_def)
  have "is_digit (hd (show_nat (he_article_num e)))" by (rule show_nat_mem [OF hd_in_set]) simp
  with e have t: "trim (header_line e) = header_line e"
    by (intro trim_id) (auto simp: h header_ok_def digit_not_ws)
  have "trim_start (CHR '' '' # he_value e) = trim_start (he_value e)"
  proof -
    have "ws_len (CHR '' '' # he_value e) = 1"
      by (cases "CHR '' '' # he_value e" rule: ws_len.cases) (auto simp: ws1_def)
    then show ?thesis by simp
  qed
  also have "\<dots> = he_value e" using e by (intro trim_start_id) (simp add: header_ok_def)
  finally have ts: "trim_start (CHR '' '' # he_value e) = he_value e" .
  have "split_at_blank (header_line e) = Some (show_nat (he_article_num e), CHR '' '' # he_value e)"
    unfolding split_at_blank_def Let_def h takeWhile_show_nat by simp
  moreover have "parse_u64 (show_nat (he_article_num e)) = Some (he_article_num e)"
    using e by (intro parse_u64_show_nat) (simp add: header_ok_def)
  moreover have "header_line e \<noteq> []" by (simp add: h)
  ultimately show "parse_header_line (header_line e) = Some e"
    unfolding parse_header_line_def Let_def t using ts by simp
  show "LF \<notin> set (header_line e)" using e by (auto simp: h header_ok_def dest: show_nat_chars)
  show "utf8_valid (header_line e)"
    unfolding h utf8_valid_digits utf8_valid_space using e by (simp add: header_ok_def)
qed

section \<open>LIST ACTIVE\<close>

definition active_line :: "list_active_entry \<Rightarrow> bytes" where
  "active_line e = la_name e @ '' '' @ show_nat (la_high e) @ '' '' @ show_nat (la_low e) @ '' ''
                   @ la_status e"

definition word_ok :: "bytes \<Rightarrow> bool" where
  "word_ok s \<longleftrightarrow> s \<noteq> [] \<and> ws_free s \<and> \<not> ws_trail (last s) \<and> utf8_valid s"

definition active_ok :: "list_active_entry \<Rightarrow> bool" where
  "active_ok e \<longleftrightarrow>
     la_high e < 2 ^ 64 \<and> la_low e < 2 ^ 64 \<and> word_ok (la_name e) \<and> word_ok (la_status e)"

lemma ws_free_no_lf: "ws_free s \<Longrightarrow> LF \<notin> set s"
  by (auto simp: list_all_iff ws_lead_def ws1_def)

interpretation active_format: line_format parse_list_active_line active_line active_ok
proof
  fix e assume e: "active_ok e"
  then have n: "word_ok (la_name e)" "word_ok (la_status e)" by (simp_all add: active_ok_def)
  have h: "active_line e = la_name e @ CHR '' '' # show_nat (la_high e) @ CHR '' '' # show_nat (la_low e)
      @ CHR '' '' # la_status e"
    by (simp add: active_line_def)
  have "\<not> ws_lead (hd (la_name e))" using n by (cases "la_name e") (auto simp: word_ok_def)
  then have t: "trim (active_line e) = active_line e"
    using n by (intro trim_id) (auto simp: h word_ok_def)
  have w: "split_whitespace (active_line e)
      = [la_name e, show_nat (la_high e), show_nat (la_low e), la_status e]"
    using n by (simp add: h word_ok_def split_whitespace_cons split_whitespace_word ws_free_show_nat)
  have ne: "active_line e \<noteq> []" by (simp add: h)
  from e show "parse_list_active_line (active_line e) = Some e"
    by (simp add: parse_list_active_line_def t w ne active_ok_def)
  show "LF \<notin> set (active_line e)"
    using n ws_free_no_lf by (auto simp: h word_ok_def dest: show_nat_chars)
  show "utf8_valid (active_line e)"
    unfolding h using n by (simp add: word_ok_def utf8_valid_append utf8_valid_digits utf8_valid_space del: utf8_valid.simps)
qed

section \<open>Status lines\<close>

definition status_line :: "nat \<Rightarrow> bytes \<Rightarrow> bytes" where
  "status_line n msg = show_nat n @ '' '' @ msg @ crlf"

lemma length_show_nat_1: "n < 10 \<Longrightarrow> length (show_nat n) = 1"
  by (simp add: show_nat.simps [of n])

lemma length_show_nat_Suc: "10 \<le> n \<Longrightarrow> length (show_nat n) = Suc (length (show_nat (n div 10)))"
  by (simp add: show_nat.simps [of n])

lemma length_show_nat_3: "100 \<le> n \<Longrightarrow> n < 1000 \<Longrightarrow> length (show_nat n) = 3"
  by (simp add: length_show_nat_Suc length_show_nat_1 div_mult2_eq [symmetric]
      less_eq_div_iff_mult_less_eq div_less_iff_less_mult)

lemma trim_end_crlf_crlf [simp]: "trim_end_crlf (s @ crlf) = trim_end_crlf s"
  by (simp add: trim_end_crlf_def)

lemma trim_end_crlf_id: "s = [] \<or> last s \<notin> {CR, LF} \<Longrightarrow> trim_end_crlf s = s"
  by (cases s rule: rev_cases) (auto simp: trim_end_crlf_def)

lemma skip_char_space [simp]: "skip_char (CHR '' '' # s) = s"
  using utf8_step_ascii [of "CHR '' ''" s] by (simp add: skip_char_def is_ascii_def)

lemma parse_status_line:
  assumes "100 \<le> n" and "n < 1000" and "msg = [] \<or> last msg \<notin> {CR, LF}"
  shows "parse_response_line (status_line n msg) = Inr \<lparr>code = n, message = msg, data = None\<rparr>"
proof -
  have "trim_end_crlf (show_nat n @ CHR '' '' # msg) = show_nat n @ CHR '' '' # msg"
    using assms(3) by (intro trim_end_crlf_id) auto
  moreover have "status_line n msg = (show_nat n @ CHR '' '' # msg) @ crlf"
    by (simp add: status_line_def)
  ultimately have t: "trim_end_crlf (status_line n msg) = show_nat n @ CHR '' '' # msg"
    by (metis trim_end_crlf_crlf)
  from assms length_show_nat_3 [of n] show_nat_digits [of n] show ?thesis
    by (simp add: parse_response_line_def t)
qed

lemma decimal_three_bound:
  assumes "list_all is_digit (take 3 s)" shows "decimal (take 3 s) \<le> 999"
proof -
  have d: "digit_val c \<le> 9" if "is_digit c" for c using that by (auto simp: is_digit_def digit_val_def)
  consider "length s = 0" | a where "s = [a]" | a b where "s = [a, b]" | a b c r where "s = a # b # c # r"
    by (cases s rule: list.exhaust; cases "tl s" rule: list.exhaust; cases "tl (tl s)" rule: list.exhaust) auto
  then show ?thesis
  proof cases
    case 4
    with assms d [of a] d [of b] d [of c] show ?thesis by (simp add: decimal_def)
  qed (use assms d in \<open>auto simp: decimal_def dest!: d\<close>)
qed

text \<open>
  A status line written by a server as RFC 3977 has it, a three-digit code, a space and a text
  that does not itself end in CR or LF, is parsed back to that code and that text.
\<close>

theorem response_line_round_trip:
  assumes "100 \<le> n" and "n < 1000" and "msg = [] \<or> last msg \<notin> {CR, LF}"
  shows "parse_response_line (show_nat n @ '' '' @ msg @ crlf)
           = Inr \<lparr>code = n, message = msg, data = None\<rparr>"
  using parse_status_line [OF assms] by (simp add: status_line_def)

lemma response_line_round_trip_witness:
  "parse_response_line (show_nat 211 @ '' '' @ ''3 1 9 misc.test'' @ crlf)
     = Inr \<lparr>code = 211, message = ''3 1 9 misc.test'', data = None\<rparr>"
  by (rule response_line_round_trip) simp_all

section \<open>Listings\<close>

text \<open>
  C33: An \<open>XOVER\<close> body of well-formed lines, eight tab-separated fields with the message id in angle
  brackets and numbers that fit 64 bits, is parsed to exactly the entries it renders, in order.
\<close>

theorem xover_round_trip:
  "list_all xover_ok es \<Longrightarrow> parse_xover_data (crlf_lines (map xover_line es)) = es"
  unfolding parse_xover_data_def by (rule xover_format.data_round_trip)

definition sample_xover :: xover_entry where
  "sample_xover =
     \<lparr>xo_article_num = 7, xo_subject = ''s'', xo_from = ''f'', xo_date = ''d'', xo_message_id = ''a@b'',
      xo_references = [], xo_bytes = 1, xo_lines = 0\<rparr>"

lemma utf8_valid_letter [simp]: "is_ascii c \<Longrightarrow> utf8_valid [c]"
  by (rule utf8_valid_ascii) simp

lemma xover_round_trip_witness:
  "parse_xover_data (crlf_lines (map xover_line [sample_xover, sample_xover])) = [sample_xover, sample_xover]"
proof (rule xover_round_trip)
  have "utf8_valid ''a@b''" by (rule utf8_valid_ascii) (simp add: is_ascii_def)
  then show "list_all xover_ok [sample_xover, sample_xover]"
    by (simp add: sample_xover_def xover_ok_def field_ok_def angle_def is_ascii_def
        del: utf8_valid.simps(2))
qed

text \<open>
An \<open>XHDR\<close> or \<open>XPAT\<close> body of lines with an article number, a space and a non-empty value
  without surrounding whitespace is parsed to exactly its entries.
\<close>

theorem header_round_trip:
  "list_all header_ok es \<Longrightarrow> parse_header_data (crlf_lines (map header_line es)) = es"
  unfolding parse_header_data_def by (rule header_format.data_round_trip)

lemma header_round_trip_witness:
  "parse_header_data (crlf_lines (map header_line [\<lparr>he_article_num = 12, he_value = ''x''\<rparr>]))
     = [\<lparr>he_article_num = 12, he_value = ''x''\<rparr>]"
  by (rule header_round_trip)
     (simp add: header_ok_def ws_lead_def ws_trail_def ws1_def is_ascii_def del: utf8_valid.simps(2))

text \<open>
A \<open>LIST ACTIVE\<close> body of four-word lines is parsed to exactly its groups, with the 64-bit
  water marks unchanged.
\<close>

theorem list_active_round_trip:
  "list_all active_ok es \<Longrightarrow> parse_list_active_data (crlf_lines (map active_line es)) = es"
  unfolding parse_list_active_data_def by (rule active_format.data_round_trip)

lemma list_active_round_trip_witness:
  "parse_list_active_data (crlf_lines (map active_line
     [\<lparr>la_name = ''g'', la_high = 18446744073709551615, la_low = 1, la_status = ''y''\<rparr>]))
   = [\<lparr>la_name = ''g'', la_high = 18446744073709551615, la_low = 1, la_status = ''y''\<rparr>]"
  by (rule list_active_round_trip)
     (simp add: active_ok_def word_ok_def ws_lead_def ws_trail_def ws1_def is_ascii_def
        del: utf8_valid.simps(2))

section \<open>Headers and bodies\<close>

lemma strip_article_headers_skip:
  "a \<noteq> CR \<Longrightarrow> a \<noteq> LF \<Longrightarrow> s \<noteq> [] \<Longrightarrow> strip_article_headers (a # s) = strip_article_headers s"
  by (cases s) auto

lemma strip_article_headers_line:
  "CR \<notin> set h \<Longrightarrow> LF \<notin> set h \<Longrightarrow> strip_article_headers (h @ CR # LF # s) = strip_article_headers (CR # LF # s)"
proof (induction h)
  case (Cons a h)
  then have "a \<noteq> CR" "a \<noteq> LF" by auto
  with Cons show ?case by (simp add: strip_article_headers_skip del: strip_article_headers.simps)
qed simp

lemma strip_article_headers_crlf:
  assumes "\<not> (\<exists>t. s = CR # LF # t)" and "s \<noteq> []" and "hd s \<noteq> LF"
  shows "strip_article_headers (CR # LF # s) = strip_article_headers s"
proof -
  obtain a t where s: "s = a # t" using assms(2) by (cases s) auto
  have "\<not> (2 \<le> length s \<and> s ! 0 = CR \<and> s ! 1 = LF)"
    using assms(1) s by (cases t) auto
  moreover have "strip_article_headers (LF # s) = strip_article_headers s"
    using assms(3) s by simp
  ultimately show ?thesis
    unfolding strip_article_headers.simps(1) [of CR LF s] by (simp only: refl if_True if_False HOL.simp_thms)
qed

text \<open>
  Stripping the headers of an article, header lines ended by CR LF and then an empty line,
  leaves exactly its body, whatever the body holds.
\<close>

theorem strip_headers_exact:
  assumes "hs \<noteq> []" and "\<forall>h \<in> set hs. h \<noteq> [] \<and> CR \<notin> set h \<and> LF \<notin> set h"
  shows "strip_article_headers (crlf_lines hs @ crlf @ body) = body"
  using assms
proof (induction hs rule: induct_list012)
  case (2 h)
  then show ?case by (simp add: strip_article_headers_line del: strip_article_headers.simps) simp
next
  case (3 h k hs)
  obtain a t where k: "k = a # t" "a \<noteq> CR" "a \<noteq> LF" using 3(4) by (cases k) auto
  have "strip_article_headers (h @ CR # LF # crlf_lines (k # hs) @ crlf @ body)
      = strip_article_headers (crlf_lines (k # hs) @ crlf @ body)"
    using 3(4) k by (simp add: strip_article_headers_line strip_article_headers_crlf
        del: strip_article_headers.simps)
  with 3(2,4) show ?case by simp
qed simp

lemma strip_headers_exact_witness:
  "strip_article_headers (crlf_lines [''A: b'', ''C: d''] @ crlf @ crlf @ ''x'') = crlf @ ''x''"
  by (rule strip_headers_exact) simp_all

section \<open>Message ids\<close>

lemma ends_with_gt: "ends_with ''>'' (s @ ''>'')"
  by (simp add: ends_with_def starts_with_iff)

text \<open>
A message id is sent with exactly one pair of angle brackets: the bracketed form of an id is
  a fixed point, a bare id gets them, and normalising twice changes nothing.
\<close>

theorem normalize_message_id_exact:
  "normalize_message_id (''<'' @ m @ ''>'') = ''<'' @ m @ ''>''
   \<and> (hd (m @ ''x'') = CHR ''<'' \<or> normalize_message_id m = ''<'' @ m @ ''>'')
   \<and> normalize_message_id (normalize_message_id m) = normalize_message_id m"
  using ends_with_gt [of "''<'' @ m"]
  by (cases m) (auto simp: normalize_message_id_def starts_with_iff)

section \<open>Proxies and certificates\<close>

lemma split_once_append: "d \<notin> set p \<Longrightarrow> split_once d (p @ d # s) = Some (p, s)"
  by (induction p) auto

lemma rsplit_once_append: "d \<notin> set s \<Longrightarrow> rsplit_once d (p @ d # s) = Some (p, s)"
  using split_once_append [of d "rev s" "rev p"] by (simp add: rsplit_once_def)

text \<open>
  A SOCKS5 URL with credentials is taken apart at the first colon of the credentials and at the
  last at-sign, so passwords may hold both characters.
\<close>

theorem socks5_url_round_trip:
  assumes "CHR '':'' \<notin> set user" and "CHR ''@'' \<notin> set addr" and "addr \<noteq> []"
  shows "parse_socks5_url (''socks5://'' @ user @ '':'' @ pass @ ''@'' @ addr)
           = Inr \<lparr>proxy_addr = addr, proxy_auth = Some (user, pass)\<rparr>"
proof -
  have "starts_with ''socks5://'' (''socks5://'' @ user @ '':'' @ pass @ ''@'' @ addr)"
    by (rule starts_with_append)
  moreover have "drop 9 (''socks5://'' @ user @ '':'' @ pass @ ''@'' @ addr) = (user @ '':'' @ pass) @ CHR ''@'' # addr"
    by simp
  moreover have "split_once (CHR '':'') (user @ '':'' @ pass) = Some (user, pass)"
    using split_once_append [OF assms(1), of pass] by simp
  ultimately show ?thesis
    using assms(3) rsplit_once_append [OF assms(2), of "user @ '':'' @ pass"]
    unfolding parse_socks5_url_def Let_def by simp
qed

lemma socks5_url_round_trip_witness:
  "parse_socks5_url (''socks5://'' @ ''u'' @ '':'' @ ''p:@q'' @ ''@'' @ ''h:1080'')
     = Inr \<lparr>proxy_addr = ''h:1080'', proxy_auth = Some (''u'', ''p:@q'')\<rparr>"
  by (rule socks5_url_round_trip) simp_all

definition hex_pair :: "byte \<Rightarrow> bytes" where
  "hex_pair b = [hex_digit (byte_val b div 16), hex_digit (byte_val b mod 16)]"

lemma hex_digit_val: "n < 16 \<Longrightarrow> byte_val (hex_digit n) = (if n < 10 then 48 + n else 87 + n)"
  by (simp add: hex_digit_def)

lemma hex_val_digit: "n < 16 \<Longrightarrow> hex_val (hex_digit n) = Some n"
  by (auto simp: hex_val_def hex_digit_val Let_def)

lemma hex_digit_neq: "n < 16 \<Longrightarrow> hex_digit n \<noteq> c" if "byte_val c \<notin> {48..57} \<union> {97..102}" for c
  using that hex_digit_val [of n] by (auto split: if_splits)

lemma byte_val_less: "byte_val b < 256"
  by simp

lemma parse_hex_byte_pair:
  "parse_hex_byte (hex_digit (byte_val b div 16)) (hex_digit (byte_val b mod 16)) = Some (byte_val b)"
proof -
  have "byte_val b div 16 < 16" by (simp add: div_less_iff_less_mult)
  moreover have "byte_val (CHR ''+'') = 43" by simp
  ultimately show ?thesis
    using hex_digit_neq [of "CHR ''+''" "byte_val b div 16"]
    by (simp add: parse_hex_byte_def hex_val_digit)
qed

definition hex_string :: "bytes \<Rightarrow> bytes" where
  "hex_string bs = concat (map hex_pair bs)"

lemma parse_hex_pairs_string: "parse_hex_pairs (hex_string bs) = Some bs"
  by (induction bs) (simp_all add: hex_string_def hex_pair_def parse_hex_byte_pair)

lemma length_hex_string: "length (hex_string bs) = 2 * length bs"
  by (induction bs) (simp_all add: hex_string_def hex_pair_def)

lemma hex_digit_range: "n < 16 \<Longrightarrow> byte_val (hex_digit n) \<in> {48..57} \<union> {97..102}"
  by (cases "n < 10") (auto simp: hex_digit_val)

lemma hex_pair_plain:
  assumes "c \<in> set (hex_pair b)" shows "\<not> ws_lead c" "c \<noteq> CHR '':''"
proof -
  have "byte_val b div 16 < 16" "byte_val b mod 16 < 16" by (simp_all add: div_less_iff_less_mult)
  note r = hex_digit_range [OF this(1)] hex_digit_range [OF this(2)]
  from assms have "c = hex_digit (byte_val b div 16) \<or> c = hex_digit (byte_val b mod 16)"
    by (simp add: hex_pair_def)
  with r have "byte_val c \<in> {48..57} \<union> {97..102}" by metis
  then show "\<not> ws_lead c" "c \<noteq> CHR '':''" by (auto simp: ws_lead_def ws1_def)
qed

lemma remove_whitespace_free: "ws_free s \<Longrightarrow> remove_whitespace s = s"
  by (simp add: remove_whitespace_def ws_pieces_free)

lemma filter_colon_join:
  "\<forall>p \<in> set ps. CHR '':'' \<notin> set p \<Longrightarrow> filter (\<lambda>c. c \<noteq> CHR '':'') (join '':'' ps) = concat ps"
proof (induction ps rule: induct_list012)
  case (2 p)
  then show ?case by (auto intro!: filter_True)
next
  case (3 p q ps)
  then have "filter (\<lambda>c. c \<noteq> CHR '':'') p = p" by (auto intro!: filter_True)
  with 3 show ?case by simp
qed simp

lemma parse_fingerprint_colons:
  assumes "length fp = 32"
  shows "parse_fingerprint (join '':'' (map hex_pair fp)) = Some fp"
proof -
  have "\<not> ws_lead (CHR '':'')" by (simp add: ws_lead_def ws1_def)
  then have "ws_free (join '':'' (map hex_pair fp))"
    using set_join [of "'':''" "map hex_pair fp"] hex_pair_plain(1) by (fastforce simp: list_all_iff)
  moreover have "filter (\<lambda>c. c \<noteq> CHR '':'') (join '':'' (map hex_pair fp)) = hex_string fp"
    unfolding hex_string_def by (rule filter_colon_join) (auto dest: hex_pair_plain)
  ultimately show ?thesis
    using assms by (simp add: parse_fingerprint_def remove_whitespace_free length_hex_string parse_hex_pairs_string)
qed

text \<open>
  C35: Certificate pinning: a fingerprint configured in the usual colon-separated form always yields
  a verifier, and whatever the other TLS setting and the chain validation say, that verifier accepts
  exactly the certificates with that SHA-256 digest.
\<close>

theorem pinned_certificate:
  assumes "length fp = 32"
  shows "\<exists>v. build_tls_config verify (Some (join '':'' (map hex_pair fp))) = Inr v
           \<and> (verify_server_cert sha256 webpki v cert = Inr () \<longleftrightarrow> sha256 cert = fp)"
  using parse_fingerprint_colons [OF assms]
  by (auto simp: build_tls_config_def verify_server_cert_def Let_def)

lemma pinned_certificate_witness:
  "\<exists>v. build_tls_config False (Some (join '':'' (map hex_pair (replicate 32 (CHR ''a''))))) = Inr v
     \<and> (verify_server_cert (\<lambda>c. replicate 32 (hd c)) (\<lambda>_. Inl []) v ''ab'' = Inr ()
          \<longleftrightarrow> replicate 32 (hd ''ab'') = replicate 32 (CHR ''a''))"
  by (rule pinned_certificate) simp

text \<open>
  The pin is all that is checked: a peer that presents the pinned certificate is accepted whatever
  signature it gives, so also one that does not hold the key of that certificate.
\<close>

lemma pinned_signature_unchecked:
  assumes "length fp = 32" and "sha256 cert = fp"
  shows "\<exists>v. build_tls_config verify (Some (join '':'' (map hex_pair fp))) = Inr v
    \<and> verify_server_cert sha256 webpki v cert = Inr () \<and> verify_tls_signature webpki_sig v msg cert dss = Inr ()"
  using parse_fingerprint_colons [OF assms(1)] assms(2)
  by (auto simp: build_tls_config_def verify_server_cert_def verify_tls_signature_def Let_def)

end
