(* ===== verification/Overview_Laws.thy ===== *)
theory Overview_Laws
  imports Overview Wire_Laws
begin

text \<open>
  What the lossless overview parser promises: nothing a server sends is dropped, what is accepted
  is valid, and what is valid is accepted.
\<close>

definition row_line :: "lossless_overview_row \<Rightarrow> bytes \<Rightarrow> bool" where
  "row_line r l \<longleftrightarrow>
     (\<exists>num. l = join [HT] (num # row_fields r) \<and> parse_ascii_u64 num = Some (row_number r))"

definition accounts_for :: "bytes \<Rightarrow> defective_overview_row + lossless_overview_row \<Rightarrow> bool" where
  "accounts_for l c = (case c of Inl d \<Rightarrow> wire_line d = l | Inr r \<Rightarrow> row_line r l)"

lemma row_line_split:
  "parse_ascii_u64 (hd (split_on HT l)) = Some n \<Longrightarrow>
     row_line \<lparr>row_number = n, row_fields = tl (split_on HT l)\<rparr> l"
  unfolding row_line_def
  by (intro exI [of _ "hd (split_on HT l)"]) (simp add: join_split_on)

lemma classify_line_accounts: "accounts_for l (classify_line fmt a b seen l)"
  by (auto simp: classify_line_def accounts_for_def Let_def row_line_split split: option.split)

lemma classify_lines_accounts: "list_all2 accounts_for ls (classify_lines fmt a b seen ls)"
proof (induction ls arbitrary: seen)
  case (Cons l ls)
  then show ?case
    using classify_line_accounts [of l fmt a b seen] by (auto split: sum.split)
qed simp

lemma lefts_rights_simps [simp]:
  "lefts [] = []" "lefts (Inl d # cs) = d # lefts cs" "lefts (Inr r # cs) = lefts cs"
  "rights [] = []" "rights (Inl d # cs) = rights cs" "rights (Inr r # cs) = r # rights cs"
  by (simp_all add: lefts_def rights_def)

lemma length_lefts_rights: "length (lefts cs) + length (rights cs) = length cs"
proof (induction cs)
  case (Cons c cs)
  then show ?case by (cases c) simp_all
qed simp

definition row_ok :: "overview_format \<Rightarrow> nat \<Rightarrow> nat \<Rightarrow> lossless_overview_row \<Rightarrow> bool" where
  "row_ok fmt a b r \<longleftrightarrow>
     a \<le> row_number r \<and> row_number r \<le> b \<and> length (row_fields r) = length (fmt_fields fmt)"

lemma classify_line_row:
  "classify_line fmt a b seen l = Inr r \<Longrightarrow> row_ok fmt a b r \<and> row_number r \<notin> set seen"
  by (auto simp: classify_line_def Let_def row_ok_def split: option.splits if_splits)

lemma classify_lines_rows:
  "list_all (row_ok fmt a b) (rights (classify_lines fmt a b seen ls))
   \<and> distinct (map row_number (rights (classify_lines fmt a b seen ls)))
   \<and> set (map row_number (rights (classify_lines fmt a b seen ls))) \<inter> set seen = {}"
proof (induction ls arbitrary: seen)
  case (Cons l ls)
  show ?case
  proof (cases "classify_line fmt a b seen l")
    case (Inl d)
    with Cons [of seen] show ?thesis by simp
  next
    case (Inr r)
    with Cons [of "row_number r # seen"] classify_line_row [OF Inr] show ?thesis by auto
  qed
qed simp

text \<open>
  C16: The lossless overview parser loses nothing: the wire lines of the response correspond one to
  one, in order, to its rows and its defects; a defect keeps its line byte for byte, and a row's
  line is its number and its fields joined by tabs.
\<close>

theorem overview_lossless:
  "\<exists>cs. list_all2 accounts_for (wire_lines d) cs
        \<and> rows (parse_lossless_overview_rows d fmt a b) = rights cs
        \<and> defective_rows (parse_lossless_overview_rows d fmt a b) = lefts cs
        \<and> length (rights cs) + length (lefts cs) = length (wire_lines d)"
proof -
  let ?cs = "classify_lines fmt a b [] (wire_lines d)"
  have "list_all2 accounts_for (wire_lines d) ?cs" by (rule classify_lines_accounts)
  moreover from this have "length ?cs = length (wire_lines d)" by (simp add: list_all2_lengthD)
  ultimately show ?thesis
    using length_lefts_rights [of ?cs]
    by (intro exI [of _ ?cs]) (simp add: parse_lossless_overview_rows_def Let_def)
qed

text \<open>
  The rows it accepts have pairwise different numbers inside the requested range and exactly as
  many fields as the server's overview format announces.
\<close>

theorem overview_rows_valid:
  "list_all (row_ok fmt a b) (rows (parse_lossless_overview_rows d fmt a b))
   \<and> distinct (map row_number (rows (parse_lossless_overview_rows d fmt a b)))"
  using classify_lines_rows [of fmt a b "[]" "wire_lines d"]
  by (simp add: parse_lossless_overview_rows_def Let_def)

section \<open>Valid lines are accepted\<close>

definition row_wire :: "lossless_overview_row \<Rightarrow> bytes" where
  "row_wire r = join [HT] (show_nat (row_number r) # row_fields r)"

definition clean :: "bytes \<Rightarrow> bool" where
  "clean f \<longleftrightarrow> HT \<notin> set f \<and> LF \<notin> set f"

definition row_clean :: "lossless_overview_row \<Rightarrow> bool" where
  "row_clean r \<longleftrightarrow> row_number r < 2 ^ 64 \<and> list_all clean (row_fields r)"

lemma parse_ascii_show_nat [simp]: "n < 2 ^ 64 \<Longrightarrow> parse_ascii_u64 (show_nat n) = Some n"
  using show_nat_digits [of n] by (simp add: parse_ascii_u64_def parse_u64_show_nat)

lemma split_row_wire:
  "row_clean r \<Longrightarrow> split_on HT (row_wire r) = show_nat (row_number r) # row_fields r"
  unfolding row_wire_def
  by (rule split_on_join) (auto simp: row_clean_def clean_def list_all_iff dest: show_nat_chars)

lemma row_wire_one_line: "row_clean r \<Longrightarrow> LF \<notin> set (row_wire r)"
  using set_join [of "[HT]" "show_nat (row_number r) # row_fields r"]
  unfolding row_wire_def by (fastforce simp: row_clean_def clean_def list_all_iff dest: show_nat_chars)

lemma row_wire_nonempty: "row_clean r \<Longrightarrow> row_wire r \<noteq> []"
  by (cases "row_fields r") (simp_all add: row_wire_def)

lemma wire_lines_rows:
  assumes "list_all row_clean rs"
  shows "wire_lines (crlf_lines (map row_wire rs)) = map row_wire rs"
proof -
  have "filter (\<lambda>l. l \<noteq> []) (map row_wire rs) = map row_wire rs"
    using assms row_wire_nonempty by (auto simp: list_all_iff intro!: filter_True)
  moreover have "split_on LF (crlf_lines (map row_wire rs)) = map (\<lambda>l. l @ [CR]) (map row_wire rs) @ [[]]"
    using assms by (intro split_on_crlf_lines) (auto simp: list_all_iff row_wire_one_line)
  ultimately show ?thesis
    unfolding wire_lines_def by (simp add: comp_def strip_cr_def)
qed

lemma classify_row_wire:
  assumes "row_clean r" and "row_ok fmt a b r" and "row_number r \<notin> set seen"
  shows "classify_line fmt a b seen (row_wire r) = Inr r"
  using assms by (simp add: classify_line_def split_row_wire row_ok_def) (simp add: row_clean_def)

lemma classify_rows_wire:
  "list_all row_clean rs \<Longrightarrow> list_all (row_ok fmt a b) rs \<Longrightarrow> distinct (map row_number rs) \<Longrightarrow>
     set (map row_number rs) \<inter> set seen = {} \<Longrightarrow>
     classify_lines fmt a b seen (map row_wire rs) = map Inr rs"
proof (induction rs arbitrary: seen)
  case (Cons r rs)
  then show ?case using Cons.IH [of "row_number r # seen"] by (auto simp: classify_row_wire)
qed simp

lemma rights_map_Inr [simp]: "rights (map Inr rs) = rs" "lefts (map Inr rs) = []"
  by (induction rs) simp_all

text \<open>
  Rows with distinct in-range numbers and the announced number of fields, written one per line,
  are read back exactly and without a defect.
\<close>

theorem overview_round_trip:
  assumes "list_all row_clean rs" and "list_all (row_ok fmt a b) rs" and "distinct (map row_number rs)"
  shows "parse_lossless_overview_rows (crlf_lines (map row_wire rs)) fmt a b
           = \<lparr>rows = rs, defective_rows = []\<rparr>"
  using classify_rows_wire [OF assms, of "[]"]
  by (simp add: parse_lossless_overview_rows_def Let_def wire_lines_rows [OF assms(1)])

lemma overview_round_trip_witness:
  "parse_lossless_overview_rows
     (crlf_lines (map row_wire [\<lparr>row_number = 5, row_fields = [''s'']\<rparr>, \<lparr>row_number = 3, row_fields = [[]]\<rparr>]))
     \<lparr>fmt_fields = [''Subject:'']\<rparr> 1 9
   = \<lparr>rows = [\<lparr>row_number = 5, row_fields = [''s'']\<rparr>, \<lparr>row_number = 3, row_fields = [[]]\<rparr>],
      defective_rows = []\<rparr>"
  by (rule overview_round_trip) (simp_all add: row_clean_def row_ok_def clean_def)

section \<open>The overview format\<close>

lemma check_descriptors_ok:
  "check_descriptors i fs = None \<Longrightarrow> k < length fs \<Longrightarrow>
     fs ! k \<noteq> [] \<and> length (fs ! k) \<le> MAX_FIELD_DESCRIPTOR_BYTES \<and> list_all is_ascii (fs ! k)
     \<and> (i + k < length REQUIRED_HEADER_FIELDS \<longrightarrow>
          eq_ignore_ascii_case (fs ! k) (REQUIRED_HEADER_FIELDS ! (i + k)))"
proof (induction i fs arbitrary: k rule: check_descriptors.induct)
  case (2 i f fs)
  then show ?case by (cases k) (auto split: if_splits)
qed simp

text \<open>
An accepted overview format has 7 to 64 fields, each a non-empty ASCII string of at most 256
  bytes, and starts with the five required headers in order, up to the case of letters.
\<close>

theorem overview_format_valid:
  assumes "parse_overview_format d = Inr fmt"
  shows "7 \<le> length (fmt_fields fmt) \<and> length (fmt_fields fmt) \<le> 64
     \<and> (\<forall>k < length (fmt_fields fmt). fmt_fields fmt ! k \<noteq> [] \<and> length (fmt_fields fmt ! k) \<le> 256
           \<and> list_all is_ascii (fmt_fields fmt ! k))
     \<and> (\<forall>k < 5. eq_ignore_ascii_case (fmt_fields fmt ! k) (REQUIRED_HEADER_FIELDS ! k))"
proof -
  from assms have fs: "check_descriptors 0 (fmt_fields fmt) = None"
    "7 \<le> length (fmt_fields fmt)" "length (fmt_fields fmt) \<le> 64"
    by (auto simp: parse_overview_format_def Let_def REQUIRED_HEADER_FIELDS_def MAX_OVERVIEW_FIELDS_def
        split: if_splits option.splits)
  then show ?thesis
    using check_descriptors_ok [OF fs(1)]
    by (auto simp: MAX_FIELD_DESCRIPTOR_BYTES_def REQUIRED_HEADER_FIELDS_def)
qed

definition sample_overview :: bytes where
  "sample_overview = crlf_lines [''subject:'', ''From:'', ''Date:'', ''Message-ID:'', ''References:'',
     '':bytes'', '':lines'', ''Xref:full'']"

lemma overview_format_valid_witness:
  "\<exists>fmt. parse_overview_format sample_overview = Inr fmt \<and> 7 \<le> length (fmt_fields fmt)"
proof -
  have "\<not> isl (parse_overview_format sample_overview)" by code_simp
  then obtain fmt where "parse_overview_format sample_overview = Inr fmt"
    by (cases "parse_overview_format sample_overview") auto
  with overview_format_valid [OF this] show ?thesis by blast
qed

end
