(* ===== verification/Transport.thy ===== *)
theory Transport
  imports Nntp_Error
begin

text \<open>
  The socket as the connection sees it.  What the peer sends is a script \<open>rx\<close> of bytes, pauses
  and I/O errors, and the end of the script is the end of the stream; the outcome of each write is
  a script \<open>wr\<close>; \<open>tx\<close> collects the bytes written.  Every peer behaviour is such a script, so a
  theorem for all scripts holds for all peers.  The sockets, TLS streams and \<open>timeout\<close> are those
  of \<open>tokio\<close>: \<open>read_until\<close> and the write steps state their documented behaviour.

  Time is counted in milliseconds.  A read under a time limit fails when the pauses inside it add
  up to the limit; bytes it had consumed before are lost, as with a dropped \<open>read_until\<close> future
  whose buffer is cleared by the next call.
\<close>

datatype rx_item = RxByte byte | RxWait nat | RxErr io_error
datatype wr_item = WrOk | WrErr io_error | WrStall

record transport =
  rx :: "rx_item list"
  wr :: "wr_item list"
  tx :: bytes
  tls :: bool

datatype read_outcome = ReadOk bytes | ReadTimeout | ReadErr io_error

text \<open>
  \<open>read_until(b'\n')\<close> under a limit: the outcome, the rest of the script and the time spent.
  At the end of the stream it returns the bytes read so far, possibly none.
\<close>

fun read_until :: "nat \<Rightarrow> nat \<Rightarrow> rx_item list \<Rightarrow> read_outcome \<times> rx_item list \<times> nat" where
  "read_until limit w [] = (ReadOk [], [], w)"
| "read_until limit w (RxByte b # r) =
     (if b = LF then (ReadOk [b], r, w)
      else case read_until limit w r of
        (ReadOk l, r', w') \<Rightarrow> (ReadOk (b # l), r', w')
      | (ReadTimeout, r', w') \<Rightarrow> (ReadTimeout, r', w')
      | (ReadErr e, r', w') \<Rightarrow> (ReadErr e, r', w'))"
| "read_until limit w (RxWait d # r) =
     (if limit \<le> w + d then (ReadTimeout, RxWait (w + d - limit) # r, limit)
      else read_until limit (w + d) r)"
| "read_until limit w (RxErr e # r) = (ReadErr e, r, w)"

definition next_write :: "transport \<Rightarrow> wr_item \<times> transport" where
  "next_write t = (case wr t of [] \<Rightarrow> (WrOk, t) | w # ws \<Rightarrow> (w, t\<lparr>wr := ws\<rparr>))"

text \<open>\<open>with_write_timeout\<close>: a stalled write becomes a \<open>TimedOut\<close> error.\<close>

definition with_write_timeout :: "nat \<Rightarrow> wr_item \<Rightarrow> io_error + unit" where
  "with_write_timeout limit w =
     (case w of
        WrOk \<Rightarrow> Inr ()
      | WrErr e \<Rightarrow> Inl e
      | WrStall \<Rightarrow>
          Inl (IoError TimedOut (''write timed out after '' @ show_nat (limit div 1000) @ ''s'')))"

text \<open>
  One raw write: the bytes reach the peer when it succeeds.  Of a write that fails or stalls nothing is
  added to \<open>tx\<close>, and the clock of the model does not advance during writes.
\<close>

definition raw_write :: "nat \<Rightarrow> bytes \<Rightarrow> transport \<Rightarrow> (io_error + unit) \<times> transport" where
  "raw_write limit d t =
     (let (w, t') = next_write t
      in (with_write_timeout limit w,
          if w = WrOk then t'\<lparr>tx := tx t' @ d\<rparr> else t'))"

text \<open>
  \<open>Transport::write_all\<close>: write and flush, which the source puts under one limit.  Since a step that
  succeeds takes no time here, whichever of the two stalls uses up the whole limit.
\<close>

definition transport_write_all :: "nat \<Rightarrow> bytes \<Rightarrow> transport \<Rightarrow> (io_error + unit) \<times> transport" where
  "transport_write_all limit d t =
     rbind (raw_write limit d t) (\<lambda>_ t. raw_write limit [] t)"

section \<open>Lemmas\<close>

lemma read_until_le: "length (fst (snd (read_until limit w r))) \<le> length r"
  by (induction limit w r rule: read_until.induct)
     (auto split: prod.splits read_outcome.splits)

lemma read_until_shorter:
  "read_until limit w r = (ReadOk l, r', w') \<Longrightarrow> l \<noteq> [] \<Longrightarrow> length r' < length r"
proof (induction limit w r arbitrary: l r' w' rule: read_until.induct)
  case (2 limit w b r)
  have "length r' \<le> length r"
    using 2(2) read_until_le [of limit w r]
    by (auto split: if_splits prod.splits read_outcome.splits)
  then show ?case by simp
qed (auto split: if_splits)

text \<open>
  A whole line, and a script that delivers it: its bytes with pauses in between that stay below
  the limit, and no error.
\<close>

definition is_line :: "bytes \<Rightarrow> bool" where
  "is_line l \<longleftrightarrow> l \<noteq> [] \<and> last l = LF \<and> LF \<notin> set (butlast l)"

fun item_bytes :: "rx_item list \<Rightarrow> bytes" where
  "item_bytes [] = []"
| "item_bytes (RxByte b # r) = b # item_bytes r"
| "item_bytes (RxWait d # r) = item_bytes r"
| "item_bytes (RxErr e # r) = item_bytes r"

fun pause_of :: "rx_item list \<Rightarrow> nat" where
  "pause_of [] = 0"
| "pause_of (RxByte b # r) = pause_of r"
| "pause_of (RxWait d # r) = d + pause_of r"
| "pause_of (RxErr e # r) = pause_of r"

fun error_free :: "rx_item list \<Rightarrow> bool" where
  "error_free [] \<longleftrightarrow> True"
| "error_free (RxErr e # r) \<longleftrightarrow> False"
| "error_free (i # r) \<longleftrightarrow> error_free r"

definition delivers :: "nat \<Rightarrow> rx_item list \<Rightarrow> bytes \<Rightarrow> bool" where
  "delivers limit s l \<longleftrightarrow>
     is_line l \<and> s \<noteq> [] \<and> last s = RxByte LF \<and> item_bytes s = l \<and> error_free s
     \<and> pause_of s < limit"

lemma is_line_snoc: "is_line l \<longleftrightarrow> (\<exists>p. l = p @ [LF] \<and> LF \<notin> set p)"
  unfolding is_line_def by (metis append_butlast_last_id butlast_snoc last_snoc snoc_eq_iff_butlast)

lemma item_bytes_append [simp]: "item_bytes (r @ s) = item_bytes r @ item_bytes s"
  by (induction r rule: item_bytes.induct) auto

lemma pause_of_append [simp]: "pause_of (r @ s) = pause_of r + pause_of s"
  by (induction r rule: pause_of.induct) auto

lemma error_free_append [simp]: "error_free (r @ s) \<longleftrightarrow> error_free r \<and> error_free s"
  by (induction r rule: error_free.induct) auto

lemma item_bytes_map [simp]: "item_bytes (map RxByte l) = l"
  by (induction l) auto

lemma pause_of_map [simp]: "pause_of (map RxByte l) = 0"
  by (induction l) auto

lemma error_free_map [simp]: "error_free (map RxByte l)"
  by (induction l) auto

lemma delivers_map [simp]: "delivers limit (map RxByte l) l \<longleftrightarrow> is_line l \<and> 0 < limit"
  by (auto simp: delivers_def is_line_def last_map)

lemma read_until_pauses:
  "LF \<notin> set (item_bytes s) \<Longrightarrow> error_free s \<Longrightarrow> w + pause_of s < limit \<Longrightarrow>
     read_until limit w (s @ RxByte LF # r) = (ReadOk (item_bytes s @ [LF]), r, w + pause_of s)"
  by (induction s arbitrary: w rule: item_bytes.induct) auto

lemma read_until_delivers:
  assumes "delivers limit s l"
  shows "read_until limit 0 (s @ r) = (ReadOk l, r, pause_of s)"
proof -
  from assms obtain s' where s: "s = s' @ [RxByte LF]"
    unfolding delivers_def by (metis append_butlast_last_id)
  with assms show ?thesis
    using read_until_pauses [of s' 0 limit r] by (auto simp: delivers_def is_line_snoc)
qed

text \<open>Conversely, what \<open>read_until\<close> returns are the bytes it consumed, up to a line feed or the end.\<close>

lemma read_until_sound:
  "read_until limit w r = (ReadOk l, r', w') \<Longrightarrow>
     \<exists>s. r = s @ r' \<and> item_bytes s = l \<and> error_free s \<and> w' = w + pause_of s
         \<and> (is_line l \<and> last s = RxByte LF \<or> LF \<notin> set l \<and> r' = [])"
proof (induction limit w r arbitrary: l r' w' rule: read_until.induct)
  case (2 limit w b r)
  show ?case
  proof (cases "b = LF")
    case True
    with 2 show ?thesis by (intro exI [of _ "[RxByte b]"]) (auto simp: is_line_def)
  next
    case False
    with 2 obtain m where m: "read_until limit w r = (ReadOk m, r', w')" "l = b # m"
      by (auto split: prod.splits read_outcome.splits)
    from 2(1) [OF False m(1)] obtain s where
      "r = s @ r'" "item_bytes s = m" "error_free s" "w' = w + pause_of s"
      "is_line m \<and> last s = RxByte LF \<or> LF \<notin> set m \<and> r' = []" by blast
    with False m(2) show ?thesis
      by (intro exI [of _ "RxByte b # s"]) (auto simp: is_line_def)
  qed
next
  case (3 limit w d r)
  then have "read_until limit (w + d) r = (ReadOk l, r', w')" "\<not> limit \<le> w + d"
    by (auto split: if_splits)
  from 3(1) [OF this(2) this(1)] obtain s where
    "r = s @ r'" "item_bytes s = l" "error_free s" "w' = w + d + pause_of s"
    "is_line l \<and> last s = RxByte LF \<or> LF \<notin> set l \<and> r' = []" by blast
  then show ?case
    by (intro exI [of _ "RxWait d # s"]) (auto simp: is_line_def)
qed auto

lemma raw_write_ok [simp]: "wr t = [] \<Longrightarrow> raw_write limit d t = (Inr (), t\<lparr>tx := tx t @ d\<rparr>)"
  by (simp add: raw_write_def next_write_def with_write_timeout_def)

lemma transport_write_all_ok [simp]:
  "wr t = [] \<Longrightarrow> transport_write_all limit d t = (Inr (), t\<lparr>tx := tx t @ d\<rparr>)"
  by (simp add: transport_write_all_def)

lemma raw_write_rx [simp]: "rx (snd (raw_write limit d t)) = rx t"
  by (auto simp: raw_write_def next_write_def split: prod.split list.split)

lemma transport_write_all_rx [simp]: "rx (snd (transport_write_all limit d t)) = rx t"
proof -
  obtain r t' where rw: "raw_write limit d t = (r, t')" by force
  then have "rx t' = rx t" using raw_write_rx [of limit d t] by simp
  then show ?thesis by (cases r) (simp_all add: transport_write_all_def rw)
qed

end
