(* ===== verification/Capabilities.thy ===== *)
theory Capabilities
  imports Rust_Str
begin

text \<open>
  \<open>src/capabilities.rs\<close>: the feature flags derived from a server's \<open>CAPABILITIES\<close> response.
  The parser folds over the lines of the response; \<open>derive_flags\<close> is its final part, which sets
  the four per-command flags.
\<close>

record nntp_capabilities =
  version :: "bytes option"
  implementation :: "bytes option"
  reader :: bool
  post :: bool
  ihave :: bool
  newnews :: bool
  hdr :: bool
  over :: bool
  over_msgid :: bool
  list_keywords :: "bytes list"
  mode_reader_required :: bool
  caps_compress :: bool
  other_caps :: "bytes list"
  have_body :: bool
  have_stat :: bool
  have_article :: bool
  have_head :: bool
  probed :: bool

text \<open>The derived \<open>Default\<close>.\<close>

definition caps_default :: nntp_capabilities where
  "caps_default =
     \<lparr>version = None, implementation = None, reader = False, post = False, ihave = False,
      newnews = False, hdr = False, over = False, over_msgid = False, list_keywords = [],
      mode_reader_required = False, caps_compress = False, other_caps = [], have_body = False,
      have_stat = False, have_article = False, have_head = False, probed = False\<rparr>"

definition default_assumed :: nntp_capabilities where
  "default_assumed = caps_default
     \<lparr>have_article := True, have_body := True, have_head := True, have_stat := True,
      reader := True, probed := False\<rparr>"

definition set_content_flags :: "bool \<Rightarrow> nntp_capabilities \<Rightarrow> nntp_capabilities" where
  "set_content_flags b caps =
     caps\<lparr>have_article := b, have_body := b, have_head := b, have_stat := b\<rparr>"

text \<open>One line of the response: its first word selects the field it sets.\<close>

definition caps_line :: "nntp_capabilities \<Rightarrow> bytes \<Rightarrow> nntp_capabilities" where
  "caps_line caps raw_line =
     (let line = trim raw_line
      in if line = [] then caps
         else case split_whitespace line of
           [] \<Rightarrow> caps
         | label # args \<Rightarrow>
             (let l = to_ascii_uppercase label
              in if l = ''VERSION'' then
                   caps\<lparr>version := (case args of [] \<Rightarrow> None | a # _ \<Rightarrow> Some a)\<rparr>
                 else if l = ''IMPLEMENTATION'' then
                   caps\<lparr>implementation := Some (join '' '' args)\<rparr>
                 else if l = ''READER'' then caps\<lparr>reader := True\<rparr>
                 else if l = ''POST'' then caps\<lparr>post := True\<rparr>
                 else if l = ''IHAVE'' then caps\<lparr>ihave := True\<rparr>
                 else if l = ''NEWNEWS'' then caps\<lparr>newnews := True\<rparr>
                 else if l = ''HDR'' then caps\<lparr>hdr := True\<rparr>
                 else if l = ''OVER'' then
                   caps\<lparr>over := True,
                        over_msgid := list_ex (\<lambda>a. eq_ignore_ascii_case a ''MSGID'') args\<rparr>
                 else if l = ''LIST'' then caps\<lparr>list_keywords := map to_ascii_uppercase args\<rparr>
                 else if l = ''MODE-READER'' then caps\<lparr>mode_reader_required := True\<rparr>
                 else if l = ''COMPRESS'' \<or> l = ''XFEATURE-COMPRESS'' then
                   caps\<lparr>caps_compress := True\<rparr>
                 else caps\<lparr>other_caps := other_caps caps @ [line]\<rparr>))"

definition derive_flags :: "nntp_capabilities \<Rightarrow> nntp_capabilities" where
  "derive_flags caps =
     (let reader_active = reader caps \<or> mode_reader_required caps;
          caps = set_content_flags reader_active caps
      in if \<not> reader_active \<and> (over caps \<or> hdr caps \<or> post caps \<or> ihave caps)
         then set_content_flags True caps else caps)"

definition caps_parse :: "bytes \<Rightarrow> nntp_capabilities" where
  "caps_parse body =
     (let txt = (if utf8_valid body then body else [])
      in derive_flags (foldl caps_line (caps_default\<lparr>probed := True\<rparr>) (str_lines txt)))"

section \<open>Lemmas\<close>

text \<open>The four content flags agree, and what makes them true.\<close>

definition content_flags :: "nntp_capabilities \<Rightarrow> bool \<times> bool \<times> bool \<times> bool" where
  "content_flags caps = (have_article caps, have_body caps, have_head caps, have_stat caps)"

definition reader_like :: "nntp_capabilities \<Rightarrow> bool" where
  "reader_like caps \<longleftrightarrow>
     reader caps \<or> mode_reader_required caps \<or> over caps \<or> hdr caps \<or> post caps \<or> ihave caps"

lemma derive_flags_content:
  "content_flags (derive_flags caps) = (let b = reader_like caps in (b, b, b, b))"
  by (simp add: content_flags_def derive_flags_def set_content_flags_def reader_like_def Let_def)

lemma derive_flags_frame [simp]:
  "reader (derive_flags caps) = reader caps" "probed (derive_flags caps) = probed caps"
  "over (derive_flags caps) = over caps" "hdr (derive_flags caps) = hdr caps"
  "post (derive_flags caps) = post caps" "ihave (derive_flags caps) = ihave caps"
  "mode_reader_required (derive_flags caps) = mode_reader_required caps"
  by (simp_all add: derive_flags_def set_content_flags_def Let_def)

lemma reader_like_derive [simp]: "reader_like (derive_flags caps) = reader_like caps"
  by (simp add: reader_like_def)

lemma caps_line_probed [simp]: "probed (caps_line caps l) = probed caps"
  by (simp add: caps_line_def Let_def split: list.split)

lemma foldl_caps_line_probed [simp]: "probed (foldl caps_line caps ls) = probed caps"
  by (induction ls arbitrary: caps) simp_all

lemma caps_parse_probed: "probed (caps_parse body)"
  by (simp add: caps_parse_def Let_def)

lemma caps_parse_content: "content_flags (caps_parse body) = (let b = reader_like (caps_parse body) in (b, b, b, b))"
  by (simp add: caps_parse_def Let_def derive_flags_content)

text \<open>A line only ever adds a capability.\<close>

lemma caps_line_mono: "reader_like caps \<Longrightarrow> reader_like (caps_line caps l)"
  by (simp add: caps_line_def Let_def reader_like_def split: list.split)

lemma foldl_caps_line_mono: "reader_like caps \<Longrightarrow> reader_like (foldl caps_line caps ls)"
  by (induction ls arbitrary: caps) (simp_all add: caps_line_mono)

end
