(* ===== verification/Conn.thy ===== *)
theory Conn
  imports Transport Wire Capabilities
begin

text \<open>
  \<open>NntpConnection\<close> of \<open>src/connection.rs\<close>: its state, the pool of body buffers, the raw
  send/receive operations and the readers of multi-line bodies.

  \<open>line_scratch\<close> is not a field: it is cleared before every use and never observable.  \<open>now\<close> is
  the clock the heartbeat reads, advanced by the time reads spend waiting.
\<close>

section \<open>State\<close>

datatype connection_state = Disconnected | Connecting | Authenticating | Ready | Busy | Error

fun debug_state :: "connection_state \<Rightarrow> bytes" where
  "debug_state Disconnected = ''Disconnected''"
| "debug_state Connecting = ''Connecting''"
| "debug_state Authenticating = ''Authenticating''"
| "debug_state Ready = ''Ready''"
| "debug_state Busy = ''Busy''"
| "debug_state Error = ''Error''"

record io_heartbeat =
  timestamp_ms :: nat
  epoch :: nat

text \<open>A \<open>Vec<u8>\<close> of the free list: its contents and its capacity.\<close>

record body_buffer =
  buf_bytes :: bytes
  buf_capacity :: nat

record nntp_connection =
  server_id :: bytes
  state :: connection_state
  transport :: "transport option"
  compress_enabled :: bool
  io_heartbeat :: "io_heartbeat option"
  capabilities :: nntp_capabilities
  body_pool :: "body_buffer list"
  write_timeout :: nat
  now :: nat

definition READ_LINE_TIMEOUT :: nat where "READ_LINE_TIMEOUT = 60 * 1000"
definition READ_BODY_LINE_TIMEOUT :: nat where "READ_BODY_LINE_TIMEOUT = 20 * 1000"
definition WRITE_TIMEOUT :: nat where "WRITE_TIMEOUT = READ_LINE_TIMEOUT"
definition BODY_BUFFER_CAPACITY :: nat where "BODY_BUFFER_CAPACITY = 896 * 1024"
definition BODY_BUFFER_MAX_RETAINED_CAPACITY :: nat where
  "BODY_BUFFER_MAX_RETAINED_CAPACITY = 4 * 1024 * 1024"
definition BODY_POOL_MAX_IDLE :: nat where "BODY_POOL_MAX_IDLE = 8"

definition tick :: "nat \<Rightarrow> io_heartbeat option \<Rightarrow> io_heartbeat option" where
  "tick t hb = map_option (\<lambda>h. h\<lparr>timestamp_ms := t - epoch h\<rparr>) hb"

definition new_connection :: "bytes \<Rightarrow> nntp_connection" where
  "new_connection sid =
     \<lparr>server_id = sid, state = Disconnected, transport = None, compress_enabled = False,
      io_heartbeat = None, capabilities = default_assumed, body_pool = [],
      write_timeout = WRITE_TIMEOUT, now = 0\<rparr>"

definition is_compress_enabled :: "nntp_connection \<Rightarrow> bool" where
  "is_compress_enabled c = compress_enabled c"

definition disable_compression :: "nntp_connection \<Rightarrow> nntp_connection" where
  "disable_compression c = c\<lparr>compress_enabled := False\<rparr>"

definition set_io_heartbeat :: "nat \<Rightarrow> nat \<Rightarrow> nntp_connection \<Rightarrow> nntp_connection" where
  "set_io_heartbeat ts ep c = c\<lparr>io_heartbeat := Some \<lparr>timestamp_ms = ts, epoch = ep\<rparr>\<rparr>"

definition tick_io_heartbeat :: "nntp_connection \<Rightarrow> nntp_connection" where
  "tick_io_heartbeat c = c\<lparr>io_heartbeat := tick (now c) (io_heartbeat c)\<rparr>"

definition is_connected :: "nntp_connection \<Rightarrow> bool" where
  "is_connected c \<longleftrightarrow> transport c \<noteq> None \<and> state c \<noteq> Disconnected"

section \<open>Body buffers\<close>

definition checkout_body_buffer :: "nntp_connection \<Rightarrow> body_buffer \<times> nntp_connection" where
  "checkout_body_buffer c =
     (case body_pool c of
        [] \<Rightarrow> (\<lparr>buf_bytes = [], buf_capacity = BODY_BUFFER_CAPACITY\<rparr>, c)
      | bs \<Rightarrow> (last bs, c\<lparr>body_pool := butlast bs\<rparr>))"

definition release_body_buffer :: "body_buffer \<Rightarrow> nntp_connection \<Rightarrow> nntp_connection" where
  "release_body_buffer buf c =
     (let buf = buf\<lparr>buf_bytes := []\<rparr>
      in if buf_capacity buf \<le> BODY_BUFFER_MAX_RETAINED_CAPACITY
            \<and> length (body_pool c) < BODY_POOL_MAX_IDLE
         then c\<lparr>body_pool := body_pool c @ [buf]\<rparr> else c)"

section \<open>Raw sends and receives\<close>

definition not_connected :: nntp_error where
  "not_connected = Connection ''Not connected''"

definition conn_write ::
  "(nat \<Rightarrow> transport \<Rightarrow> (io_error + unit) \<times> transport) \<Rightarrow> nntp_connection
     \<Rightarrow> unit nntp_result \<times> nntp_connection" where
  "conn_write w c =
     (case transport c of
        None \<Rightarrow> (Inl not_connected, c)
      | Some t \<Rightarrow>
          (let (r, t') = w (write_timeout c) t
           in (map_sum Io id r, c\<lparr>transport := Some t'\<rparr>)))"

definition send_command_no_flush ::
  "bytes \<Rightarrow> nntp_connection \<Rightarrow> unit nntp_result \<times> nntp_connection" where
  "send_command_no_flush cmd c = conn_write (\<lambda>limit. raw_write limit (cmd @ crlf)) c"

definition flush :: "nntp_connection \<Rightarrow> unit nntp_result \<times> nntp_connection" where
  "flush c = conn_write (\<lambda>limit. raw_write limit []) c"

definition send_command ::
  "bytes \<Rightarrow> nntp_connection \<Rightarrow> unit nntp_result \<times> nntp_connection" where
  "send_command cmd c = rbind (send_command_no_flush cmd c) (\<lambda>_ c. flush c)"

text \<open>\<open>read_line\<close> into a \<open>String\<close> rejects a line that is not UTF-8.\<close>

definition read_response_line ::
  "nntp_connection \<Rightarrow> nntp_response nntp_result \<times> nntp_connection" where
  "read_response_line c =
     (case transport c of
        None \<Rightarrow> (Inl not_connected, c)
      | Some t \<Rightarrow>
          (let (out, r', w) = read_until READ_LINE_TIMEOUT 0 (rx t);
               c = c\<lparr>transport := Some (t\<lparr>rx := r'\<rparr>), now := now c + w\<rparr>
           in case out of
                ReadTimeout \<Rightarrow>
                  (Inl (Io (IoError TimedOut
                     (''read_response_line timed out after ''
                      @ show_nat (READ_LINE_TIMEOUT div 1000) @ ''s''))), c)
              | ReadErr e \<Rightarrow> (Inl (Io e), c)
              | ReadOk line \<Rightarrow>
                  if \<not> utf8_valid line then
                    (Inl (Io (IoError InvalidData ''stream did not contain valid UTF-8'')), c)
                  else if line = [] then (Inl (Connection ''Server closed connection''), c)
                  else (parse_response_line line, tick_io_heartbeat c)))"

section \<open>Multi-line bodies\<close>

definition is_terminator :: "bytes \<Rightarrow> bool" where
  "is_terminator l \<longleftrightarrow> l = [DOT, CR, LF] \<or> l = [DOT, LF]"

definition unstuff :: "bytes \<Rightarrow> bytes" where
  "unstuff l = (if starts_with [DOT, DOT] l then tl l else l)"

definition exceeds :: "nat option \<Rightarrow> nat \<Rightarrow> bool" where
  "exceeds mx n \<longleftrightarrow> (case mx of None \<Rightarrow> False | Some m \<Rightarrow> m < n)"

text \<open>
  The loop of \<open>read_multiline_body_into_bounded\<close> over the receive script, with the clock and the
  heartbeat.  It ends because every iteration that continues has consumed at least one byte.
\<close>

function body_loop ::
  "nat option \<Rightarrow> bytes \<Rightarrow> rx_item list \<Rightarrow> nat \<Rightarrow> io_heartbeat option
     \<Rightarrow> bytes nntp_result \<times> rx_item list \<times> nat \<times> io_heartbeat option" where
  "body_loop mx out r t hb =
     (case read_until READ_BODY_LINE_TIMEOUT 0 r of
        (ReadTimeout, r', w) \<Rightarrow>
          (Inl (Io (IoError TimedOut
             (''read_multiline_body timed out after '' @ show_nat (READ_BODY_LINE_TIMEOUT div 1000)
              @ ''s (received '' @ show_nat (length out) @ '' bytes so far)''))), r', t + w, hb)
      | (ReadErr e, r', w) \<Rightarrow> (Inl (Io e), r', t + w, hb)
      | (ReadOk line, r', w) \<Rightarrow>
          if line = [] then
            (Inl (Connection ''Server closed connection during multi-line read''), r', t + w, hb)
          else if is_terminator line then (Inr out, r', t + w, tick (t + w) hb)
          else if exceeds mx (length out + length (unstuff line)) then
            (Inl (ResponseTooLarge ''multi-line response exceeds its byte bound''), r', t + w,
             tick (t + w) hb)
          else body_loop mx (out @ unstuff line) r' (t + w) (tick (t + w) hb))"
  by pat_completeness auto
termination
  by (relation "measure (\<lambda>(mx, out, r, t, hb). length r)") (auto dest: read_until_shorter [OF sym])

declare body_loop.simps [simp del]

definition read_multiline_body_into_bounded ::
  "nat option \<Rightarrow> nntp_connection \<Rightarrow> bytes nntp_result \<times> nntp_connection" where
  "read_multiline_body_into_bounded mx c =
     (case transport c of
        None \<Rightarrow> (Inl not_connected, c)
      | Some t \<Rightarrow>
          (let (res, r', t', hb') = body_loop mx [] (rx t) (now c) (io_heartbeat c)
           in (res, c\<lparr>transport := Some (t\<lparr>rx := r'\<rparr>), now := t', io_heartbeat := hb'\<rparr>)))"

text \<open>The checked-out buffer is cleared before it is filled, so only its absence shows.\<close>

definition read_multiline_body :: "nntp_connection \<Rightarrow> bytes nntp_result \<times> nntp_connection" where
  "read_multiline_body c =
     (let (_, c) = checkout_body_buffer c in read_multiline_body_into_bounded None c)"

definition read_multiline_body_bounded ::
  "nat \<Rightarrow> nntp_connection \<Rightarrow> bytes nntp_result \<times> nntp_connection" where
  "read_multiline_body_bounded mx c = read_multiline_body_into_bounded (Some mx) c"

definition PREFIX_LINE_MAX :: nat where "PREFIX_LINE_MAX = 16 * 1024"

function prefix_loop ::
  "nat \<Rightarrow> bytes \<Rightarrow> rx_item list \<Rightarrow> nat \<Rightarrow> io_heartbeat option
     \<Rightarrow> body_prefix_response nntp_result \<times> rx_item list \<times> nat \<times> io_heartbeat option" where
  "prefix_loop mx out r t hb =
     (case read_until READ_BODY_LINE_TIMEOUT 0 r of
        (ReadTimeout, r', w) \<Rightarrow> (Inl (Timeout ''BODY prefix line timed out''), r', t + w, hb)
      | (ReadErr e, r', w) \<Rightarrow> (Inl (Io e), r', t + w, hb)
      | (ReadOk line, r', w) \<Rightarrow>
          if line = [] then
            (Inl (Connection ''Server closed connection during BODY prefix''), r', t + w, hb)
          else if is_terminator line then
            (Inr \<lparr>prefix_data = out, complete = True\<rparr>, r', t + w, tick (t + w) hb)
          else if PREFIX_LINE_MAX < length line then
            (Inl (ResponseTooLarge ''BODY prefix line exceeds its byte bound''), r', t + w,
             tick (t + w) hb)
          else let l = unstuff line;
                   remaining = mx - length out;
                   out' = out @ take (min (length l) remaining) l
               in if remaining < length l \<or> length out' = mx then
                    (Inr \<lparr>prefix_data = out', complete = False\<rparr>, r', t + w, tick (t + w) hb)
                  else prefix_loop mx out' r' (t + w) (tick (t + w) hb))"
  by pat_completeness auto
termination
  by (relation "measure (\<lambda>(mx, out, r, t, hb). length r)") (auto dest: read_until_shorter [OF sym])

declare prefix_loop.simps [simp del]

definition read_multiline_body_prefix ::
  "nat \<Rightarrow> nntp_connection \<Rightarrow> body_prefix_response nntp_result \<times> nntp_connection" where
  "read_multiline_body_prefix mx c =
     (case transport c of
        None \<Rightarrow> (Inl not_connected, c)
      | Some t \<Rightarrow>
          (let (res, r', t', hb') = prefix_loop mx [] (rx t) (now c) (io_heartbeat c)
           in (res, c\<lparr>transport := Some (t\<lparr>rx := r'\<rparr>), now := t', io_heartbeat := hb'\<rparr>)))"

section \<open>Compressed bodies\<close>

text \<open>
  \<open>gunzip\<close> stands for \<open>flate2\<close>'s \<open>GzDecoder\<close>: the bytes it produces and, if the stream is then
  found broken, the error message.  Reading through \<open>take(max + 1)\<close> never sees an error behind
  the bytes it takes.
\<close>

type_synonym gunzip = "bytes \<Rightarrow> bytes \<times> bytes option"

definition looks_gzipped :: "nntp_connection \<Rightarrow> bytes \<Rightarrow> bool" where
  "looks_gzipped c raw \<longleftrightarrow>
     compress_enabled c \<and> 2 \<le> length raw \<and> raw ! 0 = CHR 0x1F \<and> raw ! 1 = CHR 0x8B"

definition read_multiline_body_maybe_decompress ::
  "gunzip \<Rightarrow> nntp_connection \<Rightarrow> bytes nntp_result \<times> nntp_connection" where
  "read_multiline_body_maybe_decompress gz c =
     rbind (read_multiline_body c) (\<lambda>raw c.
       if looks_gzipped c raw then
         (case gz raw of
            (d, None) \<Rightarrow> (Inr d, c)
          | (_, Some _) \<Rightarrow> (Inr raw, c))
       else (Inr raw, c))"

definition read_multiline_body_maybe_decompress_bounded ::
  "gunzip \<Rightarrow> nat \<Rightarrow> nntp_connection \<Rightarrow> bytes nntp_result \<times> nntp_connection" where
  "read_multiline_body_maybe_decompress_bounded gz mx c =
     rbind (read_multiline_body_bounded mx c) (\<lambda>raw c.
       if looks_gzipped c raw then
         (let (d, err) = gz raw
          in if mx < length d then
               (Inl (ResponseTooLarge
                  ''decompressed multi-line response exceeds its byte bound''), c)
             else case err of
               Some e \<Rightarrow> (Inl (Protocol (''gzip HEAD decode failed: '' @ e)), c)
             | None \<Rightarrow> (Inr d, c))
       else (Inr raw, c))"

end
