(* ===== verification/Commands.thy ===== *)
theory Commands
  imports Conn Overview
begin

text \<open>
  The command methods of \<open>NntpConnection\<close>.  Each is the source's sequence: guards, \<open>Busy\<close>, send,
  read the status line, then one branch per response code.  \<open>mark_error\<close> is the source's
  \<open>.inspect_err(|_| self.state = ConnectionState::Error)\<close>; \<open>finish\<close> sets the state and returns.
  Logging is left out.
\<close>

definition mark_error ::
  "'a nntp_result \<times> nntp_connection \<Rightarrow> 'a nntp_result \<times> nntp_connection" where
  "mark_error p = (case p of (Inl e, c) \<Rightarrow> (Inl e, c\<lparr>state := Error\<rparr>) | (Inr a, c) \<Rightarrow> (Inr a, c))"

definition finish ::
  "connection_state \<Rightarrow> 'a nntp_result \<Rightarrow> nntp_connection \<Rightarrow> 'a nntp_result \<times> nntp_connection" where
  "finish s r c = (r, c\<lparr>state := s\<rparr>)"

text \<open>Send a command and read its status line; any failure puts the connection in \<open>Error\<close>.\<close>

definition exchange ::
  "bytes \<Rightarrow> nntp_connection \<Rightarrow> nntp_response nntp_result \<times> nntp_connection" where
  "exchange cmd c =
     rbind (mark_error (send_command cmd c)) (\<lambda>_ c. mark_error (read_response_line c))"

definition wrong_state :: "bytes \<Rightarrow> nntp_connection \<Rightarrow> nntp_error" where
  "wrong_state what c =
     Protocol (''Cannot '' @ what @ '' in state '' @ debug_state (state c))"

definition rejected :: "bytes \<Rightarrow> nntp_response \<Rightarrow> nntp_error" where
  "rejected what r = Auth (what @ '' rejected ('' @ show_nat (code r) @ ''): '' @ message r)"

definition unexpected :: "bytes \<Rightarrow> nntp_response \<Rightarrow> nntp_error" where
  "unexpected what r =
     Protocol (''Unexpected '' @ what @ '' response '' @ show_nat (code r) @ '': '' @ message r)"

definition no_newsgroup :: nntp_error where
  "no_newsgroup = NoSuchGroup ''No newsgroup selected (send GROUP first)''"

section \<open>ARTICLE, HEAD, BODY\<close>

definition fetch_article ::
  "gunzip \<Rightarrow> bytes \<Rightarrow> nntp_connection \<Rightarrow> nntp_response nntp_result \<times> nntp_connection" where
  "fetch_article gz mid0 c =
     (if state c \<noteq> Ready then (Inl (wrong_state ''fetch article'' c), c)
      else let mid = normalize_message_id mid0
      in rbind (exchange (''ARTICLE '' @ mid) (c\<lparr>state := Busy\<rparr>)) (\<lambda>st c.
        if code st = 220 then
          rbind (mark_error (read_multiline_body_maybe_decompress gz c)) (\<lambda>d c.
            finish Ready (Inr \<lparr>code = code st, message = message st, data = Some d\<rparr>) c)
        else if code st = 430 then finish Ready (Inl (ArticleNotFound mid)) c
        else if code st = 411 then finish Ready (Inl (NoSuchGroup (message st))) c
        else if code st \<in> {412, 420, 423} then finish Ready (Inl (NoArticleSelected (message st))) c
        else if code st = 403 then finish Error (Inl (PermissionDenied (message st))) c
        else if code st = 480 then finish Error (Inl (AuthRequired (message st))) c
        else if code st \<in> {481, 482} then finish Error (Inl (rejected ''ARTICLE'' st)) c
        else if code st = 502 then finish Error (Inl (ServiceUnavailable (message st))) c
        else finish Error (Inl (unexpected_article_response (code st) (message st))) c))"

definition fetch_head_number ::
  "gunzip \<Rightarrow> nat \<Rightarrow> nat \<Rightarrow> nntp_connection
     \<Rightarrow> nntp_response nntp_result \<times> nntp_connection" where
  "fetch_head_number gz article_number max_header_bytes c =
     (if \<not> have_head (capabilities c) then
        (Inl (Protocol ''Server does not support HEAD''), c)
      else if article_number = 0 \<or> max_header_bytes = 0 \<or> 64 * 1024 < max_header_bytes then
        (Inl (Protocol ''HEAD request bound is invalid''), c)
      else if state c \<noteq> Ready then (Inl (wrong_state ''HEAD'' c), c)
      else rbind (exchange (''HEAD '' @ show_nat article_number) (c\<lparr>state := Busy\<rparr>)) (\<lambda>st c.
        if code st = 221 then
          rbind (mark_error (read_multiline_body_maybe_decompress_bounded gz max_header_bytes c))
            (\<lambda>d c. finish Ready (Inr \<lparr>code = code st, message = message st, data = Some d\<rparr>) c)
        else if code st = 423 then finish Ready (Inl (ArticleNotFound (show_nat article_number))) c
        else if code st = 411 then finish Ready (Inl (NoSuchGroup (message st))) c
        else if code st \<in> {412, 420} then finish Ready (Inl (NoArticleSelected (message st))) c
        else if code st = 403 then finish Error (Inl (PermissionDenied (message st))) c
        else if code st = 480 then finish Error (Inl (AuthRequired (message st))) c
        else if code st \<in> {481, 482} then finish Error (Inl (rejected ''HEAD'' st)) c
        else if code st = 502 then finish Error (Inl (ServiceUnavailable (message st))) c
        else finish Error (Inl (unexpected ''HEAD'' st)) c))"

definition fetch_body_command ::
  "gunzip \<Rightarrow> bytes \<Rightarrow> nntp_connection \<Rightarrow> nntp_response nntp_result \<times> nntp_connection" where
  "fetch_body_command gz mid0 c =
     (if state c \<noteq> Ready then (Inl (wrong_state ''BODY'' c), c)
      else let mid = normalize_message_id mid0
      in rbind (exchange (''BODY '' @ mid) (c\<lparr>state := Busy\<rparr>)) (\<lambda>st c.
        if code st = 222 then
          rbind (mark_error (read_multiline_body_maybe_decompress gz c)) (\<lambda>d c.
            finish Ready (Inr \<lparr>code = code st, message = message st, data = Some d\<rparr>) c)
        else if code st = 430 then finish Ready (Inl (ArticleNotFound mid)) c
        else if code st \<in> {412, 420, 423} then finish Ready (Inl (NoArticleSelected (message st))) c
        else if code st = 480 then finish Error (Inl (AuthRequired (message st))) c
        else if code st \<in> {481, 482} then finish Error (Inl (rejected ''BODY'' st)) c
        else if code st = 502 then finish Error (Inl (ServiceUnavailable (message st))) c
        else finish Error (Inl (unexpected ''BODY'' st)) c))"

text \<open>Without \<open>BODY\<close> the article is fetched and its headers are stripped.\<close>

definition fetch_body ::
  "gunzip \<Rightarrow> bytes \<Rightarrow> nntp_connection \<Rightarrow> nntp_response nntp_result \<times> nntp_connection" where
  "fetch_body gz mid c =
     (if \<not> have_body (capabilities c) \<and> have_article (capabilities c) then
        rbind (fetch_article gz mid c) (\<lambda>resp c.
          (Inr (resp\<lparr>data := map_option strip_article_headers (data resp), code := 222\<rparr>), c))
      else fetch_body_command gz mid c)"

definition fetch_body_prefix ::
  "bytes \<Rightarrow> nat \<Rightarrow> nntp_connection \<Rightarrow> body_prefix_response nntp_result \<times> nntp_connection" where
  "fetch_body_prefix mid0 max_bytes c =
     (if max_bytes = 0 \<or> 256 * 1024 < max_bytes then
        (Inl (Protocol ''BODY prefix request bound is invalid''), c)
      else if compress_enabled c then
        (Inl (UnsupportedCommand
           ''BODY prefix requires an uncompressed observation connection''), c)
      else if \<not> have_body (capabilities c) then
        (Inl (UnsupportedCommand ''Server does not support BODY prefix observation''), c)
      else if state c \<noteq> Ready then (Inl (wrong_state ''BODY prefix'' c), c)
      else let mid = normalize_message_id mid0
      in rbind (exchange (''BODY '' @ mid) (c\<lparr>state := Busy\<rparr>)) (\<lambda>st c.
        if code st = 222 then
          rbind (mark_error (read_multiline_body_prefix max_bytes c)) (\<lambda>prefix c.
            if complete prefix then finish Ready (Inr prefix) c
            else (Inr prefix,
                  c\<lparr>transport := None, compress_enabled := False, state := Disconnected\<rparr>))
        else if code st = 430 then finish Ready (Inl (ArticleNotFound mid)) c
        else if code st \<in> {412, 420, 423} then finish Ready (Inl (NoArticleSelected (message st))) c
        else if code st = 403 then finish Error (Inl (PermissionDenied (message st))) c
        else if code st = 480 then finish Error (Inl (AuthRequired (message st))) c
        else if code st \<in> {481, 482} then finish Error (Inl (rejected ''BODY prefix'' st)) c
        else if code st \<in> {500, 501} then finish Ready (Inl (UnsupportedCommand (message st))) c
        else if code st = 502 then finish Error (Inl (ServiceUnavailable (message st))) c
        else finish Error (Inl (unexpected ''BODY prefix'' st)) c))"

section \<open>STAT, DATE, GROUP\<close>

definition stat_article ::
  "bytes \<Rightarrow> nntp_connection \<Rightarrow> nntp_response nntp_result \<times> nntp_connection" where
  "stat_article mid0 c =
     (if \<not> have_stat (capabilities c) then (Inl (ArticleNotFound (normalize_message_id mid0)), c)
      else if state c \<noteq> Ready then (Inl (wrong_state ''STAT'' c), c)
      else let mid = normalize_message_id mid0
      in rbind (exchange (''STAT '' @ mid) (c\<lparr>state := Busy\<rparr>)) (\<lambda>st c.
        if code st = 223 then finish Ready (Inr st) c
        else if code st = 430 then finish Ready (Inl (ArticleNotFound mid)) c
        else if code st = 403 then finish Error (Inl (PermissionDenied (message st))) c
        else if code st = 502 then finish Error (Inl (ServiceUnavailable (message st))) c
        else if code st = 480 then finish Error (Inl (AuthRequired (message st))) c
        else if code st \<in> {481, 482} then finish Error (Inl (rejected ''STAT'' st)) c
        else finish Error (Inl (unexpected ''STAT'' st)) c))"

definition ping :: "nntp_connection \<Rightarrow> unit nntp_result \<times> nntp_connection" where
  "ping c =
     (if state c \<noteq> Ready then (Inl (wrong_state ''ping'' c), c)
      else rbind (exchange ''DATE'' (c\<lparr>state := Busy\<rparr>)) (\<lambda>st c.
        if code st \<in> {400, 403, 480, 481, 482, 502} then
          finish Error (Inl (Connection (''Health check rejected ('' @ show_nat (code st)
                                         @ ''): '' @ message st))) c
        else finish Ready (Inr ()) c))"

definition group_command ::
  "bytes \<Rightarrow> nntp_connection \<Rightarrow> group_response nntp_result \<times> nntp_connection" where
  "group_command nm c =
     (if state c \<noteq> Ready then (Inl (wrong_state ''GROUP'' c), c)
      else rbind (exchange (''GROUP '' @ nm) (c\<lparr>state := Busy\<rparr>)) (\<lambda>st c0.
        let c = c0\<lparr>state := Ready\<rparr> in
        if code st = 211 then (parse_group_message nm (message st), c)
        else if code st = 411 then (Inl (NoSuchGroup nm), c)
        else if code st = 480 then finish Error (Inl (AuthRequired (message st))) c
        else if code st \<in> {481, 482} then finish Error (Inl (rejected ''GROUP'' st)) c
        else if code st = 502 then finish Error (Inl (ServiceUnavailable (message st))) c
        else finish Error (Inl (unexpected ''GROUP'' st)) c))"

end
