(* ===== verification/Session.thy ===== *)
theory Session
  imports Commands Config
begin

text \<open>
  Opening and closing a connection: dialling, TLS, the welcome banner, \<open>AUTHINFO\<close>,
  \<open>CAPABILITIES\<close>, \<open>MODE READER\<close>, compression, and \<open>QUIT\<close>.
\<close>

text \<open>
  The network as \<open>tokio\<close>, \<open>tokio-socks\<close> and \<open>rustls\<close> present it: dialling an address gives an
  error text or a stream, a host name is a valid TLS server name or not, and a handshake with the
  chosen verifier fails or gives the encrypted stream.
\<close>

record net_env =
  tcp_connect :: "bytes \<Rightarrow> bytes + transport"
  socks_connect :: "bytes \<Rightarrow> (bytes \<times> bytes) option \<Rightarrow> bytes \<Rightarrow> bytes + transport"
  server_name_error :: "bytes \<Rightarrow> bytes option"
  tls_handshake :: "tls_verifier \<Rightarrow> bytes \<Rightarrow> transport \<Rightarrow> bytes + transport"

definition addr_of :: "server_config \<Rightarrow> bytes" where
  "addr_of cfg = host cfg @ '':'' @ show_nat (port cfg)"

definition fail_error :: "nntp_error \<Rightarrow> nntp_connection \<Rightarrow> 'a nntp_result \<times> nntp_connection" where
  "fail_error e c = finish Error (Inl e) c"

text \<open>Step 1 of \<open>connect_inner\<close>: TCP, through a proxy when one is configured.\<close>

definition dial ::
  "net_env \<Rightarrow> server_config \<Rightarrow> nntp_connection \<Rightarrow> transport nntp_result \<times> nntp_connection" where
  "dial net cfg c =
     (let addr = addr_of cfg;
          proxy = (case proxy_url cfg of None \<Rightarrow> [] | Some u \<Rightarrow> trim u)
      in if proxy \<noteq> [] then
           (case parse_socks5_url proxy of
              Inl e \<Rightarrow> fail_error (Connection (''Invalid proxy URL: '' @ e)) c
            | Inr p \<Rightarrow>
                (case socks_connect net (proxy_addr p) (proxy_auth p) addr of
                   Inl e \<Rightarrow>
                     fail_error (Connection (''SOCKS5 connect to '' @ addr @ '' via proxy: '' @ e)) c
                 | Inr t \<Rightarrow> (Inr t, c)))
         else case tcp_connect net addr of
           Inl e \<Rightarrow> fail_error (Connection (''TCP connect to '' @ addr @ '': '' @ e)) c
         | Inr t \<Rightarrow> (Inr t, c))"

text \<open>Step 2: the optional TLS upgrade, which also installs the transport.\<close>

definition install_transport ::
  "net_env \<Rightarrow> server_config \<Rightarrow> transport \<Rightarrow> nntp_connection \<Rightarrow> unit nntp_result \<times> nntp_connection" where
  "install_transport net cfg tcp c =
     (if ssl cfg then
        (case build_tls_config (ssl_verify cfg) (trusted_fingerprint cfg) of
           Inl e \<Rightarrow> (Inl e, c)
         | Inr v \<Rightarrow>
             (case server_name_error net (host cfg) of
                Some e \<Rightarrow>
                  (Inl (Tls (''Invalid server name '' @ [CHR 0x27] @ host cfg @ [CHR 0x27] @ '': '' @ e)), c)
              | None \<Rightarrow>
                  (case tls_handshake net v (host cfg) tcp of
                     Inl e \<Rightarrow>
                       fail_error (Tls (''TLS handshake with '' @ addr_of cfg @ '': '' @ e)) c
                   | Inr t \<Rightarrow> (Inr (), c\<lparr>transport := Some (t\<lparr>tls := True\<rparr>)\<rparr>))))
      else (Inr (), c\<lparr>transport := Some (tcp\<lparr>tls := False\<rparr>)\<rparr>))"

text \<open>Step 3: the welcome banner.\<close>

definition check_welcome ::
  "nntp_response \<Rightarrow> nntp_connection \<Rightarrow> unit nntp_result \<times> nntp_connection" where
  "check_welcome w c =
     (if code w \<in> {200, 201} then (Inr (), c)
      else if code w = 502 then fail_error (ServiceUnavailable (message w)) c
      else fail_error (Protocol (''Unexpected welcome code '' @ show_nat (code w) @ '': ''
                                 @ message w)) c)"

section \<open>Authentication\<close>

definition auth_password ::
  "server_config \<Rightarrow> nntp_connection \<Rightarrow> unit nntp_result \<times> nntp_connection" where
  "auth_password cfg c =
     (case password cfg of
        None \<Rightarrow> (Inl (Auth ''Server requires password but none configured''), c)
      | Some pw \<Rightarrow>
          rbind (send_command (''AUTHINFO PASS '' @ pw) c) (\<lambda>_ c.
          rbind (read_response_line c) (\<lambda>resp c.
            if code resp = 281 then finish Ready (Inr ()) c
            else if code resp \<in> {481, 482} then fail_error (rejected ''PASS'' resp) c
            else if code resp = 502 then fail_error (ServiceUnavailable (message resp)) c
            else fail_error (unexpected ''PASS'' resp) c)))"

definition authenticate ::
  "server_config \<Rightarrow> nntp_connection \<Rightarrow> unit nntp_result \<times> nntp_connection" where
  "authenticate cfg c0 =
     (let c = c0\<lparr>state := Authenticating\<rparr>
      in case username cfg of
        None \<Rightarrow> (Inl (Auth ''No username configured''), c)
      | Some user \<Rightarrow>
          rbind (send_command (''AUTHINFO USER '' @ user) c) (\<lambda>_ c.
          rbind (read_response_line c) (\<lambda>resp c.
            if code resp = 281 then finish Ready (Inr ()) c
            else if code resp \<in> {381, 480} then auth_password cfg c
            else if code resp \<in> {481, 482} then fail_error (rejected ''USER'' resp) c
            else if code resp = 502 then fail_error (ServiceUnavailable (message resp)) c
            else fail_error (unexpected ''USER'' resp) c)))"

section \<open>Capabilities, reader mode, compression\<close>

definition query_capabilities ::
  "nntp_connection \<Rightarrow> unit nntp_result \<times> nntp_connection" where
  "query_capabilities c =
     (if state c \<noteq> Ready then (Inl (wrong_state ''query CAPABILITIES'' c), c)
      else rbind (send_command ''CAPABILITIES'' c) (\<lambda>_ c.
      rbind (read_response_line c) (\<lambda>resp c.
        if code resp = 101 then
          rbind (read_multiline_body c) (\<lambda>body c.
            let caps = caps_parse body;
                caps = (if \<not> have_body caps \<and> \<not> have_stat caps \<and> \<not> have_article caps
                           \<and> \<not> have_head caps
                        then set_content_flags True caps else caps)
            in (Inr (), c\<lparr>capabilities := caps\<rparr>))
        else (Inr (), c\<lparr>capabilities := default_assumed\<rparr>))))"

definition enter_reader_mode ::
  "nntp_connection \<Rightarrow> unit nntp_result \<times> nntp_connection" where
  "enter_reader_mode c =
     (if state c \<noteq> Ready then (Inl (wrong_state ''MODE READER'' c), c)
      else rbind (send_command ''MODE READER'' c) (\<lambda>_ c.
      rbind (read_response_line c) (\<lambda>resp c.
        if code resp \<in> {200, 201} then
          (Inr (), c\<lparr>capabilities := set_content_flags True ((capabilities c)\<lparr>reader := True\<rparr>)\<rparr>)
        else (Inl (unexpected ''MODE READER'' resp), c))))"

definition supports_compress :: "bytes \<Rightarrow> bool" where
  "supports_compress d =
     list_ex (\<lambda>l. eq_ignore_ascii_case (trim l) ''XFEATURE COMPRESS GZIP'')
       (str_lines (from_utf8_lossy d))"

definition negotiate_compression ::
  "nntp_connection \<Rightarrow> unit nntp_result \<times> nntp_connection" where
  "negotiate_compression c =
     rbind (send_command ''LIST EXTENSIONS'' c) (\<lambda>_ c.
     rbind (read_response_line c) (\<lambda>resp c.
       if code resp = 202 then
         rbind (read_multiline_body c) (\<lambda>d c.
           if \<not> supports_compress d then (Inr (), c)
           else rbind (send_command ''XFEATURE COMPRESS GZIP'' c) (\<lambda>_ c.
                rbind (read_response_line c) (\<lambda>resp c.
                  (Inr (), if code resp = 290 then c\<lparr>compress_enabled := True\<rparr> else c))))
       else (Inr (), c)))"

section \<open>connect\<close>

text \<open>Steps 5 to 6: failures are logged and the connection goes on.\<close>

definition probe_server :: "server_config \<Rightarrow> nntp_connection \<Rightarrow> nntp_connection" where
  "probe_server cfg c =
     (let c = (case query_capabilities c of
                 (Inl _, c') \<Rightarrow> c'\<lparr>capabilities := default_assumed\<rparr>
               | (Inr _, c') \<Rightarrow> c');
          c = (if mode_reader_required (capabilities c) \<and> \<not> reader (capabilities c)
               then snd (enter_reader_mode c) else c)
      in if compress cfg then snd (negotiate_compression c) else c)"

definition connect_inner ::
  "net_env \<Rightarrow> server_config \<Rightarrow> nntp_connection \<Rightarrow> unit nntp_result \<times> nntp_connection" where
  "connect_inner net cfg c =
     rbind (dial net cfg (c\<lparr>state := Connecting\<rparr>)) (\<lambda>tcp c.
     rbind (install_transport net cfg tcp c) (\<lambda>_ c.
     rbind (read_response_line c) (\<lambda>welcome c.
     rbind (check_welcome welcome c) (\<lambda>_ c.
     rbind (if username cfg \<noteq> None then authenticate cfg c else finish Ready (Inr ()) c) (\<lambda>_ c.
       (Inr (), probe_server cfg c))))))"

text \<open>
  \<open>connect\<close> bounds the whole sequence.  \<open>lapse\<close> is \<open>None\<close> when \<open>connect_inner\<close> completes within
  the budget; otherwise it is the connection the abandoned attempt left behind, whatever it is.
\<close>

definition connect ::
  "net_env \<Rightarrow> nntp_connection option \<Rightarrow> server_config \<Rightarrow> nntp_connection
     \<Rightarrow> unit nntp_result \<times> nntp_connection" where
  "connect net lapse cfg c =
     (case lapse of
        None \<Rightarrow> connect_inner net cfg c
      | Some left \<Rightarrow>
          fail_error (Timeout (''connect to '' @ host cfg @ '':'' @ show_nat (port cfg)
            @ '' did not complete within '' @ show_nat (connect_timeout_secs cfg) @ ''s'')) left)"

section \<open>QUIT\<close>

definition quit :: "nntp_connection \<Rightarrow> unit nntp_result \<times> nntp_connection" where
  "quit c =
     (let c1 = (case transport c of
                  None \<Rightarrow> c
                | Some _ \<Rightarrow>
                    (case send_command ''QUIT'' c of
                       (Inl _, c') \<Rightarrow> c'
                     | (Inr _, c') \<Rightarrow> snd (read_response_line c')))
      in (Inr (), c1\<lparr>transport := None, state := Disconnected\<rparr>))"

end
