(* ===== verification/Pool.thy ===== *)
theory Pool
  imports Session
begin

text \<open>
  \<open>src/pool.rs\<close>: the per-server connection pool.  Instants are integers in milliseconds (an
  \<open>Instant\<close> may lie before the start of the program).  The semaphore is its number of available
  permits; \<open>armed\<close> says that a \<open>PooledConnection\<close> holds the semaphore reference that frees its
  slot when it is dropped.
\<close>

record pooled_connection =
  pc_conn :: nntp_connection
  last_used :: int
  armed :: bool

definition IDLE_TIMEOUT :: int where "IDLE_TIMEOUT = 60 * 1000"
definition ACQUIRE_TIMEOUT :: nat where "ACQUIRE_TIMEOUT = 30 * 1000"

definition unmanaged :: "nntp_connection \<Rightarrow> int \<Rightarrow> pooled_connection" where
  "unmanaged c t = \<lparr>pc_conn = c, last_used = t, armed = False\<rparr>"

record connection_pool =
  pool_config :: server_config
  idle :: "pooled_connection list"
  permits :: nat
  created_count :: nat
  last_connect :: int
  ramp_up_delay :: nat

definition pool_new :: "server_config \<Rightarrow> int \<Rightarrow> connection_pool" where
  "pool_new cfg t =
     \<lparr>pool_config = cfg, idle = [], permits = connections cfg, created_count = 0,
      last_connect = t - 60 * 1000, ramp_up_delay = ramp_up_delay_ms cfg\<rparr>"

text \<open>
  What the pool's calls meet outside: the network and a possible connect timeout for the
  connection named by its id, and, while no permit is free, what other tasks do to the connections
  they hold, each after so many milliseconds.
\<close>

datatype pool_event =
    Released pooled_connection
  | Discarded pooled_connection
  | Dropped pooled_connection

record pool_env =
  net_for :: "bytes \<Rightarrow> net_env"
  lapse_for :: "bytes \<Rightarrow> nntp_connection option"
  meanwhile :: "(nat \<times> pool_event) list"

text \<open>\<open>Drop for PooledConnection\<close>.\<close>

definition drop_pooled :: "pooled_connection \<Rightarrow> connection_pool \<Rightarrow> connection_pool" where
  "drop_pooled pc p = (if armed pc then p\<lparr>permits := permits p + 1\<rparr> else p)"

definition add_permit :: "connection_pool \<Rightarrow> connection_pool" where
  "add_permit p = p\<lparr>permits := permits p + 1\<rparr>"

definition healthy :: "pooled_connection \<Rightarrow> bool" where
  "healthy pc \<longleftrightarrow> state (pc_conn pc) = Ready \<and> is_connected (pc_conn pc)"

definition release :: "pooled_connection \<Rightarrow> connection_pool \<Rightarrow> int \<Rightarrow> connection_pool" where
  "release pc0 p t =
     (let pc = pc0\<lparr>armed := False\<rparr>
      in if healthy pc then add_permit (p\<lparr>idle := idle p @ [pc\<lparr>last_used := t\<rparr>]\<rparr>)
         else add_permit (drop_pooled pc p))"

definition discard :: "pooled_connection \<Rightarrow> connection_pool \<Rightarrow> connection_pool" where
  "discard pc p = add_permit (drop_pooled (pc\<lparr>armed := False\<rparr>) p)"

definition wait_for_ramp_up :: "connection_pool \<Rightarrow> int \<Rightarrow> connection_pool \<times> int" where
  "wait_for_ramp_up p t =
     (if ramp_up_delay p = 0 then (p, t)
      else let elapsed = t - last_connect p;
               t' = (if elapsed < int (ramp_up_delay p)
                     then t + (int (ramp_up_delay p) - elapsed) else t)
           in (p\<lparr>last_connect := t'\<rparr>, t'))"

definition elapsed_in :: "nntp_connection \<Rightarrow> nntp_connection \<Rightarrow> int" where
  "elapsed_in c c' = int (now c' - now c)"

definition create_connection ::
  "pool_env \<Rightarrow> connection_pool \<Rightarrow> int \<Rightarrow> nntp_connection nntp_result \<times> connection_pool \<times> int" where
  "create_connection env p0 t0 =
     (let (p1, t) = wait_for_ramp_up p0 t0;
          idx = created_count p1 + 1;
          p = p1\<lparr>created_count := idx\<rparr>;
          conn_id = cfg_id (pool_config p) @ ''#'' @ show_nat idx;
          c0 = new_connection conn_id;
          (r, c) = connect (net_for env conn_id) (lapse_for env conn_id) (pool_config p) c0;
          t' = (case lapse_for env conn_id of
                  None \<Rightarrow> t + elapsed_in c0 c
                | Some _ \<Rightarrow> t + int (max (connect_timeout_secs (pool_config p)) 1 * 1000))
      in case r of Inl e \<Rightarrow> (Inl e, p, t') | Inr _ \<Rightarrow> (Inr c, p, t'))"

fun apply_event :: "pool_event \<Rightarrow> connection_pool \<Rightarrow> int \<Rightarrow> connection_pool" where
  "apply_event (Released pc) p t = release pc p t"
| "apply_event (Discarded pc) p t = discard pc p"
| "apply_event (Dropped pc) p t = drop_pooled pc p"

text \<open>
  The slot: a free permit, or the first one that is handed back within the timeout.  In both cases
  the caller now owns a permit; \<open>forget\<close> keeps it taken and an error path gives it back.
\<close>

fun wait_permit ::
  "(nat \<times> pool_event) list \<Rightarrow> nat \<Rightarrow> connection_pool \<Rightarrow> int \<Rightarrow> bool \<times> connection_pool \<times> int" where
  "wait_permit [] left p t = (False, p, t + int left)"
| "wait_permit ((d, ev) # evs) left p t =
     (if left \<le> d then (False, p, t + int left)
      else let p = apply_event ev p (t + int d)
           in if 0 < permits p then (True, p\<lparr>permits := permits p - 1\<rparr>, t + int d)
              else wait_permit evs (left - d) p (t + int d))"

definition take_permit ::
  "pool_env \<Rightarrow> connection_pool \<Rightarrow> int \<Rightarrow> unit nntp_result \<times> connection_pool \<times> int" where
  "take_permit env p t =
     (if 0 < permits p then (Inr (), p\<lparr>permits := permits p - 1\<rparr>, t)
      else let (ok, p', t') = wait_permit (meanwhile env) ACQUIRE_TIMEOUT p t
           in (if ok then Inr ()
               else Inl (Timeout (''Timed out waiting for connection to '' @ cfg_name (pool_config p))),
               p', t'))"

text \<open>
  The reuse of the most recently parked connection: \<open>Some\<close> a connection to hand out, or \<open>None\<close> when
  there is none or it is broken, which drops it.
\<close>

definition try_idle ::
  "connection_pool \<Rightarrow> int \<Rightarrow> pooled_connection option \<times> connection_pool \<times> int" where
  "try_idle p t =
     (if idle p = [] then (None, p, t)
      else let pc = last (idle p); p = p\<lparr>idle := butlast (idle p)\<rparr>
           in if healthy pc then
                (if IDLE_TIMEOUT < t - last_used pc then
                   (let (r, c') = ping (pc_conn pc); t' = t + elapsed_in (pc_conn pc) c'
                    in case r of
                         Inr _ \<Rightarrow> (Some (pc\<lparr>pc_conn := c', last_used := t', armed := True\<rparr>), p, t')
                       | Inl _ \<Rightarrow> (None, drop_pooled (pc\<lparr>pc_conn := c'\<rparr>) p, t'))
                 else (Some (pc\<lparr>armed := True\<rparr>), p, t))
              else (None, drop_pooled pc p, t))"

definition acquire ::
  "pool_env \<Rightarrow> connection_pool \<Rightarrow> int \<Rightarrow> pooled_connection nntp_result \<times> connection_pool \<times> int" where
  "acquire env p t =
     (case take_permit env p t of
        (Inl e, p, t) \<Rightarrow> (Inl e, p, t)
      | (Inr _, p, t) \<Rightarrow>
          (case try_idle p t of
             (Some pc, p, t) \<Rightarrow> (Inr pc, p, t)
           | (None, p, t) \<Rightarrow>
               (case create_connection env p t of
                  (Inl e, p, t) \<Rightarrow> (Inl e, add_permit p, t)
                | (Inr c, p, t) \<Rightarrow>
                    (Inr \<lparr>pc_conn = c, last_used = t, armed = True\<rparr>, p, t))))"

definition idle_count :: "connection_pool \<Rightarrow> nat" where
  "idle_count p = length (idle p)"

text \<open>The idle connections are quit one after the other; no permit is involved.\<close>

definition close_idle :: "connection_pool \<Rightarrow> int \<Rightarrow> connection_pool \<times> int" where
  "close_idle p t =
     (fold drop_pooled (map (\<lambda>pc. pc\<lparr>pc_conn := snd (quit (pc_conn pc))\<rparr>) (idle p)) (p\<lparr>idle := []\<rparr>),
      t + (\<Sum>pc\<leftarrow>idle p. elapsed_in (pc_conn pc) (snd (quit (pc_conn pc)))))"

end
