(* ===== verification/Server.thy ===== *)
theory Server
  imports Complex_Main Pool
begin

text \<open>
  \<open>src/server.rs\<close>: per-server health: penalties, counters, speed samples, and the calls into the
  pool.  Counters are naturals (the Rust \<open>u64\<close>s cannot overflow in practice); the floating-point
  results are the exact rationals they approximate.
\<close>

definition PENALTY_UNKNOWN :: int where "PENALTY_UNKNOWN = 3 * 60 * 1000"
definition PENALTY_TIMEOUT :: int where "PENALTY_TIMEOUT = 10 * 60 * 1000"
definition PENALTY_AUTH :: int where "PENALTY_AUTH = 10 * 60 * 1000"

section \<open>Speed tracker\<close>

record speed_sample =
  sample_bytes :: nat
  sample_time :: int

record speed_tracker =
  samples :: "speed_sample list"
  speed_window :: int

definition speed_new :: speed_tracker where
  "speed_new = \<lparr>samples = [], speed_window = 10 * 1000\<rparr>"

definition speed_record :: "nat \<Rightarrow> int \<Rightarrow> speed_tracker \<Rightarrow> speed_tracker" where
  "speed_record n t s =
     s\<lparr>samples := dropWhile (\<lambda>x. sample_time x < t - speed_window s)
                    (samples s @ [\<lparr>sample_bytes = n, sample_time = t\<rparr>])\<rparr>"

definition bytes_per_second :: "speed_tracker \<Rightarrow> rat" where
  "bytes_per_second s =
     (if length (samples s) < 2 then 0
      else let elapsed = sample_time (last (samples s)) - sample_time (hd (samples s))
           in if elapsed < 1 then 0
              else of_nat (\<Sum>x\<leftarrow>samples s. sample_bytes x) * 1000 / of_int elapsed)"

section \<open>Server state\<close>

record server_state =
  srv_config :: server_config
  active :: bool
  connections_active :: nat
  articles_tried :: nat
  articles_failed :: nat
  bytes_downloaded :: nat
  penalty_until :: "int option"
  last_error :: "bytes option"
  srv_pool :: connection_pool
  speed :: speed_tracker

definition server_new :: "server_config \<Rightarrow> int \<Rightarrow> server_state" where
  "server_new cfg t =
     \<lparr>srv_config = cfg, active = enabled cfg, connections_active = 0, articles_tried = 0,
      articles_failed = 0, bytes_downloaded = 0, penalty_until = None, last_error = None,
      srv_pool = pool_new cfg t, speed = speed_new\<rparr>"

definition is_available :: "server_state \<Rightarrow> int \<Rightarrow> bool" where
  "is_available s t \<longleftrightarrow>
     active s \<and> (case penalty_until s of None \<Rightarrow> True | Some until \<Rightarrow> until < t)"

definition penalize :: "bytes \<Rightarrow> int \<Rightarrow> int \<Rightarrow> server_state \<Rightarrow> server_state" where
  "penalize reason duration t s =
     s\<lparr>penalty_until := Some (t + duration), last_error := Some reason\<rparr>"

definition penalty_for :: "bytes \<Rightarrow> int" where
  "penalty_for reason =
     (if contains ''auth'' reason \<or> contains ''Auth'' reason then PENALTY_AUTH
      else if contains ''timeout'' reason \<or> contains ''Timeout'' reason then PENALTY_TIMEOUT
      else PENALTY_UNKNOWN)"

definition penalize_for :: "bytes \<Rightarrow> int \<Rightarrow> server_state \<Rightarrow> server_state" where
  "penalize_for reason t s = penalize reason (penalty_for reason) t s"

definition clear_penalty :: "server_state \<Rightarrow> server_state" where
  "clear_penalty s = s\<lparr>penalty_until := None, last_error := None\<rparr>"

definition record_success :: "nat \<Rightarrow> int \<Rightarrow> server_state \<Rightarrow> server_state" where
  "record_success n t s =
     s\<lparr>articles_tried := articles_tried s + 1, bytes_downloaded := bytes_downloaded s + n,
       speed := speed_record n t (speed s)\<rparr>"

definition record_failure :: "server_state \<Rightarrow> server_state" where
  "record_failure s =
     s\<lparr>articles_tried := articles_tried s + 1, articles_failed := articles_failed s + 1\<rparr>"

definition failure_ratio :: "server_state \<Rightarrow> rat" where
  "failure_ratio s =
     (if articles_tried s = 0 then 0 else of_nat (articles_failed s) / of_nat (articles_tried s))"

definition speed_bps :: "server_state \<Rightarrow> rat" where
  "speed_bps s = bytes_per_second (speed s)"

section \<open>Pool integration\<close>

definition acquire_connection ::
  "pool_env \<Rightarrow> server_state \<Rightarrow> int \<Rightarrow> pooled_connection nntp_result \<times> server_state \<times> int" where
  "acquire_connection env s t =
     (case acquire env (srv_pool s) t of
        (Inl e, p, t) \<Rightarrow> (Inl e, s\<lparr>srv_pool := p\<rparr>, t)
      | (Inr pc, p, t) \<Rightarrow>
          (Inr pc, s\<lparr>srv_pool := p, connections_active := connections_active s + 1\<rparr>, t))"

definition release_connection ::
  "pooled_connection \<Rightarrow> int \<Rightarrow> server_state \<Rightarrow> server_state" where
  "release_connection pc t s =
     s\<lparr>srv_pool := release pc (srv_pool s) t, connections_active := connections_active s - 1\<rparr>"

definition discard_connection :: "pooled_connection \<Rightarrow> server_state \<Rightarrow> server_state" where
  "discard_connection pc s =
     s\<lparr>srv_pool := discard pc (srv_pool s), connections_active := connections_active s - 1\<rparr>"

definition close_idle_connections :: "server_state \<Rightarrow> int \<Rightarrow> server_state \<times> int" where
  "close_idle_connections s t =
     (let (p, t') = close_idle (srv_pool s) t in (s\<lparr>srv_pool := p\<rparr>, t'))"

definition idle_connection_count :: "server_state \<Rightarrow> nat" where
  "idle_connection_count s = idle_count (srv_pool s)"

definition server_wait_for_ramp_up :: "server_state \<Rightarrow> int \<Rightarrow> server_state \<times> int" where
  "server_wait_for_ramp_up s t =
     (let (p, t') = wait_for_ramp_up (srv_pool s) t in (s\<lparr>srv_pool := p\<rparr>, t'))"

end
