(* ===== verification/Listings.thy ===== *)
theory Listings
  imports Commands
begin

text \<open>
  The commands of \<open>NntpConnection\<close> that list things: \<open>LIST OVERVIEW.FMT\<close>, \<open>XOVER\<close> in its
  lossless and its lenient form, \<open>XHDR\<close>, \<open>XPAT\<close> and \<open>LIST ACTIVE\<close>.
\<close>

definition read_limited ::
  "gunzip \<Rightarrow> nat option \<Rightarrow> nntp_connection \<Rightarrow> bytes nntp_result \<times> nntp_connection" where
  "read_limited gz lim c =
     (case lim of
        Some m \<Rightarrow> read_multiline_body_maybe_decompress_bounded gz m c
      | None \<Rightarrow> read_multiline_body_maybe_decompress gz c)"

definition get_overview_format ::
  "gunzip \<Rightarrow> nntp_connection \<Rightarrow> overview_format nntp_result \<times> nntp_connection" where
  "get_overview_format gz c =
     (if state c \<noteq> Ready then (Inl (wrong_state ''LIST OVERVIEW.FMT'' c), c)
      else rbind (exchange ''LIST OVERVIEW.FMT'' (c\<lparr>state := Busy\<rparr>)) (\<lambda>st c.
        if code st = 215 then
          rbind (mark_error (read_multiline_body_maybe_decompress gz c)) (\<lambda>d c.
            finish Ready (parse_overview_format d) c)
        else if code st = 480 then finish Error (Inl (AuthRequired (message st))) c
        else if code st \<in> {481, 482} then finish Error (Inl (rejected ''LIST OVERVIEW.FMT'' st)) c
        else if code st = 502 then finish Error (Inl (ServiceUnavailable (message st))) c
        else finish Error (Inl (unexpected ''LIST OVERVIEW.FMT'' st)) c))"

definition MAX_RESPONSE_BOUND :: nat where "MAX_RESPONSE_BOUND = 8 * 1024 * 1024"

definition xover_lossless_with_limit ::
  "gunzip \<Rightarrow> nat \<Rightarrow> nat \<Rightarrow> overview_format \<Rightarrow> nat option \<Rightarrow> nntp_connection
     \<Rightarrow> lossless_overview_rows bounded_response nntp_result \<times> nntp_connection" where
  "xover_lossless_with_limit gz a b fmt lim c =
     (if state c \<noteq> Ready then (Inl (wrong_state ''XOVER'' c), c)
      else rbind (exchange (''XOVER '' @ show_nat a @ ''-'' @ show_nat b) (c\<lparr>state := Busy\<rparr>)) (\<lambda>st c.
        if code st = 224 then
          rbind (mark_error (read_limited gz lim c)) (\<lambda>d c.
            finish Ready (Inr \<lparr>br_value = parse_lossless_overview_rows d fmt a b,
                               br_response_bytes = length d\<rparr>) c)
        else if code st \<in> {420, 423} then
          finish Ready (Inr \<lparr>br_value = \<lparr>rows = [], defective_rows = []\<rparr>,
                             br_response_bytes = 0\<rparr>) c
        else if code st = 412 then finish Ready (Inl no_newsgroup) c
        else if code st \<in> {481, 482} then finish Error (Inl (rejected ''XOVER'' st)) c
        else if code st = 502 then finish Error (Inl (ServiceUnavailable (message st))) c
        else finish Error (Inl (unexpected ''XOVER'' st)) c))"

definition map_result :: "('a \<Rightarrow> 'b) \<Rightarrow> 'a nntp_result \<times> 's \<Rightarrow> 'b nntp_result \<times> 's" where
  "map_result f p = (map_sum id f (fst p), snd p)"

definition xover_lossless ::
  "gunzip \<Rightarrow> nat \<Rightarrow> nat \<Rightarrow> overview_format \<Rightarrow> nntp_connection
     \<Rightarrow> lossless_overview_rows nntp_result \<times> nntp_connection" where
  "xover_lossless gz a b fmt c =
     map_result br_value (xover_lossless_with_limit gz a b fmt None c)"

definition xover_lossless_bounded ::
  "gunzip \<Rightarrow> nat \<Rightarrow> nat \<Rightarrow> overview_format \<Rightarrow> nat \<Rightarrow> nntp_connection
     \<Rightarrow> lossless_overview_rows bounded_response nntp_result \<times> nntp_connection" where
  "xover_lossless_bounded gz a b fmt m c =
     (if m = 0 \<or> MAX_RESPONSE_BOUND < m
      then (Inl (Protocol ''XOVER response bound is invalid''), c)
      else xover_lossless_with_limit gz a b fmt (Some m) c)"

definition xover ::
  "gunzip \<Rightarrow> nat \<Rightarrow> nat \<Rightarrow> nntp_connection \<Rightarrow> xover_entry list nntp_result \<times> nntp_connection" where
  "xover gz a b c =
     (if state c \<noteq> Ready then (Inl (wrong_state ''XOVER'' c), c)
      else rbind (exchange (''XOVER '' @ show_nat a @ ''-'' @ show_nat b) (c\<lparr>state := Busy\<rparr>)) (\<lambda>st c.
        if code st = 224 then
          rbind (mark_error (read_multiline_body_maybe_decompress gz c)) (\<lambda>d c.
            finish Ready (Inr (parse_xover_data d)) c)
        else if code st \<in> {420, 423} then finish Ready (Inr []) c
        else if code st = 412 then finish Ready (Inl no_newsgroup) c
        else if code st \<in> {481, 482} then finish Error (Inl (rejected ''XOVER'' st)) c
        else if code st = 502 then finish Error (Inl (ServiceUnavailable (message st))) c
        else finish Error (Inl (unexpected ''XOVER'' st)) c))"

definition xhdr ::
  "gunzip \<Rightarrow> bytes \<Rightarrow> article_range \<Rightarrow> nntp_connection
     \<Rightarrow> header_entry list nntp_result \<times> nntp_connection" where
  "xhdr gz hd_name rng c =
     (if state c \<noteq> Ready then (Inl (wrong_state ''XHDR'' c), c)
      else let arg = to_command_arg rng
      in rbind (exchange (''XHDR '' @ hd_name @ '' '' @ arg) (c\<lparr>state := Busy\<rparr>)) (\<lambda>st c.
        if code st = 221 then
          rbind (mark_error (read_multiline_body_maybe_decompress gz c)) (\<lambda>d c.
            finish Ready (Inr (parse_header_data d)) c)
        else if code st \<in> {420, 423} then finish Ready (Inr []) c
        else if code st = 412 then finish Ready (Inl no_newsgroup) c
        else if code st = 430 then finish Ready (Inl (ArticleNotFound arg)) c
        else if code st \<in> {481, 482} then finish Error (Inl (rejected ''XHDR'' st)) c
        else if code st = 502 then finish Error (Inl (ServiceUnavailable (message st))) c
        else finish Error (Inl (unexpected ''XHDR'' st)) c))"

definition xpat_with_limit ::
  "gunzip \<Rightarrow> bytes \<Rightarrow> article_range \<Rightarrow> bytes list \<Rightarrow> nat option \<Rightarrow> nntp_connection
     \<Rightarrow> header_entry list bounded_response nntp_result \<times> nntp_connection" where
  "xpat_with_limit gz hd_name rng patterns lim c =
     (if state c \<noteq> Ready then (Inl (wrong_state ''XPAT'' c), c)
      else if patterns = [] then (Inl (Protocol ''XPAT requires at least one pattern''), c)
      else let arg = to_command_arg rng
      in rbind (exchange (''XPAT '' @ hd_name @ '' '' @ arg @ '' '' @ join '' '' patterns)
                  (c\<lparr>state := Busy\<rparr>)) (\<lambda>st c.
        if code st = 221 then
          rbind (mark_error (read_limited gz lim c)) (\<lambda>d c.
            finish Ready (Inr \<lparr>br_value = parse_header_data d, br_response_bytes = length d\<rparr>) c)
        else if code st \<in> {420, 423} then
          finish Ready (Inr \<lparr>br_value = [], br_response_bytes = 0\<rparr>) c
        else if code st = 412 then finish Ready (Inl no_newsgroup) c
        else if code st = 430 then finish Ready (Inl (ArticleNotFound arg)) c
        else if code st \<in> {481, 482} then finish Error (Inl (rejected ''XPAT'' st)) c
        else if code st = 502 then finish Error (Inl (ServiceUnavailable (message st))) c
        else if code st \<in> {500, 501} then
          finish Ready (Inl (UnsupportedCommand (''XPAT unsupported ('' @ show_nat (code st)
                                                 @ ''): '' @ message st))) c
        else finish Error (Inl (unexpected ''XPAT'' st)) c))"

definition xpat ::
  "gunzip \<Rightarrow> bytes \<Rightarrow> article_range \<Rightarrow> bytes list \<Rightarrow> nntp_connection
     \<Rightarrow> header_entry list nntp_result \<times> nntp_connection" where
  "xpat gz hd_name rng patterns c =
     map_result br_value (xpat_with_limit gz hd_name rng patterns None c)"

definition xpat_bounded ::
  "gunzip \<Rightarrow> bytes \<Rightarrow> article_range \<Rightarrow> bytes list \<Rightarrow> nat \<Rightarrow> nntp_connection
     \<Rightarrow> header_entry list bounded_response nntp_result \<times> nntp_connection" where
  "xpat_bounded gz hd_name rng patterns m c =
     (if m = 0 \<or> MAX_RESPONSE_BOUND < m
      then (Inl (Protocol ''XPAT response bound is invalid''), c)
      else xpat_with_limit gz hd_name rng patterns (Some m) c)"

definition list_active ::
  "gunzip \<Rightarrow> bytes option \<Rightarrow> nntp_connection
     \<Rightarrow> list_active_entry list nntp_result \<times> nntp_connection" where
  "list_active gz wildmat c =
     (if state c \<noteq> Ready then (Inl (wrong_state ''LIST ACTIVE'' c), c)
      else let cmd = (case wildmat of
                        Some pattern \<Rightarrow> ''LIST ACTIVE '' @ pattern | None \<Rightarrow> ''LIST ACTIVE'')
      in rbind (exchange cmd (c\<lparr>state := Busy\<rparr>)) (\<lambda>st c.
        if code st = 215 then
          rbind (mark_error (read_multiline_body_maybe_decompress gz c)) (\<lambda>d c.
            finish Ready (Inr (parse_list_active_data d)) c)
        else if code st \<in> {481, 482} then finish Error (Inl (rejected ''LIST ACTIVE'' st)) c
        else if code st = 502 then finish Error (Inl (ServiceUnavailable (message st))) c
        else finish Error (Inl (unexpected ''LIST ACTIVE'' st)) c))"

end
