(* ===== verification/Posting.thy ===== *)
theory Posting
  imports Commands
begin

text \<open>
  \<open>POST\<close>: \<open>post_article\<close> for text and \<open>post_article_bytes\<close> for binary articles.  Both send the
  article line by line, dot-stuffed, each piece with its own bounded write.
\<close>

definition write_chunk :: "bytes \<Rightarrow> nntp_connection \<Rightarrow> unit nntp_result \<times> nntp_connection" where
  "write_chunk d c =
     (case transport c of
        None \<Rightarrow> (Inl not_connected, c)
      | Some _ \<Rightarrow> mark_error (conn_write (\<lambda>limit. transport_write_all limit d) c))"

fun write_chunks :: "bytes list \<Rightarrow> nntp_connection \<Rightarrow> unit nntp_result \<times> nntp_connection" where
  "write_chunks [] c = (Inr (), c)"
| "write_chunks (d # ds) c = rbind (write_chunk d c) (\<lambda>_ c. write_chunks ds c)"

text \<open>The terminator line, sent after the last line of the article.\<close>

definition terminator :: bytes where "terminator = [DOT, CR, LF]"

text \<open>The common shape of both methods, around the pieces to write.\<close>

definition post_chunks ::
  "bytes list \<Rightarrow> nntp_connection \<Rightarrow> nntp_response nntp_result \<times> nntp_connection" where
  "post_chunks chunks c =
     (if state c \<noteq> Ready then (Inl (wrong_state ''POST'' c), c)
      else rbind (exchange ''POST'' (c\<lparr>state := Busy\<rparr>)) (\<lambda>st c.
        if code st = 340 then
          rbind (write_chunks chunks c) (\<lambda>_ c.
          rbind (write_chunk terminator c) (\<lambda>_ c.
          rbind (mark_error (read_response_line c)) (\<lambda>res c. finish Ready (Inr res) c)))
        else if code st = 440 then finish Ready (Inr st) c
        else finish Error (Inl (unexpected ''POST'' st)) c))"

definition text_line_chunk :: "bytes \<Rightarrow> bytes" where
  "text_line_chunk line = (if starts_with ''.'' line then ''.'' @ line @ crlf else line @ crlf)"

definition post_article ::
  "bytes \<Rightarrow> nntp_connection \<Rightarrow> nntp_response nntp_result \<times> nntp_connection" where
  "post_article art c = post_chunks (map text_line_chunk (str_lines art)) c"

text \<open>
  The scan of \<open>post_article_bytes\<close>: up to the next line feed or to the end, one carriage return
  dropped, then on behind the line feed.
\<close>

function byte_lines :: "bytes \<Rightarrow> bytes list" where
  "byte_lines [] = []"
| "byte_lines (a # s) =
     strip_cr (takeWhile (\<lambda>b. b \<noteq> LF) (a # s))
     # byte_lines (drop 1 (dropWhile (\<lambda>b. b \<noteq> LF) (a # s)))"
  by pat_completeness auto
termination
proof (relation "measure length", goal_cases)
  case (2 a s)
  have "length (dropWhile (\<lambda>b. b \<noteq> LF) (a # s)) \<le> length (a # s)" by (rule length_dropWhile_le)
  then show ?case by (cases "dropWhile (\<lambda>b. b \<noteq> LF) (a # s)") auto
qed simp

definition byte_line_chunks :: "bytes \<Rightarrow> bytes list" where
  "byte_line_chunks line = (if starts_with ''.'' line then [''.''] else []) @ [line, crlf]"

definition post_article_bytes ::
  "bytes \<Rightarrow> nntp_connection \<Rightarrow> nntp_response nntp_result \<times> nntp_connection" where
  "post_article_bytes art c = post_chunks (concat (map byte_line_chunks (byte_lines art))) c"

end
