(* ===== verification/Framing.thy ===== *)
theory Framing
  imports Conn
begin

text \<open>
  What the body readers of \<open>Conn\<close> promise, stated against an independent description of the wire
  format (RFC 3977, section 3.1.1): a body is a list of lines, sent dot-stuffed and followed by a
  lone dot.
\<close>

section \<open>The wire format\<close>

definition stuff_line :: "bytes \<Rightarrow> bytes" where
  "stuff_line l = (if starts_with [DOT] l then DOT # l else l)"

definition dot_line :: bytes where "dot_line = [DOT, CR, LF]"

definition wire_body :: "bytes list \<Rightarrow> bytes" where
  "wire_body ls = concat (map stuff_line ls) @ dot_line"

text \<open>A script that delivers the wire form of a body, each line within the read timeout.\<close>

definition delivers_body :: "rx_item list list \<Rightarrow> bytes list \<Rightarrow> bool" where
  "delivers_body ss ls \<longleftrightarrow>
     list_all is_line ls
     \<and> list_all2 (delivers READ_BODY_LINE_TIMEOUT) ss (map stuff_line ls @ [dot_line])"

section \<open>Lines\<close>

lemma starts_with_dot [simp]:
  "starts_with [DOT] l \<longleftrightarrow> (\<exists>k. l = DOT # k)" "starts_with [DOT, DOT] l \<longleftrightarrow> (\<exists>k. l = DOT # DOT # k)"
  by (auto simp: starts_with_iff)

lemma is_line_Cons [simp]: "b \<noteq> LF \<Longrightarrow> is_line (b # l) \<longleftrightarrow> is_line l"
  by (auto simp: is_line_def)

lemma is_line_nonempty: "is_line l \<Longrightarrow> l \<noteq> []"
  by (simp add: is_line_def)

lemma is_line_dot_line [simp]: "is_line dot_line" "is_terminator dot_line" "is_line [DOT, LF]"
  by (simp_all add: is_line_def dot_line_def is_terminator_def)

lemma is_line_stuff_line [simp]: "is_line (stuff_line l) \<longleftrightarrow> is_line l"
  by (auto simp: stuff_line_def)

lemma unstuff_stuff_line [simp]: "unstuff (stuff_line l) = l"
  by (auto simp: stuff_line_def unstuff_def)

lemma stuff_line_not_terminator [simp]: "is_line l \<Longrightarrow> \<not> is_terminator (stuff_line l)"
  by (auto simp: stuff_line_def is_terminator_def is_line_def)

lemma tick_tick [simp]: "tick a (tick b hb) = tick a hb"
  by (cases hb) (simp_all add: tick_def)

lemma delivers_nonempty: "delivers n s l \<Longrightarrow> l \<noteq> []"
  by (simp add: delivers_def is_line_def)

section \<open>Completeness of the body loop\<close>

lemma body_loop_line:
  assumes "delivers READ_BODY_LINE_TIMEOUT s l" and "\<not> is_terminator l"
    and "\<not> exceeds mx (length out + length (unstuff l))"
  shows "body_loop mx out (s @ r) t hb
           = body_loop mx (out @ unstuff l) r (t + pause_of s) (tick (t + pause_of s) hb)"
  using assms delivers_nonempty [OF assms(1)]
  by (subst body_loop.simps) (simp add: read_until_delivers)

lemma body_loop_end:
  assumes "delivers READ_BODY_LINE_TIMEOUT s l" and "is_terminator l"
  shows "body_loop mx out (s @ r) t hb = (Inr out, r, t + pause_of s, tick (t + pause_of s) hb)"
  using assms delivers_nonempty [OF assms(1)]
  by (subst body_loop.simps) (simp add: read_until_delivers)

lemma exceeds_mono: "exceeds mx m \<Longrightarrow> m \<le> n \<Longrightarrow> exceeds mx n"
  by (auto simp: exceeds_def split: option.splits)

lemma body_loop_delivers:
  "delivers_body ss ls \<Longrightarrow> \<not> exceeds mx (length out + length (concat ls)) \<Longrightarrow>
     body_loop mx out (concat ss @ r) t hb
       = (Inr (out @ concat ls), r, t + pause_of (concat ss), tick (t + pause_of (concat ss)) hb)"
proof (induction ls arbitrary: ss out t hb)
  case Nil
  then obtain s where "ss = [s]" "delivers READ_BODY_LINE_TIMEOUT s dot_line"
    by (auto simp: delivers_body_def list_all2_Cons2)
  then show ?case by (simp add: body_loop_end)
next
  case (Cons l ls)
  then obtain s ss' where ss: "ss = s # ss'" and d: "delivers READ_BODY_LINE_TIMEOUT s (stuff_line l)"
    and ds: "delivers_body ss' ls" and l: "is_line l"
    by (auto simp: delivers_body_def list_all2_Cons2)
  have "\<not> exceeds mx (length out + length l)"
    using Cons.prems(2) exceeds_mono [of mx "length out + length l"] by auto
  then have step: "body_loop mx out (s @ concat ss' @ r) t hb
      = body_loop mx (out @ l) (concat ss' @ r) (t + pause_of s) (tick (t + pause_of s) hb)"
    using body_loop_line [OF d] l by simp
  show ?case
    using Cons.IH [OF ds, of "out @ l"] Cons.prems(2) by (simp add: ss step ac_simps)
qed

section \<open>Soundness of the body loop\<close>

definition body_parse :: "bytes list \<Rightarrow> bytes \<Rightarrow> bool" where
  "body_parse ws e \<longleftrightarrow>
     list_all is_line ws \<and> list_all (\<lambda>l. \<not> is_terminator l) ws \<and> is_terminator e"

lemma body_loop_Nil [simp]: "\<exists>e p. body_loop mx out [] t hb = (Inl e, p)"
  by (subst body_loop.simps) simp

lemma body_loop_sound:
  "body_loop mx out r t hb = (Inr d, r', t', hb') \<Longrightarrow>
     \<exists>s ws e. r = s @ r' \<and> item_bytes s = concat ws @ e \<and> body_parse ws e
              \<and> d = out @ concat (map unstuff ws)"
proof (induction mx out r t hb arbitrary: d r' t' hb' rule: body_loop.induct)
  case (1 mx out r t hb)
  obtain res r1 w where ru: "read_until READ_BODY_LINE_TIMEOUT 0 r = (res, r1, w)" by (metis surj_pair)
  from 1(2) ru obtain l where l: "res = ReadOk l" "l \<noteq> []"
    by (subst (asm) body_loop.simps) (auto split: read_outcome.splits if_splits)
  from read_until_sound [of _ _ _ l] ru l(1) obtain s where s: "r = s @ r1" "item_bytes s = l"
    and ln: "is_line l \<or> LF \<notin> set l \<and> r1 = []" by blast
  show ?case
  proof (cases "is_terminator l")
    case True
    with 1(2) ru l have "d = out" "r1 = r'" by (auto simp: body_loop.simps [of mx out r])
    with s True show ?thesis
      by (intro exI [of _ s] exI [of _ "[]"] exI [of _ l]) (auto simp: body_parse_def)
  next
    case False
    with 1(2) ru l have nx: "\<not> exceeds mx (length out + length (unstuff l))"
      and rec: "body_loop mx (out @ unstuff l) r1 (t + w) (tick (t + w) hb) = (Inr d, r', t', hb')"
      by (auto simp: body_loop.simps [of mx out r] split: if_splits)
    have "is_line l" using ln rec body_loop_Nil by (metis Pair_inject Inl_Inr_False)
    moreover from 1(1) [OF ru [symmetric] l(1) refl l(2) False nx rec] obtain s' ws e where
      "r1 = s' @ r'" "item_bytes s' = concat ws @ e" "body_parse ws e"
      "d = (out @ unstuff l) @ concat (map unstuff ws)" by blast
    ultimately show ?thesis using s False
      by (intro exI [of _ "s @ s'"] exI [of _ "l # ws"] exI [of _ e]) (auto simp: body_parse_def)
  qed
qed

section \<open>The byte bound\<close>

lemma length_unstuff: "length (unstuff l) \<le> length l"
  by (simp add: unstuff_def)

lemma body_loop_grows: "body_loop mx out r t hb = (Inr d, p) \<Longrightarrow> length out \<le> length d"
  using body_loop_sound [of mx out r t hb d] by (cases p) fastforce

lemma body_loop_bounded:
  "length out \<le> m \<Longrightarrow>
     body_loop (Some m) out r t hb = (Inr d, p)
       \<longleftrightarrow> body_loop None out r t hb = (Inr d, p) \<and> length d \<le> m"
proof (induction "None :: nat option" out r t hb rule: body_loop.induct)
  case (1 out r t hb)
  obtain res r1 w where ru: "read_until READ_BODY_LINE_TIMEOUT 0 r = (res, r1, w)" by (metis surj_pair)
  show ?case
  proof (cases "\<exists>l. res = ReadOk l \<and> l \<noteq> [] \<and> \<not> is_terminator l")
    case False
    with ru 1(2) show ?thesis
      by (auto simp: body_loop.simps [of _ out r] split: read_outcome.splits)
  next
    case True
    then obtain l where l: "res = ReadOk l" "l \<noteq> []" "\<not> is_terminator l" by blast
    have eqs: "body_loop None out r t hb
        = body_loop None (out @ unstuff l) r1 (t + w) (tick (t + w) hb)"
      "length out + length (unstuff l) \<le> m \<Longrightarrow> body_loop (Some m) out r t hb
        = body_loop (Some m) (out @ unstuff l) r1 (t + w) (tick (t + w) hb)"
      "\<not> length out + length (unstuff l) \<le> m \<Longrightarrow>
         \<exists>e q. body_loop (Some m) out r t hb = (Inl e, q)"
      using ru l by (auto simp: body_loop.simps [of _ out r] exceeds_def)
    show ?thesis
    proof (cases "length out + length (unstuff l) \<le> m")
      case True
      with 1(1) [OF ru [symmetric] l(1) refl l(2,3)] eqs show ?thesis by (simp add: exceeds_def)
    next
      case False
      then obtain e q where "body_loop (Some m) out r t hb = (Inl e, q)" using eqs(3) by blast
      moreover have "\<not> length d \<le> m" if "body_loop None out r t hb = (Inr d, p)"
        using body_loop_grows [OF that [unfolded eqs(1)]] False by simp
      ultimately show ?thesis by auto
    qed
  qed
qed

section \<open>The prefix reader\<close>

lemma prefix_loop_spec:
  "prefix_loop mx out r t hb = (Inr p, q) \<Longrightarrow> body_loop None out r t hb = (Inr d, q') \<Longrightarrow>
     length out < mx \<Longrightarrow>
     prefix_data p = take mx d \<and> (complete p \<longleftrightarrow> length d < mx) \<and> (complete p \<longrightarrow> q = q')"
proof (induction mx out r t hb rule: prefix_loop.induct)
  case (1 mx out r t hb)
  obtain res r1 w where ru: "read_until READ_BODY_LINE_TIMEOUT 0 r = (res, r1, w)" by (metis surj_pair)
  from 1(2) ru obtain l where l: "res = ReadOk l" "l \<noteq> []"
    by (subst (asm) prefix_loop.simps) (auto split: read_outcome.splits if_splits)
  show ?case
  proof (cases "is_terminator l")
    case True
    with 1(2-) ru l show ?thesis by (auto simp: body_loop.simps [of _ out r] prefix_loop.simps [of mx out r])
  next
    case False
    define k where "k = unstuff l"
    from False 1(3) ru l have b: "body_loop None (out @ k) r1 (t + w) (tick (t + w) hb) = (Inr d, q')"
      by (simp add: body_loop.simps [of _ out r] exceeds_def k_def)
    then obtain z where d: "d = (out @ k) @ z"
      using body_loop_sound [of None "out @ k" r1 "t + w" "tick (t + w) hb" d] by (cases q') blast
    from 1(2) ru l False have small: "\<not> PREFIX_LINE_MAX < length l"
      by (auto simp: prefix_loop.simps [of mx out r])
    show ?thesis
    proof (cases "length (out @ k) < mx")
      case True
      then have "out @ take (min (length k) (mx - length out)) k = out @ k" by simp
      with True 1(2) ru l False small
      have "prefix_loop mx (out @ k) r1 (t + w) (tick (t + w) hb) = (Inr p, q)"
        by (simp add: prefix_loop.simps [of mx out r] k_def Let_def split: if_splits)
      with 1(1) [OF ru [symmetric] l(1) refl l(2) False small k_def refl refl] b True 1(4) show ?thesis
        by simp
    next
      case F: False
      with 1(2,4) ru l False small d show ?thesis
        by (auto simp: prefix_loop.simps [of mx out r] k_def [symmetric] Let_def min_def
              split: if_splits)
    qed
  qed
qed

text \<open>A complete prefix has read the body to its terminator, like the body loop.\<close>

lemma prefix_loop_complete:
  "prefix_loop mx out r t hb = (Inr p, q) \<Longrightarrow> complete p \<Longrightarrow>
     body_loop None out r t hb = (Inr (prefix_data p), q)"
proof (induction mx out r t hb rule: prefix_loop.induct)
  case (1 mx out r t hb)
  obtain res r1 w where ru: "read_until READ_BODY_LINE_TIMEOUT 0 r = (res, r1, w)" by (metis surj_pair)
  from 1(2) ru obtain l where l: "res = ReadOk l" "l \<noteq> []"
    by (subst (asm) prefix_loop.simps) (auto split: read_outcome.splits if_splits)
  show ?case
  proof (cases "is_terminator l")
    case True
    with 1(2) ru l show ?thesis
      by (auto simp: body_loop.simps [of _ out r] prefix_loop.simps [of mx out r])
  next
    case False
    define k where "k = unstuff l"
    from 1(2) ru l False have small: "\<not> PREFIX_LINE_MAX < length l"
      by (auto simp: prefix_loop.simps [of mx out r])
    from 1(2,3) ru l False small have k: "length k \<le> mx - length out"
      and rec: "prefix_loop mx (out @ k) r1 (t + w) (tick (t + w) hb) = (Inr p, q)"
      by (auto simp: prefix_loop.simps [of mx out r] k_def [symmetric] Let_def min_def split: if_splits)
    have "body_loop None (out @ k) r1 (t + w) (tick (t + w) hb) = (Inr (prefix_data p), q)"
    proof -
      have kk: "take (min (length k) (mx - length out)) k = k" using k by simp
      have "\<not> (mx - length out < length k \<or> length (out @ k) = mx)"
        using 1(2,3) ru l False small k
        by (auto simp: prefix_loop.simps [of mx out r] k_def [symmetric] Let_def min_def split: if_splits)
      from 1(1) [OF ru [symmetric] l(1) refl l(2) False small k_def refl refl, unfolded kk, OF this rec 1(3)]
      show ?thesis .
    qed
    with ru l False show ?thesis by (simp add: body_loop.simps [of _ out r] exceeds_def k_def)
  qed
qed

end
