(* ===== verification/Command_Laws.thy ===== *)
theory Command_Laws
  imports Listings Posting Framing
begin

text \<open>
  The contract every command method of \<open>NntpConnection\<close> keeps: it is refused without effect unless
  the connection is \<open>Ready\<close>; it ends \<open>Ready\<close>, or poisoned in \<open>Error\<close>, or closed; and it ends
  \<open>Ready\<close> only when exactly its own response has been consumed.  The commands are composed of a
  few shapes, and each shape has one rule here.
\<close>

named_theorems settle \<open>rules for the state a command ends in\<close>

section \<open>Where a command ends\<close>

text \<open>The errors that leave the connection usable.\<close>

fun recoverable :: "nntp_error \<Rightarrow> bool" where
  "recoverable (ArticleNotFound _) = True"
| "recoverable (NoSuchGroup _) = True"
| "recoverable (NoArticleSelected _) = True"
| "recoverable (UnsupportedCommand _) = True"
| "recoverable (Protocol _) = True"
| "recoverable _ = False"

definition settled_as :: "('a \<Rightarrow> bool) \<Rightarrow> 'a nntp_result \<times> nntp_connection \<Rightarrow> bool" where
  "settled_as Q p \<longleftrightarrow>
     (case p of
        (Inr a, c) \<Rightarrow> state c = (if Q a then Disconnected else Ready)
      | (Inl e, c) \<Rightarrow> state c = Error \<or> (state c = Ready \<and> recoverable e))"

text \<open>Only the commands for which \<open>Q\<close> can hold of a result close the connection after it.\<close>

abbreviation settled :: "'a nntp_result \<times> nntp_connection \<Rightarrow> bool" where
  "settled \<equiv> settled_as (\<lambda>_. False)"

definition fails_closed :: "'a nntp_result \<times> nntp_connection \<Rightarrow> bool" where
  "fails_closed p \<longleftrightarrow> (case p of (Inl _, c) \<Rightarrow> state c = Error | (Inr _, _) \<Rightarrow> True)"

lemma fails_closed_mark [settle]: "fails_closed (mark_error p)"
  by (auto simp: fails_closed_def mark_error_def split: prod.splits sum.splits)

lemma fails_closed_bind:
  "fails_closed p \<Longrightarrow> (\<And>a c. p = (Inr a, c) \<Longrightarrow> fails_closed (k a c)) \<Longrightarrow> fails_closed (rbind p k)"
  by (cases p; cases "fst p") (auto simp: fails_closed_def)

lemma fails_closed_exchange [settle]: "fails_closed (exchange cmd c)"
  unfolding exchange_def by (intro fails_closed_bind settle)

lemma settled_bind [settle]:
  "fails_closed p \<Longrightarrow> (\<And>a c. p = (Inr a, c) \<Longrightarrow> settled_as Q (k a c)) \<Longrightarrow> settled_as Q (rbind p k)"
  by (cases p; cases "fst p") (auto simp: fails_closed_def settled_as_def)

lemma settled_ok [settle]: "\<not> Q a \<Longrightarrow> settled_as Q (finish Ready (Inr a) c)"
  by (simp add: settled_as_def finish_def)

lemma settled_error [settle]: "settled_as Q (finish Error (Inl e) c)"
  by (simp add: settled_as_def finish_def)

lemma settled_recoverable [settle]: "recoverable e \<Longrightarrow> settled_as Q (finish Ready (Inl e) c)"
  by (simp add: settled_as_def finish_def)

lemma settled_result [settle]:
  "(\<And>e. r = Inl e \<Longrightarrow> recoverable e) \<Longrightarrow> (\<And>a. r = Inr a \<Longrightarrow> \<not> Q a) \<Longrightarrow> settled_as Q (finish Ready r c)"
  by (cases r) (auto simp: settled_as_def finish_def)

text \<open>Writing the lines and then the terminator is one sequence of writes.\<close>

lemma write_chunks_snoc:
  "rbind (write_chunks ds c) (\<lambda>_ c. rbind (write_chunk d c) (\<lambda>_. k)) = rbind (write_chunks (ds @ [d]) c) (\<lambda>_. k)"
proof (induction ds arbitrary: c)
  case Nil
  then show ?case by (simp add: rbind_assoc)
qed (simp add: rbind_assoc)

lemma settled_if [settle]:
  "(b \<Longrightarrow> settled_as Q p) \<Longrightarrow> (\<not> b \<Longrightarrow> settled_as Q q) \<Longrightarrow> settled_as Q (if b then p else q)"
  by simp

lemma settled_refused [settle]: "state c = Ready \<Longrightarrow> recoverable e \<Longrightarrow> settled_as Q (Inl e, c)"
  by (simp add: settled_as_def)

lemma parse_overview_format_recoverable: "parse_overview_format d = Inl e \<Longrightarrow> recoverable e"
  by (auto simp: parse_overview_format_def Let_def split: if_splits option.splits)

lemma recoverable_wrong_state [simp]: "recoverable (wrong_state what c)" "recoverable no_newsgroup"
  by (simp_all add: wrong_state_def no_newsgroup_def)

lemma settled_closed [settle]:
  "Q a \<Longrightarrow> settled_as Q (Inr a, c\<lparr>transport := t, compress_enabled := b, state := Disconnected\<rparr>)"
  by (simp add: settled_as_def)

section \<open>What no command changes\<close>

definition same_session :: "nntp_connection \<Rightarrow> nntp_connection \<Rightarrow> bool" where
  "same_session c c' \<longleftrightarrow>
     server_id c' = server_id c \<and> capabilities c' = capabilities c
     \<and> write_timeout c' = write_timeout c \<and> (compress_enabled c' \<longrightarrow> compress_enabled c)"

definition frames :: "nntp_connection \<Rightarrow> 'a nntp_result \<times> nntp_connection \<Rightarrow> bool" where
  "frames c p \<longleftrightarrow> same_session c (snd p)"

named_theorems frame \<open>rules for what a command leaves alone\<close>

lemma same_session_refl [simp]: "same_session c c"
  by (simp add: same_session_def)

lemma frames_bind [frame]:
  assumes "frames c p" and "\<And>a c'. p = (Inr a, c') \<Longrightarrow> frames c' (k a c')"
  shows "frames c (rbind p k)"
proof (cases p)
  case (Pair r c')
  with assms show ?thesis by (cases r) (auto simp: frames_def same_session_def)
qed

lemma frames_mark [frame]: "frames c p \<Longrightarrow> frames c (mark_error p)"
  by (auto simp: frames_def mark_error_def same_session_def split: prod.splits sum.splits)

lemma frames_finish [frame]: "frames c (finish s r c)"
  by (simp add: frames_def finish_def same_session_def)

lemma frames_write [frame]: "frames c (conn_write w c)"
  by (simp add: frames_def conn_write_def same_session_def split: option.split prod.split)

lemma frames_send [frame]: "frames c (send_command_no_flush d c)" "frames c (flush c)"
  by (simp_all add: send_command_no_flush_def flush_def frames_write)

lemma frames_send_command [frame]: "frames c (send_command d c)"
  unfolding send_command_def by (intro frame)

lemma frames_read [frame]: "frames c (read_response_line c)"
  by (auto simp: frames_def read_response_line_def same_session_def tick_io_heartbeat_def Let_def
      split: option.split prod.split read_outcome.split)

lemma frames_body [frame]: "frames c (read_multiline_body_into_bounded mx c)"
  by (auto simp: frames_def read_multiline_body_into_bounded_def same_session_def split: option.split prod.split)

lemma checkout_same_session: "checkout_body_buffer c = (b, c') \<Longrightarrow> same_session c c'"
  by (auto simp: checkout_body_buffer_def same_session_def split: list.splits)

lemma same_session_trans: "same_session a b \<Longrightarrow> same_session b c \<Longrightarrow> same_session a c"
  by (simp add: same_session_def)

lemma frames_read_multiline [frame]:
  "frames c (read_multiline_body c)" "frames c (read_multiline_body_bounded mx c)"
proof -
  obtain b c' where c': "checkout_body_buffer c = (b, c')" by force
  show "frames c (read_multiline_body c)"
    using frames_body [of c' None] same_session_trans [OF checkout_same_session [OF c']]
    by (simp add: read_multiline_body_def c' frames_def)
qed (simp add: read_multiline_body_bounded_def frames_body)

lemma frames_prefix [frame]: "frames c (read_multiline_body_prefix mx c)"
  by (auto simp: frames_def read_multiline_body_prefix_def same_session_def split: option.split prod.split)

lemma frames_const [frame]: "frames c (r, c)"
  by (simp add: frames_def)

lemma frames_decompress [frame]:
  "frames c (read_multiline_body_maybe_decompress gz c)"
  "frames c (read_multiline_body_maybe_decompress_bounded gz mx c)"
  "frames c (read_limited gz lim c)"
proof -
  show 1: "frames c (read_multiline_body_maybe_decompress gz c)" for c
    unfolding read_multiline_body_maybe_decompress_def
    by (intro frame) (auto intro!: frame split: prod.split option.split)
  show 2: "frames c (read_multiline_body_maybe_decompress_bounded gz mx c)" for mx
    unfolding read_multiline_body_maybe_decompress_bounded_def
    by (intro frame) (auto intro!: frame split: prod.split option.split simp: Let_def)
  show "frames c (read_limited gz lim c)"
    by (auto simp: read_limited_def 1 2 split: option.split)
qed

lemma frames_exchange [frame]: "frames c (exchange cmd c)"
  unfolding exchange_def by (intro frame)

lemma frames_exchange_busy [frame]: "frames c (exchange cmd (c\<lparr>state := s\<rparr>))"
  using frames_exchange [of "c\<lparr>state := s\<rparr>" cmd] by (simp add: frames_def same_session_def)

lemma frames_if [frame]: "frames c p \<Longrightarrow> frames c q \<Longrightarrow> frames c (if b then p else q)"
  by simp

text \<open>A step that answers has a transport, and keeps it.\<close>

lemma read_response_line_transport:
  "read_response_line c = (Inr st, c') \<Longrightarrow> transport c' \<noteq> None"
  by (auto simp: read_response_line_def Let_def tick_io_heartbeat_def
      split: option.splits prod.splits read_outcome.splits if_splits)

lemma exchange_transport: "exchange cmd c = (Inr st, c') \<Longrightarrow> transport c' \<noteq> None"
  unfolding exchange_def
  by (cases "send_command cmd c"; cases "fst (send_command cmd c)")
     (auto simp: mark_error_def dest!: read_response_line_transport split: prod.splits sum.splits)

lemma write_chunk_transport:
  "write_chunk d c = (r, c') \<Longrightarrow> transport c \<noteq> None \<Longrightarrow> transport c' \<noteq> None"
  by (auto simp: write_chunk_def conn_write_def mark_error_def split: prod.splits sum.splits option.splits)

lemma fails_closed_write_chunk: "transport c \<noteq> None \<Longrightarrow> fails_closed (write_chunk d c)"
  by (auto simp: write_chunk_def intro: settle split: option.split)

lemma fails_closed_write_chunks: "transport c \<noteq> None \<Longrightarrow> fails_closed (write_chunks ds c)"
proof (induction ds arbitrary: c)
  case (Cons d ds)
  then show ?case
    by (auto intro!: fails_closed_bind fails_closed_write_chunk dest!: write_chunk_transport)
qed (simp add: fails_closed_def)

lemma write_chunks_transport:
  "write_chunks ds c = (r, c') \<Longrightarrow> transport c \<noteq> None \<Longrightarrow> transport c' \<noteq> None"
proof (induction ds arbitrary: c)
  case (Cons d ds)
  obtain r1 c1 where w: "write_chunk d c = (r1, c1)" by force
  then have "transport c1 \<noteq> None" using Cons.prems(2) by (rule write_chunk_transport)
  with w Cons show ?case by (cases r1) auto
qed simp

lemma frames_write_chunk [frame]: "frames c (write_chunk d c)"
  by (auto simp: write_chunk_def intro!: frame split: option.split)

lemma frames_write_chunks [frame]: "frames c (write_chunks ds c)"
  by (induction ds arbitrary: c) (auto intro!: frame)

section \<open>What a command sends and consumes\<close>

text \<open>
  From \<open>c\<close> to \<open>c'\<close> exactly the bytes \<open>w\<close> were written and exactly the bytes \<open>bs\<close> read; a step
  that only reads consumes.
\<close>

definition traded :: "nntp_connection \<Rightarrow> nntp_connection \<Rightarrow> bytes \<Rightarrow> bytes \<Rightarrow> bool" where
  "traded c c' w bs \<longleftrightarrow>
     (\<exists>t t' s. transport c = Some t \<and> transport c' = Some t' \<and> rx t = s @ rx t' \<and> item_bytes s = bs
        \<and> tx t' = tx t @ w)"

abbreviation consumed :: "nntp_connection \<Rightarrow> nntp_connection \<Rightarrow> bytes \<Rightarrow> bool" where
  "consumed c c' \<equiv> traded c c' []"

text \<open>
  A whole response: a status line and what must follow it, which the status code decides.  A status
  line that the end of the stream has cut is taken as it is; then nothing follows it.
\<close>

definition line_or_last :: "bytes \<Rightarrow> bytes \<Rightarrow> bool" where
  "line_or_last l rest \<longleftrightarrow> is_line l \<or> LF \<notin> set l \<and> rest = []"

definition response :: "(nat \<Rightarrow> bytes \<Rightarrow> bool) \<Rightarrow> bytes \<Rightarrow> bool" where
  "response tail bs \<longleftrightarrow>
     (\<exists>l st rest. bs = l @ rest \<and> line_or_last l rest \<and> parse_response_line l = Inr st
        \<and> tail (code st) rest)"

definition multi_line :: "nat set \<Rightarrow> nat \<Rightarrow> bytes \<Rightarrow> bool" where
  "multi_line B cd rest \<longleftrightarrow>
     (if cd \<in> B then \<exists>ws e. rest = concat ws @ e \<and> body_parse ws e else rest = [])"

text \<open>After 340 the article is sent and one more status line follows.\<close>

definition posting :: "nat \<Rightarrow> bytes \<Rightarrow> bool" where
  "posting cd rest \<longleftrightarrow>
     (if cd = 340 then line_or_last rest [] \<and> (\<exists>st. parse_response_line rest = Inr st) else rest = [])"

text \<open>
  A whole exchange: the command line \<open>cmd\<close>, the response to it, and what the client sends after the
  status line, which again the status code decides.
\<close>

definition dialogue ::
  "bytes \<Rightarrow> (nat \<Rightarrow> bytes) \<Rightarrow> (nat \<Rightarrow> bytes \<Rightarrow> bool) \<Rightarrow> bytes \<Rightarrow> bytes \<Rightarrow> bool" where
  "dialogue cmd follow tail w bs \<longleftrightarrow>
     (\<exists>l st rest. bs = l @ rest \<and> line_or_last l rest \<and> parse_response_line l = Inr st
        \<and> tail (code st) rest \<and> w = cmd @ crlf @ follow (code st))"

lemma dialogue_response: "dialogue cmd follow tail w bs \<Longrightarrow> response tail bs"
  unfolding dialogue_def response_def by blast

lemma dialogue_sends: "dialogue cmd follow tail w bs \<Longrightarrow> \<exists>w'. w = cmd @ crlf @ w'"
  unfolding dialogue_def by blast

lemma consumed_refl [simp]: "traded c c w [] \<longleftrightarrow> transport c \<noteq> None \<and> w = []"
  by (auto simp: traded_def)

lemma traded_trans: "traded a b v xs \<Longrightarrow> traded b c w ys \<Longrightarrow> traded a c (v @ w) (xs @ ys)"
  unfolding traded_def by (metis append.assoc item_bytes_append option.inject)

lemma consumed_trans: "traded a b w xs \<Longrightarrow> consumed b c ys \<Longrightarrow> traded a c w (xs @ ys)"
  using traded_trans [of a b w xs c "[]" ys] by simp

lemma traded_state [simp]:
  "traded (c\<lparr>state := s\<rparr>) c' w bs \<longleftrightarrow> traded c c' w bs" "traded c (c'\<lparr>state := s\<rparr>) w bs \<longleftrightarrow> traded c c' w bs"
  by (simp_all add: traded_def)

text \<open>A connection whose stream has ended.\<close>

definition drained :: "nntp_connection \<Rightarrow> bool" where
  "drained c \<longleftrightarrow> (\<exists>t. transport c = Some t \<and> rx t = [])"

lemma drained_consumed: "drained c \<Longrightarrow> traded c c' w bs \<Longrightarrow> bs = []"
  by (auto simp: drained_def traded_def)

definition reads_line :: "bytes \<Rightarrow> nntp_connection \<Rightarrow> nntp_response nntp_result \<times> nntp_connection \<Rightarrow> bool" where
  "reads_line w c p \<longleftrightarrow> (\<forall>st c'. p = (Inr st, c') \<longrightarrow>
     (\<exists>l. traded c c' w l \<and> (is_line l \<or> LF \<notin> set l \<and> drained c')
        \<and> parse_response_line l = Inr st))"

lemma reads_line_response: "reads_line [] c (read_response_line c)"
  unfolding reads_line_def
proof (intro allI impI)
  fix st c' assume r: "read_response_line c = (Inr st, c')"
  then obtain t where t: "transport c = Some t" by (auto simp: read_response_line_def split: option.splits)
  obtain res r1 w where ru: "read_until READ_LINE_TIMEOUT 0 (rx t) = (res, r1, w)" by (metis surj_pair)
  from r t ru obtain l where l: "res = ReadOk l" "parse_response_line l = Inr st"
      "transport c' = Some (t\<lparr>rx := r1\<rparr>)"
    by (auto simp: read_response_line_def tick_io_heartbeat_def Let_def split: read_outcome.splits if_splits)
  from read_until_sound [of READ_LINE_TIMEOUT 0 "rx t" l r1 w] ru l(1) obtain s
    where s: "rx t = s @ r1" "item_bytes s = l" and e: "is_line l \<or> LF \<notin> set l \<and> r1 = []" by auto
  from s l(3) t have "consumed c c' l" by (auto simp: traded_def)
  with e l(2,3) show "\<exists>l. consumed c c' l \<and> (is_line l \<or> LF \<notin> set l \<and> drained c')
      \<and> parse_response_line l = Inr st"
    by (auto simp: drained_def)
qed

lemma with_write_timeout_ok: "with_write_timeout limit x = Inr () \<longleftrightarrow> x = WrOk"
  by (cases x) (simp_all add: with_write_timeout_def)

lemma raw_write_sends: "raw_write limit d t = (Inr (), t') \<Longrightarrow> rx t' = rx t \<and> tx t' = tx t @ d"
  using raw_write_rx [of limit d t]
  by (auto simp: raw_write_def next_write_def with_write_timeout_ok split: prod.splits list.splits)

lemma transport_write_all_sends:
  assumes "transport_write_all limit d t = (Inr (), t')"
  shows "rx t' = rx t \<and> tx t' = tx t @ d"
proof -
  obtain r u where w: "raw_write limit d t = (r, u)" by force
  with assms have r: "r = Inr ()" and v: "raw_write limit [] u = (Inr (), t')"
    by (cases r; simp add: transport_write_all_def)+
  from raw_write_sends [OF w [unfolded r]] raw_write_sends [OF v] show ?thesis by simp
qed

lemma conn_write_traded:
  assumes "conn_write f c = (Inr (), c')"
    and "\<And>n t t'. f n t = (Inr (), t') \<Longrightarrow> rx t' = rx t \<and> tx t' = tx t @ w"
  shows "traded c c' w []"
proof -
  from assms(1) obtain t t' where t: "transport c = Some t" "f (write_timeout c) t = (Inr (), t')"
      "c' = c\<lparr>transport := Some t'\<rparr>"
    by (cases "fst (f (write_timeout c) (the (transport c)))")
      (auto simp: conn_write_def split: option.splits prod.splits)
  with assms(2) [OF t(2)] show ?thesis by (auto simp: traded_def)
qed

lemma send_command_traded:
  assumes "send_command cmd c = (Inr (), c')"
  shows "traded c c' (cmd @ crlf) []"
proof -
  obtain r c1 where w: "conn_write (\<lambda>limit. raw_write limit (cmd @ crlf)) c = (r, c1)" by force
  with assms have r: "r = Inr ()" and f: "conn_write (\<lambda>limit. raw_write limit []) c1 = (Inr (), c')"
    by (cases r; simp add: send_command_def send_command_no_flush_def flush_def)+
  have "traded c c1 (cmd @ crlf) []" using w [unfolded r] by (rule conn_write_traded) (rule raw_write_sends)
  moreover have "traded c1 c' [] []" using f by (rule conn_write_traded) (rule raw_write_sends)
  ultimately show ?thesis using consumed_trans by fastforce
qed

lemma write_chunks_traded:
  "write_chunks ds c = (Inr (), c') \<Longrightarrow> transport c \<noteq> None \<Longrightarrow> traded c c' (concat ds) []"
proof (induction ds arbitrary: c)
  case (Cons d ds)
  then obtain c1 where w: "write_chunk d c = (Inr (), c1)" "write_chunks ds c1 = (Inr (), c')"
    by (cases "write_chunk d c"; cases "fst (write_chunk d c)") auto
  then have "conn_write (\<lambda>limit. transport_write_all limit d) c = (Inr (), c1)"
    by (auto simp: write_chunk_def mark_error_def split: option.splits prod.splits sum.splits)
  then have "traded c c1 d []" by (rule conn_write_traded) (rule transport_write_all_sends)
  moreover have "traded c1 c' (concat ds) []"
    using Cons.IH [OF w(2)] Cons.prems(2) write_chunk_transport [OF w(1)] by simp
  ultimately show ?case using traded_trans by fastforce
qed auto

lemma mark_error_simps [simp]:
  "mark_error (Inr a, c) = (Inr a, c)" "mark_error (Inl e, c) = (Inl e, c\<lparr>state := Error\<rparr>)"
  by (simp_all add: mark_error_def)

lemma mark_error_ok [simp]: "mark_error p = (Inr a, c) \<longleftrightarrow> p = (Inr a, c)"
  by (auto simp: mark_error_def split: prod.splits sum.splits)

lemma exchange_reads: "reads_line (cmd @ crlf) c (exchange cmd c)"
  unfolding reads_line_def
proof (intro allI impI)
  fix st c' assume e: "exchange cmd c = (Inr st, c')"
  then obtain c1 where s: "send_command cmd c = (Inr (), c1)" and r: "read_response_line c1 = (Inr st, c')"
    unfolding exchange_def
    by (cases "send_command cmd c"; cases "fst (send_command cmd c)") auto
  from reads_line_response [of c1] r obtain l where
    "consumed c1 c' l" "is_line l \<or> LF \<notin> set l \<and> drained c'" "parse_response_line l = Inr st"
    unfolding reads_line_def by blast
  with traded_trans [OF send_command_traded [OF s]] show
    "\<exists>l. traded c c' (cmd @ crlf) l \<and> (is_line l \<or> LF \<notin> set l \<and> drained c') \<and> parse_response_line l = Inr st"
    by fastforce
qed

definition reads_body :: "nntp_connection \<Rightarrow> 'a nntp_result \<times> nntp_connection \<Rightarrow> bool" where
  "reads_body c p \<longleftrightarrow> (\<forall>d c'. p = (Inr d, c') \<longrightarrow>
     (\<exists>ws e. consumed c c' (concat ws @ e) \<and> body_parse ws e))"

lemma reads_body_into [frame]: "reads_body c (read_multiline_body_into_bounded mx c)"
  unfolding reads_body_def
proof (intro allI impI)
  fix d c' assume r: "read_multiline_body_into_bounded mx c = (Inr d, c')"
  then obtain t where t: "transport c = Some t"
    by (auto simp: read_multiline_body_into_bounded_def split: option.splits)
  from r t obtain r' t' hb' where
    b: "body_loop mx [] (rx t) (now c) (io_heartbeat c) = (Inr d, r', t', hb')"
      "transport c' = Some (t\<lparr>rx := r'\<rparr>)"
    by (auto simp: read_multiline_body_into_bounded_def split: prod.splits)
  from body_loop_sound [OF b(1)] t b(2) show "\<exists>ws e. consumed c c' (concat ws @ e) \<and> body_parse ws e"
    by (fastforce simp: traded_def)
qed

lemma consumed_checkout:
  "checkout_body_buffer c = (b, c1) \<Longrightarrow> consumed c1 c' bs \<Longrightarrow> consumed c c' bs"
  by (auto simp: checkout_body_buffer_def traded_def split: list.splits)

lemma reads_body_plain [frame]:
  "reads_body c (read_multiline_body c)" "reads_body c (read_multiline_body_bounded mx c)"
proof -
  obtain b c1 where c1: "checkout_body_buffer c = (b, c1)" by force
  show "reads_body c (read_multiline_body c)"
    using reads_body_into [of c1 None] consumed_checkout [OF c1]
    by (fastforce simp: read_multiline_body_def c1 reads_body_def)
qed (simp add: read_multiline_body_bounded_def reads_body_into)

lemma reads_body_bind:
  "reads_body c p \<Longrightarrow> (\<And>d c'. snd (k d c') = c') \<Longrightarrow> reads_body c (rbind p k)"
  unfolding reads_body_def
  by (cases p; cases "fst p") (auto, metis snd_conv)

lemma reads_body_mark [frame]: "reads_body c p \<Longrightarrow> reads_body c (mark_error p)"
  by (simp add: reads_body_def)

lemma reads_body_decompress [frame]:
  "reads_body c (read_multiline_body_maybe_decompress gz c)"
  "reads_body c (read_multiline_body_maybe_decompress_bounded gz mx c)"
  unfolding read_multiline_body_maybe_decompress_def read_multiline_body_maybe_decompress_bounded_def
  by (auto intro!: reads_body_bind frame simp: Let_def split: prod.split option.split)

lemma reads_body_limited [frame]: "reads_body c (read_limited gz lim c)"
  by (auto simp: read_limited_def intro: frame split: option.split)

end
