(* ===== verification/Contract.thy ===== *)
theory Contract
  imports Command_Laws "HOL-Library.Sublist"
begin

text \<open>
  The contract of the command methods as a locale, its consequences for sequences of commands, and
  the proof that the commands of the model keep it.
\<close>

section \<open>Ending in step with the server\<close>

definition tail_synced ::
  "bytes \<Rightarrow> (bytes \<Rightarrow> bool) \<Rightarrow> nntp_connection \<Rightarrow> 'a nntp_result \<times> nntp_connection \<Rightarrow> bool" where
  "tail_synced w P c p \<longleftrightarrow> (state (snd p) = Ready \<longrightarrow> (\<exists>bs. traded c (snd p) w bs \<and> P bs))"

definition synced ::
  "bytes \<Rightarrow> (nat \<Rightarrow> bytes) \<Rightarrow> (nat \<Rightarrow> bytes \<Rightarrow> bool) \<Rightarrow> nntp_connection
     \<Rightarrow> 'a nntp_result \<times> nntp_connection \<Rightarrow> bool" where
  "synced cmd follow tail c p \<longleftrightarrow>
     (state (snd p) = Ready \<longrightarrow>
        snd p = c \<and> isl (fst p)
        \<or> (\<exists>w bs. traded c (snd p) w bs \<and> dialogue cmd follow tail w bs))"

text \<open>Most commands send their line only.\<close>

abbreviation nothing :: "nat \<Rightarrow> bytes" where
  "nothing \<equiv> (\<lambda>_. [])"

named_theorems sync \<open>rules for what a command sends and consumes\<close>

lemma synced_exchange [sync]:
  assumes "\<And>st c1. transport c1 \<noteq> None \<Longrightarrow> tail_synced (follow (code st)) (tail (code st)) c1 (k st c1)"
  shows "synced cmd follow tail c (rbind (exchange cmd (c\<lparr>state := Busy\<rparr>)) k)"
proof (cases "exchange cmd (c\<lparr>state := Busy\<rparr>)")
  case (Pair r c1)
  show ?thesis
  proof (cases r)
    case (Inl e)
    with Pair fails_closed_exchange [of cmd "c\<lparr>state := Busy\<rparr>"] show ?thesis
      by (simp add: fails_closed_def synced_def)
  next
    case (Inr st)
    with Pair exchange_reads [of cmd "c\<lparr>state := Busy\<rparr>"] obtain l where
      l: "traded c c1 (cmd @ crlf) l" "is_line l \<or> LF \<notin> set l \<and> drained c1" "parse_response_line l = Inr st"
      by (auto simp: reads_line_def)
    from Pair Inr have "transport c1 \<noteq> None" using exchange_transport by metis
    note tl = assms [OF this, of st]
    show ?thesis unfolding synced_def
    proof (intro impI disjI2)
      let ?p = "rbind (exchange cmd (c\<lparr>state := Busy\<rparr>)) k"
      assume s: "state (snd ?p) = Ready"
      with tl Pair Inr obtain bs where
        bs: "traded c1 (snd (k st c1)) (follow (code st)) bs" "tail (code st) bs"
        by (auto simp: tail_synced_def)
      moreover from this l(2) drained_consumed [of c1] have "line_or_last l bs"
        by (auto simp: line_or_last_def)
      moreover have "traded c (snd ?p) ((cmd @ crlf) @ follow (code st)) (l @ bs)"
        using Pair Inr traded_trans [OF l(1) bs(1)] by simp
      ultimately show "\<exists>w bs. traded c (snd ?p) w bs \<and> dialogue cmd follow tail w bs"
        using l(3) unfolding dialogue_def by fastforce
    qed
  qed
qed

lemma synced_if [sync]:
  "synced cmd follow tail c p \<Longrightarrow> synced cmd follow tail c q
    \<Longrightarrow> synced cmd follow tail c (if b then p else q)"
  by simp

lemma synced_const [sync]: "synced cmd follow tail c (Inl e, c)"
  by (simp add: synced_def)

lemma tail_if [sync]:
  "(b \<Longrightarrow> tail_synced w P c p) \<Longrightarrow> (\<not> b \<Longrightarrow> tail_synced w P c q)
    \<Longrightarrow> tail_synced w P c (if b then p else q)"
  by simp

lemma tail_error [sync]: "tail_synced w P c (finish Error r c')"
  by (simp add: tail_synced_def finish_def)

lemma tail_ready [sync]:
  "transport c \<noteq> None \<Longrightarrow> w = [] \<Longrightarrow> P [] \<Longrightarrow> tail_synced w P c (finish Ready r c)"
  by (auto simp: tail_synced_def finish_def intro!: exI [of _ "[]"])

lemma tail_body [sync]:
  assumes "reads_body c p" and "fails_closed p" and "w = []"
    and "\<And>ws e. body_parse ws e \<Longrightarrow> P (concat ws @ e)"
    and "\<And>d c'. transport (snd (k d c')) = transport c'"
  shows "tail_synced w P c (rbind p k)"
proof (cases p)
  case (Pair r c1)
  show ?thesis
  proof (cases r)
    case (Inl e)
    with Pair assms(2) show ?thesis by (simp add: fails_closed_def tail_synced_def)
  next
    case (Inr d)
    with Pair assms(1) obtain ws e where "consumed c c1 (concat ws @ e)" "body_parse ws e"
      by (auto simp: reads_body_def)
    with Pair Inr assms(3) assms(4) [of ws e] assms(5) [of d c1] show ?thesis
      by (auto simp: tail_synced_def traded_def)
  qed
qed

lemma finish_transport [simp]: "transport (snd (finish s r c)) = transport c"
  by (simp add: finish_def)

lemma multi_line_simps [simp]:
  "cd \<in> B \<Longrightarrow> body_parse ws e \<Longrightarrow> multi_line B cd (concat ws @ e)"
  "cd \<notin> B \<Longrightarrow> multi_line B cd []"
  by (auto simp: multi_line_def)

lemma synced_map_result [sync]:
  "synced cmd follow tail c (map_result f p) \<longleftrightarrow> synced cmd follow tail c p"
  by (cases "fst p") (simp_all add: synced_def map_result_def)

lemma settled_map_result [settle]: "settled_as Q (map_result f p) \<longleftrightarrow> settled_as (\<lambda>a. Q (f a)) p"
  by (cases p; cases "fst p") (auto simp: settled_as_def map_result_def)

lemma frames_map_result [frame]: "frames c (map_result f p) \<longleftrightarrow> frames c p"
  by (simp add: frames_def map_result_def)

section \<open>The commands keep it\<close>

text \<open>The command lines that depend on more than the arguments.\<close>

definition body_line :: "nntp_capabilities \<Rightarrow> bytes \<Rightarrow> bytes" where
  "body_line caps mid =
     (if \<not> have_body caps \<and> have_article caps then ''ARTICLE '' else ''BODY '') @ normalize_message_id mid"

definition list_active_line :: "bytes option \<Rightarrow> bytes" where
  "list_active_line wildmat = (case wildmat of
     Some pattern \<Rightarrow> ''LIST ACTIVE '' @ pattern | None \<Rightarrow> ''LIST ACTIVE'')"

lemma fetch_article_keeps:
  "synced (''ARTICLE '' @ normalize_message_id mid) nothing (multi_line {220}) c
     (fetch_article gz mid c)"
  "state c = Ready \<Longrightarrow> settled (fetch_article gz mid c)"
  "frames c (fetch_article gz mid c)"
  unfolding fetch_article_def Let_def by (intro sync frame settle; simp add: parse_overview_format_recoverable)+

lemma fetch_head_number_keeps:
  "synced (''HEAD '' @ show_nat n) nothing (multi_line {221}) c (fetch_head_number gz n m c)"
  "state c = Ready \<Longrightarrow> settled (fetch_head_number gz n m c)"
  "frames c (fetch_head_number gz n m c)"
  unfolding fetch_head_number_def Let_def by (intro sync frame settle; simp add: parse_overview_format_recoverable)+

lemma fetch_body_command_keeps:
  "synced (''BODY '' @ normalize_message_id mid) nothing (multi_line {222}) c
     (fetch_body_command gz mid c)"
  "state c = Ready \<Longrightarrow> settled (fetch_body_command gz mid c)"
  "frames c (fetch_body_command gz mid c)"
  unfolding fetch_body_command_def Let_def by (intro sync frame settle; simp add: parse_overview_format_recoverable)+

lemma stat_article_keeps:
  "synced (''STAT '' @ normalize_message_id mid) nothing (multi_line {}) c (stat_article mid c)"
  "state c = Ready \<Longrightarrow> settled (stat_article mid c)"
  "frames c (stat_article mid c)"
  unfolding stat_article_def Let_def by (intro sync frame settle; simp add: parse_overview_format_recoverable)+

lemma ping_keeps:
  "synced ''DATE'' nothing (multi_line {}) c (ping  c)"
  "state c = Ready \<Longrightarrow> settled (ping  c)"
  "frames c (ping  c)"
  unfolding ping_def Let_def by (intro sync frame settle; simp add: parse_overview_format_recoverable)+

lemma get_overview_format_keeps:
  "synced ''LIST OVERVIEW.FMT'' nothing (multi_line {215}) c (get_overview_format gz c)"
  "state c = Ready \<Longrightarrow> settled (get_overview_format gz c)"
  "frames c (get_overview_format gz c)"
  unfolding get_overview_format_def Let_def by (intro sync frame settle; simp add: parse_overview_format_recoverable)+

lemma xover_lossless_with_limit_keeps:
  "synced (''XOVER '' @ show_nat a @ ''-'' @ show_nat b) nothing (multi_line {224}) c
     (xover_lossless_with_limit gz a b fmt lim c)"
  "state c = Ready \<Longrightarrow> settled (xover_lossless_with_limit gz a b fmt lim c)"
  "frames c (xover_lossless_with_limit gz a b fmt lim c)"
  unfolding xover_lossless_with_limit_def Let_def by (intro sync frame settle; simp add: parse_overview_format_recoverable)+

lemma xover_keeps:
  "synced (''XOVER '' @ show_nat a @ ''-'' @ show_nat b) nothing (multi_line {224}) c
     (xover gz a b c)"
  "state c = Ready \<Longrightarrow> settled (xover gz a b c)"
  "frames c (xover gz a b c)"
  unfolding xover_def Let_def by (intro sync frame settle; simp add: parse_overview_format_recoverable)+

lemma xhdr_keeps:
  "synced (''XHDR '' @ hd_name @ '' '' @ to_command_arg rng) nothing (multi_line {221}) c
     (xhdr gz hd_name rng c)"
  "state c = Ready \<Longrightarrow> settled (xhdr gz hd_name rng c)"
  "frames c (xhdr gz hd_name rng c)"
  unfolding xhdr_def Let_def by (intro sync frame settle; simp add: parse_overview_format_recoverable)+

lemma xpat_with_limit_keeps:
  "synced (''XPAT '' @ hd_name @ '' '' @ to_command_arg rng @ '' '' @ join '' '' pats) nothing (multi_line {221}) c
     (xpat_with_limit gz hd_name rng pats lim c)"
  "state c = Ready \<Longrightarrow> settled (xpat_with_limit gz hd_name rng pats lim c)"
  "frames c (xpat_with_limit gz hd_name rng pats lim c)"
  unfolding xpat_with_limit_def Let_def by (intro sync frame settle; simp add: parse_overview_format_recoverable)+

lemma list_active_keeps:
  "synced (list_active_line wm) nothing (multi_line {215}) c (list_active gz wm c)"
  "state c = Ready \<Longrightarrow> settled (list_active gz wm c)"
  "frames c (list_active gz wm c)"
  unfolding list_active_def list_active_line_def Let_def by (intro sync frame settle; simp add: parse_overview_format_recoverable)+

lemma fetch_body_keeps:
  "state c = Ready \<Longrightarrow> settled (fetch_body gz mid c)"
  "frames c (fetch_body gz mid c)"
proof -
  have s: "settled (rbind p (\<lambda>a c. (Inr (f a), c)))" if "settled p" for p and f :: "'a \<Rightarrow> 'b"
    using that by (cases p; cases "fst p") (auto simp: settled_as_def)
  show "state c = Ready \<Longrightarrow> settled (fetch_body gz mid c)"
    by (simp add: fetch_body_def s fetch_article_keeps fetch_body_command_keeps)
  show "frames c (fetch_body gz mid c)"
    unfolding fetch_body_def by (intro frame fetch_article_keeps fetch_body_command_keeps)
qed

lemma fetch_body_synced:
  "synced (body_line (capabilities c) mid) nothing (multi_line {220, 222}) c (fetch_body gz mid c)"
proof -
  have s: "synced cmd follow tail c (rbind p (\<lambda>a c. (Inr (f a), c)))" if "synced cmd follow tail c p"
    for cmd follow tail p and f :: "'a \<Rightarrow> 'b"
    using that by (cases p; cases "fst p") (auto simp: synced_def)
  show ?thesis
  proof (cases "\<not> have_body (capabilities c) \<and> have_article (capabilities c)")
    case True
    then have l: "body_line (capabilities c) mid = ''ARTICLE '' @ normalize_message_id mid"
      by (simp add: body_line_def)
    show ?thesis unfolding l fetch_body_def if_P [OF True] fetch_article_def Let_def
      by (intro s sync frame settle; auto)
  next
    case False
    then have l: "body_line (capabilities c) mid = ''BODY '' @ normalize_message_id mid"
      by (auto simp: body_line_def)
    show ?thesis unfolding l fetch_body_def if_not_P [OF False] fetch_body_command_def Let_def
      by (intro sync frame settle; auto)
  qed
qed

lemma group_command_keeps:
  "synced (''GROUP '' @ nm) nothing (multi_line {}) c (group_command nm c)"
  "state c = Ready \<Longrightarrow> settled (group_command nm c)"
  "frames c (group_command nm c)"
proof -
  have f: "(r, c\<lparr>state := Ready\<rparr>) = finish Ready r c" for r :: "group_response nntp_result" and c
    by (simp add: finish_def)
  have g: "finish s r (c\<lparr>state := s'\<rparr>) = finish s r c" for s r s' and c
    by (simp add: finish_def)
  have p: "parse_group_message nm m = Inl e \<Longrightarrow> recoverable e" for m e
    by (auto simp: parse_group_message_def Let_def split: if_splits option.splits)
  show "synced (''GROUP '' @ nm) nothing (multi_line {}) c (group_command nm c)"
    "state c = Ready \<Longrightarrow> settled (group_command nm c)"
    "frames c (group_command nm c)"
    unfolding group_command_def Let_def f g by (intro sync frame settle; simp add: p)+
qed

lemma read_prefix_complete:
  assumes "read_multiline_body_prefix m c = (Inr p, c')" and "complete p"
  shows "\<exists>ws e. consumed c c' (concat ws @ e) \<and> body_parse ws e"
proof -
  from assms(1) obtain t where t: "transport c = Some t"
    by (auto simp: read_multiline_body_prefix_def split: option.splits)
  obtain res r' t' hb' where pl: "prefix_loop m [] (rx t) (now c) (io_heartbeat c) = (res, r', t', hb')"
    by (metis surj_pair)
  with assms(1) t have "res = Inr p" and c': "transport c' = Some (t\<lparr>rx := r'\<rparr>)"
    by (auto simp: read_multiline_body_prefix_def)
  with pl assms(2) have "body_loop None [] (rx t) (now c) (io_heartbeat c) = (Inr (prefix_data p), r', t', hb')"
    by (simp add: prefix_loop_complete)
  from body_loop_sound [OF this] t c' show ?thesis by (fastforce simp: traded_def)
qed

lemma tail_prefix [sync]:
  assumes "w = []" and "\<And>ws e. body_parse ws e \<Longrightarrow> P (concat ws @ e)"
  shows "tail_synced w P c (rbind (mark_error (read_multiline_body_prefix m c)) (\<lambda>prefix c.
           if complete prefix then finish Ready (Inr prefix) c
           else (Inr prefix, c\<lparr>transport := None, compress_enabled := False, state := Disconnected\<rparr>)))"
proof (cases "read_multiline_body_prefix m c")
  case (Pair r c1)
  with assms read_prefix_complete [of m c _ c1] show ?thesis
    by (cases r) (fastforce simp: tail_synced_def finish_def)+
qed

lemma frames_closed [frame]:
  "frames c (r, c\<lparr>transport := None, compress_enabled := False, state := Disconnected\<rparr>)"
  by (simp add: frames_def same_session_def)

lemma fetch_body_prefix_keeps:
  "synced (''BODY '' @ normalize_message_id mid) nothing (multi_line {222}) c
     (fetch_body_prefix mid m c)"
  "state c = Ready \<Longrightarrow> settled_as (\<lambda>p. \<not> complete p) (fetch_body_prefix mid m c)"
  "frames c (fetch_body_prefix mid m c)"
  unfolding fetch_body_prefix_def Let_def by (intro sync frame settle; simp)+

lemma tail_post [sync]:
  assumes "transport c \<noteq> None" and "w = concat ds"
    and "\<And>l st. line_or_last l [] \<Longrightarrow> parse_response_line l = Inr st \<Longrightarrow> P l"
  shows "tail_synced w P c (rbind (write_chunks ds c) (\<lambda>_ c.
           rbind (mark_error (read_response_line c)) (\<lambda>res c. finish Ready (Inr res) c)))"
proof -
  obtain r1 c1 where 1: "write_chunks ds c = (r1, c1)" by force
  obtain r2 c2 where 2: "read_response_line c1 = (r2, c2)" by force
  note fails = fails_closed_write_chunks [OF assms(1), of ds]
  show ?thesis
  proof (cases "\<exists>st. r1 = Inr () \<and> r2 = Inr st")
    case True
    then obtain st where r: "r1 = Inr ()" "r2 = Inr st" by auto
    with 2 reads_line_response [of c1] obtain l where
      l: "consumed c1 c2 l" "line_or_last l []" "parse_response_line l = Inr st"
      by (auto simp: reads_line_def line_or_last_def)
    have "traded c c2 w l"
      using consumed_trans [OF write_chunks_traded [OF 1 [unfolded r(1)] assms(1)] l(1)] assms(2) by simp
    with assms(3) [OF l(2,3)] 1 2 r show ?thesis by (auto simp: tail_synced_def finish_def)
  next
    case False
    with 1 2 fails show ?thesis
      by (cases r1; cases r2) (auto simp: tail_synced_def fails_closed_def)
  qed
qed

lemma post_settled:
  assumes "transport c \<noteq> None"
  shows "settled (rbind (write_chunks ds c) (\<lambda>_ c.
           rbind (mark_error (read_response_line c)) (\<lambda>res c. finish Ready (Inr res) c)))"
  using assms by (intro settle fails_closed_write_chunks) simp_all

text \<open>The article follows the status line 340.\<close>

definition article_after :: "bytes list \<Rightarrow> nat \<Rightarrow> bytes" where
  "article_after chunks cd = (if cd = 340 then concat chunks @ terminator else [])"

lemma article_after_simps [simp]:
  "cd = 340 \<Longrightarrow> article_after ds cd = concat ds @ terminator" "cd \<noteq> 340 \<Longrightarrow> article_after ds cd = []"
  by (simp_all add: article_after_def)

lemma post_chunks_synced: "synced ''POST'' (article_after ds) posting c (post_chunks ds c)"
  unfolding post_chunks_def write_chunks_snoc by (intro sync) (auto simp: posting_def)

lemma post_chunks_settled: "state c = Ready \<Longrightarrow> settled (post_chunks ds c)"
  unfolding post_chunks_def write_chunks_snoc
  by (intro settle post_settled exchange_transport) simp_all

lemma post_chunks_frames: "frames c (post_chunks ds c)"
  unfolding post_chunks_def by (intro frame)

lemmas post_chunks_keeps = post_chunks_synced post_chunks_settled post_chunks_frames

section \<open>The contract\<close>

text \<open>
  What a provider of commands promises: \<open>line\<close> is the command line of each command, \<open>follow\<close> what the
  client sends after the status line, \<open>tail\<close> what the server sends after it, and \<open>drops\<close> says when
  a command that succeeds closes the connection.
\<close>

locale command_contract =
  fixes run :: "'i \<Rightarrow> nntp_connection \<Rightarrow> 'a nntp_result \<times> nntp_connection"
    and line :: "nntp_capabilities \<Rightarrow> 'i \<Rightarrow> bytes"
    and follow :: "'i \<Rightarrow> nat \<Rightarrow> bytes"
    and tail :: "'i \<Rightarrow> nat \<Rightarrow> bytes \<Rightarrow> bool"
    and drops :: "'i \<Rightarrow> nntp_connection \<Rightarrow> bool"
  assumes refused: "state c \<noteq> Ready \<Longrightarrow> snd (run i c) = c \<and> isl (fst (run i c))"
    and settles: "state c = Ready \<Longrightarrow> settled_as (\<lambda>_. drops i c) (run i c)"
    and in_step: "synced (line (capabilities c) i) (follow i) (tail i) c (run i c)"
    and kept: "frames c (run i c)"
begin

abbreviation session :: "'i list \<Rightarrow> nntp_connection \<Rightarrow> nntp_connection" where
  "session is c \<equiv> fold (\<lambda>i c. snd (run i c)) is c"

lemma session_refused: "state c \<noteq> Ready \<Longrightarrow> session is c = c"
  by (induction "is") (simp_all add: refused)

lemma run_state:
  "state c = Ready \<Longrightarrow> state (snd (run i c)) \<in> {Ready, Error, Disconnected}"
  using settles [of c i] by (auto simp: settled_as_def split: prod.splits sum.splits if_splits)

lemma run_error:
  assumes "state c = Ready" and "run i c = (Inl e, c')" and "\<not> recoverable e"
  shows "state c' = Error"
  using settles [OF assms(1), of i] assms(2,3) by (simp add: settled_as_def)

lemma session_state:
  "state c \<in> {Ready, Error, Disconnected} \<Longrightarrow> state (session is c) \<in> {Ready, Error, Disconnected}"
proof (induction "is" arbitrary: c)
  case (Cons i "is")
  then show ?case using run_state [of c i] refused [of c i] by (cases "state c = Ready") auto
qed simp

lemma session_kept: "same_session c (session is c)"
proof (induction "is" arbitrary: c)
  case (Cons i "is")
  from kept [of c i] Cons [of "snd (run i c)"] show ?case
    by (auto simp: frames_def intro: same_session_trans)
qed simp

text \<open>
  A session that ends \<open>Ready\<close> is, on the wire, the exchanges of some of its commands, in order: of each
  its command line, what follows it and the whole response, and nothing else in either direction.
\<close>

definition exchanges ::
  "nntp_capabilities \<Rightarrow> 'i list \<Rightarrow> (bytes \<times> bytes) list \<Rightarrow> bool" where
  "exchanges caps js ds \<longleftrightarrow> list_all2 (\<lambda>j (w, bs). dialogue (line caps j) (follow j) (tail j) w bs) js ds"

definition answered :: "'i list \<Rightarrow> nntp_connection \<Rightarrow> nntp_connection \<Rightarrow> bool" where
  "answered is c c' \<longleftrightarrow>
     c' = c \<or> (\<exists>js ds. subseq js is \<and> exchanges (capabilities c) js ds
                   \<and> traded c c' (concat (map fst ds)) (concat (map snd ds)))"

lemma answered_step:
  assumes "c1 = c \<or> (\<exists>w bs. traded c c1 w bs \<and> dialogue (line (capabilities c) i) (follow i) (tail i) w bs)"
    and "answered is c1 c'" and "capabilities c1 = capabilities c"
  shows "answered (i # is) c c'"
proof (cases "c' = c \<or> c1 = c")
  case True
  then show ?thesis
  proof
    assume "c1 = c"
    with assms(2) show ?thesis by (auto simp: answered_def intro: list_emb_Cons)
  qed (simp add: answered_def)
next
  case False
  with assms(1) obtain w bs where
    bs: "traded c c1 w bs" "dialogue (line (capabilities c) i) (follow i) (tail i) w bs" by blast
  have step: "answered (i # is) c c'"
    if "subseq js is" "exchanges (capabilities c) js ds"
      "traded c c' (w @ concat (map fst ds)) (bs @ concat (map snd ds))" for js ds
    unfolding answered_def using that bs(2)
    by (intro disjI2 exI [of _ "i # js"] exI [of _ "(w, bs) # ds"]) (auto simp: exchanges_def)
  from assms(2) show ?thesis unfolding answered_def [of "is"]
  proof (elim disjE exE conjE)
    assume "c' = c1"
    with bs(1) show ?thesis by (intro step [of "[]" "[]"]) (simp_all add: exchanges_def)
  next
    fix js ds
    assume "subseq js is" "exchanges (capabilities c1) js ds"
      "traded c1 c' (concat (map fst ds)) (concat (map snd ds))"
    with assms(3) traded_trans [OF bs(1)] show ?thesis by (intro step [of js ds]) simp_all
  qed
qed

lemma session_answered: "state (session is c) = Ready \<Longrightarrow> answered is c (session is c)"
proof (induction "is" arbitrary: c)
  case (Cons i "is")
  let ?d = "snd (run i c)"
  from Cons.prems have sd: "state (session is ?d) = Ready" by simp
  then have "state ?d = Ready" using session_refused [of ?d "is"] by metis
  then have "?d = c \<or> (\<exists>w bs. traded c ?d w bs \<and> dialogue (line (capabilities c) i) (follow i) (tail i) w bs)"
    using in_step [of c i] unfolding synced_def by blast
  moreover have "capabilities ?d = capabilities c" using kept [of c i] by (simp add: frames_def same_session_def)
  ultimately show ?case using answered_step [OF _ Cons.IH [OF sd]] by simp
qed (simp add: answered_def)

end

section \<open>The commands of the connection\<close>

datatype command =
    Article bytes
  | Head nat nat
  | Body bytes
  | Body_Prefix bytes nat
  | Stat bytes
  | Date
  | Group bytes
  | Overview_Fmt
  | Xover_Lossless nat nat overview_format
  | Xover_Lossless_Bounded nat nat overview_format nat
  | Xover nat nat
  | Xhdr bytes article_range
  | Xpat bytes article_range "bytes list"
  | Xpat_Bounded bytes article_range "bytes list" nat
  | List_Active "bytes option"
  | Post bytes
  | Post_Bytes bytes

fun run_command :: "gunzip \<Rightarrow> command \<Rightarrow> nntp_connection \<Rightarrow> unit nntp_result \<times> nntp_connection" where
  "run_command gz (Article mid) c = map_result (\<lambda>_. ()) (fetch_article gz mid c)"
| "run_command gz (Head n m) c = map_result (\<lambda>_. ()) (fetch_head_number gz n m c)"
| "run_command gz (Body mid) c = map_result (\<lambda>_. ()) (fetch_body gz mid c)"
| "run_command gz (Body_Prefix mid m) c = map_result (\<lambda>_. ()) (fetch_body_prefix mid m c)"
| "run_command gz (Stat mid) c = map_result (\<lambda>_. ()) (stat_article mid c)"
| "run_command gz Date c = ping c"
| "run_command gz (Group nm) c = map_result (\<lambda>_. ()) (group_command nm c)"
| "run_command gz Overview_Fmt c = map_result (\<lambda>_. ()) (get_overview_format gz c)"
| "run_command gz (Xover_Lossless a b fmt) c = map_result (\<lambda>_. ()) (xover_lossless gz a b fmt c)"
| "run_command gz (Xover_Lossless_Bounded a b fmt m) c =
     map_result (\<lambda>_. ()) (xover_lossless_bounded gz a b fmt m c)"
| "run_command gz (Xover a b) c = map_result (\<lambda>_. ()) (xover gz a b c)"
| "run_command gz (Xhdr h rng) c = map_result (\<lambda>_. ()) (xhdr gz h rng c)"
| "run_command gz (Xpat h rng ps) c = map_result (\<lambda>_. ()) (xpat gz h rng ps c)"
| "run_command gz (Xpat_Bounded h rng ps m) c = map_result (\<lambda>_. ()) (xpat_bounded gz h rng ps m c)"
| "run_command gz (List_Active w) c = map_result (\<lambda>_. ()) (list_active gz w c)"
| "run_command gz (Post art) c = map_result (\<lambda>_. ()) (post_article art c)"
| "run_command gz (Post_Bytes art) c = map_result (\<lambda>_. ()) (post_article_bytes art c)"

text \<open>The command line of each command, and what the client sends once it is answered.\<close>

fun command_line :: "nntp_capabilities \<Rightarrow> command \<Rightarrow> bytes" where
  "command_line caps (Article mid) = ''ARTICLE '' @ normalize_message_id mid"
| "command_line caps (Head n _) = ''HEAD '' @ show_nat n"
| "command_line caps (Body mid) = body_line caps mid"
| "command_line caps (Body_Prefix mid _) = ''BODY '' @ normalize_message_id mid"
| "command_line caps (Stat mid) = ''STAT '' @ normalize_message_id mid"
| "command_line caps Date = ''DATE''"
| "command_line caps (Group nm) = ''GROUP '' @ nm"
| "command_line caps Overview_Fmt = ''LIST OVERVIEW.FMT''"
| "command_line caps (Xover_Lossless a b _) = ''XOVER '' @ show_nat a @ ''-'' @ show_nat b"
| "command_line caps (Xover_Lossless_Bounded a b _ _) = ''XOVER '' @ show_nat a @ ''-'' @ show_nat b"
| "command_line caps (Xover a b) = ''XOVER '' @ show_nat a @ ''-'' @ show_nat b"
| "command_line caps (Xhdr h rng) = ''XHDR '' @ h @ '' '' @ to_command_arg rng"
| "command_line caps (Xpat h rng ps) =
     ''XPAT '' @ h @ '' '' @ to_command_arg rng @ '' '' @ join '' '' ps"
| "command_line caps (Xpat_Bounded h rng ps _) =
     ''XPAT '' @ h @ '' '' @ to_command_arg rng @ '' '' @ join '' '' ps"
| "command_line caps (List_Active wm) = list_active_line wm"
| "command_line caps (Post _) = ''POST''"
| "command_line caps (Post_Bytes _) = ''POST''"

fun sent_after :: "command \<Rightarrow> nat \<Rightarrow> bytes" where
  "sent_after (Post art) = article_after (map text_line_chunk (str_lines art))"
| "sent_after (Post_Bytes art) = article_after (concat (map byte_line_chunks (byte_lines art)))"
| "sent_after _ = nothing"

text \<open>A BODY prefix that succeeds without the whole body closes the connection.\<close>

fun cuts_body :: "command \<Rightarrow> nntp_connection \<Rightarrow> bool" where
  "cuts_body (Body_Prefix mid m) c =
     (case fst (fetch_body_prefix mid m c) of Inr p \<Rightarrow> \<not> complete p | Inl _ \<Rightarrow> False)"
| "cuts_body _ c = False"

text \<open>What follows the status line of each command.\<close>

fun reply_tail :: "command \<Rightarrow> nat \<Rightarrow> bytes \<Rightarrow> bool" where
  "reply_tail (Article _) = multi_line {220}"
| "reply_tail (Head _ _) = multi_line {221}"
| "reply_tail (Body _) = multi_line {220, 222}"
| "reply_tail (Body_Prefix _ _) = multi_line {222}"
| "reply_tail (Stat _) = multi_line {}"
| "reply_tail Date = multi_line {}"
| "reply_tail (Group _) = multi_line {}"
| "reply_tail Overview_Fmt = multi_line {215}"
| "reply_tail (Xover_Lossless _ _ _) = multi_line {224}"
| "reply_tail (Xover_Lossless_Bounded _ _ _ _) = multi_line {224}"
| "reply_tail (Xover _ _) = multi_line {224}"
| "reply_tail (Xhdr _ _) = multi_line {221}"
| "reply_tail (Xpat _ _ _) = multi_line {221}"
| "reply_tail (Xpat_Bounded _ _ _ _) = multi_line {221}"
| "reply_tail (List_Active _) = multi_line {215}"
| "reply_tail (Post _) = posting"
| "reply_tail (Post_Bytes _) = posting"

lemmas command_keeps =
  fetch_article_keeps fetch_head_number_keeps fetch_body_keeps fetch_body_synced
  fetch_body_prefix_keeps stat_article_keeps ping_keeps group_command_keeps
  get_overview_format_keeps xover_lossless_with_limit_keeps xover_keeps xhdr_keeps
  xpat_with_limit_keeps list_active_keeps post_chunks_keeps

lemmas wrapper_defs =
  xover_lossless_def xover_lossless_bounded_def xpat_def xpat_bounded_def post_article_def
  post_article_bytes_def

lemma map_result_refused [simp]:
  "snd (map_result f p) = snd p" "isl (fst (map_result f p)) = isl (fst p)"
  by (cases p; cases "fst p"; simp add: map_result_def)+

lemma run_command_refused:
  "state c \<noteq> Ready \<Longrightarrow> snd (run_command gz i c) = c \<and> isl (fst (run_command gz i c))"
  by (cases i) (simp_all add: wrapper_defs fetch_article_def fetch_head_number_def fetch_body_def
      fetch_body_command_def fetch_body_prefix_def stat_article_def ping_def group_command_def
      get_overview_format_def xover_lossless_with_limit_def xover_def xhdr_def xpat_with_limit_def
      list_active_def post_chunks_def)

lemma settled_as_value: "settled_as Q p \<Longrightarrow> (\<And>a. fst p = Inr a \<Longrightarrow> d = Q a) \<Longrightarrow> settled_as (\<lambda>_. d) p"
  by (cases p; cases "fst p") (auto simp: settled_as_def)

lemma run_command_settled: "state c = Ready \<Longrightarrow> settled_as (\<lambda>_. cuts_body i c) (run_command gz i c)"
proof (cases i)
  case (Body_Prefix mid m)
  assume "state c = Ready"
  then have "settled_as (\<lambda>p. \<not> complete p) (fetch_body_prefix mid m c)" by (rule fetch_body_prefix_keeps)
  then have "settled_as (\<lambda>_. cuts_body i c) (fetch_body_prefix mid m c)"
    by (rule settled_as_value) (simp add: Body_Prefix)
  then show ?thesis by (simp add: Body_Prefix settled_map_result)
qed (simp_all add: wrapper_defs command_keeps settle)

lemma run_command_synced:
  "synced (command_line (capabilities c) i) (sent_after i) (reply_tail i) c (run_command gz i c)"
  by (cases i) (simp_all add: wrapper_defs command_keeps sync del: append.simps)

lemma run_command_frames: "frames c (run_command gz i c)"
  by (cases i) (simp_all add: wrapper_defs command_keeps frame)

interpretation commands: command_contract "run_command gz" command_line sent_after reply_tail cuts_body for gz
  by unfold_locales
    (simp_all add: run_command_refused run_command_settled run_command_synced run_command_frames)

text \<open>A run of commands on one connection.\<close>

definition run_session :: "gunzip \<Rightarrow> command list \<Rightarrow> nntp_connection \<Rightarrow> nntp_connection" where
  "run_session gz is c = fold (\<lambda>i c. snd (run_command gz i c)) is c"

end
