(* ===== verification/Protocol_Properties.thy ===== *)
theory Protocol_Properties
  imports Contract Wire_Laws
begin

text \<open>
  The properties of the wire protocol: body framing, the byte bound, the prefix reader, the exact
  course of an \<open>ARTICLE\<close> and of a \<open>POST\<close>, and what holds of every sequence of commands.
\<close>

section \<open>Exact runs\<close>

lemma send_command_ok:
  "transport c = Some tr \<Longrightarrow> wr tr = [] \<Longrightarrow>
     send_command cmd c = (Inr (), c\<lparr>transport := Some (tr\<lparr>tx := tx tr @ cmd @ crlf\<rparr>)\<rparr>)"
  by (simp add: send_command_def send_command_no_flush_def flush_def conn_write_def)

lemma read_response_line_ok:
  assumes "transport c = Some tr" and "rx tr = s @ r" and "delivers READ_LINE_TIMEOUT s l"
    and "utf8_valid l"
  shows "read_response_line c =
    (parse_response_line l,
     c\<lparr>transport := Some (tr\<lparr>rx := r\<rparr>), now := now c + pause_of s,
       io_heartbeat := tick (now c + pause_of s) (io_heartbeat c)\<rparr>)"
  using assms delivers_nonempty [OF assms(3)]
  by (simp add: read_response_line_def read_until_delivers tick_io_heartbeat_def)

lemma exchange_ok:
  assumes "transport c = Some tr" and "wr tr = []" and "rx tr = s @ r"
    and "delivers READ_LINE_TIMEOUT s l" and "utf8_valid l" and "parse_response_line l = Inr st"
  shows "exchange cmd c =
    (Inr st,
     c\<lparr>transport := Some (tr\<lparr>rx := r, tx := tx tr @ cmd @ crlf\<rparr>), now := now c + pause_of s,
       io_heartbeat := tick (now c + pause_of s) (io_heartbeat c)\<rparr>)"
  using assms
  by (simp add: exchange_def send_command_ok read_response_line_ok [where s = s])

lemma read_into_ok:
  assumes "transport c = Some tr" and "rx tr = concat ss @ r" and "delivers_body ss ls"
    and "\<not> exceeds mx (length (concat ls))"
  shows "read_multiline_body_into_bounded mx c =
    (Inr (concat ls),
     c\<lparr>transport := Some (tr\<lparr>rx := r\<rparr>), now := now c + pause_of (concat ss),
       io_heartbeat := tick (now c + pause_of (concat ss)) (io_heartbeat c)\<rparr>)"
  using assms by (simp add: read_multiline_body_into_bounded_def body_loop_delivers)

lemma read_multiline_body_ok:
  assumes "transport c = Some tr" and "rx tr = concat ss @ r" and "delivers_body ss ls"
  shows "read_multiline_body c =
    (Inr (concat ls),
     c\<lparr>transport := Some (tr\<lparr>rx := r\<rparr>), now := now c + pause_of (concat ss),
       io_heartbeat := tick (now c + pause_of (concat ss)) (io_heartbeat c),
       body_pool := butlast (body_pool c)\<rparr>)"
proof -
  obtain b c1 where c1: "checkout_body_buffer c = (b, c1)" by force
  then have "c1 = c\<lparr>body_pool := butlast (body_pool c)\<rparr>"
    by (auto simp: checkout_body_buffer_def split: list.splits)
  with assms c1 show ?thesis
    by (simp add: read_multiline_body_def read_into_ok [where ss = ss] exceeds_def)
qed

section \<open>Bodies\<close>

text \<open>
  C1: The multi-line body reader inverts the wire format of RFC 3977: however the server's bytes
  are split up in time, as long as each line arrives within the read timeout, the bytes of the
  dot-stuffed lines up to the terminator come back as the original lines, the stream is left
  exactly behind the terminator, and the clock, the heartbeat and the buffer pool are the only
  other fields that change.
\<close>

theorem body_round_trip:
  assumes "transport c = Some tr" and "rx tr = concat ss @ r" and "delivers_body ss ls"
  shows "read_multiline_body c =
    (Inr (concat ls),
     c\<lparr>transport := Some (tr\<lparr>rx := r\<rparr>), now := now c + pause_of (concat ss),
       io_heartbeat := tick (now c + pause_of (concat ss)) (io_heartbeat c),
       body_pool := butlast (body_pool c)\<rparr>)"
  using assms by (rule read_multiline_body_ok)

text \<open>Sample values for the witnesses; this decoder returns its input.\<close>

definition sample_gunzip :: gunzip where "sample_gunzip = (\<lambda>d. (d, None))"

definition sample_transport :: "rx_item list \<Rightarrow> transport" where
  "sample_transport r = \<lparr>rx = r, wr = [], tx = [], tls = False\<rparr>"

definition sample_connection :: "rx_item list \<Rightarrow> nntp_connection" where
  "sample_connection r =
     (new_connection ''news'')\<lparr>state := Ready, transport := Some (sample_transport r)\<rparr>"

definition sample_script :: "rx_item list list" where
  "sample_script = [[RxByte DOT, RxWait 7, RxByte DOT, RxByte CR, RxByte LF],
     [RxByte CHR ''x'', RxByte LF], map RxByte [DOT, CR, LF]]"

lemma sample_script_delivers: "delivers_body sample_script [[DOT, CR, LF], [CHR ''x'', LF]]"
  by (simp add: delivers_body_def delivers_def is_line_def sample_script_def stuff_line_def
      dot_line_def READ_BODY_LINE_TIMEOUT_def)

lemma body_round_trip_witness:
  "fst (read_multiline_body (sample_connection (concat sample_script @ [RxByte CHR ''2''])))
     = Inr [DOT, CR, LF, CHR ''x'', LF]"
  using body_round_trip [OF _ _ sample_script_delivers,
      of "sample_connection (concat sample_script @ [RxByte CHR ''2''])"
         "sample_transport (concat sample_script @ [RxByte CHR ''2''])" "[RxByte CHR ''2'']"]
  by (simp add: sample_connection_def sample_transport_def)

text \<open>
  Whatever the peer sends, a body the reader accepts is the dot-unstuffed content of whole lines
  up to and including a terminator: those bytes, and no others, have been consumed.
\<close>

theorem body_reader_sound:
  assumes "read_multiline_body_into_bounded mx c = (Inr d, c')"
  shows "\<exists>ws e. consumed c c' (concat ws @ e) \<and> body_parse ws e \<and> d = concat (map unstuff ws)"
proof -
  from assms obtain t where t: "transport c = Some t"
    by (auto simp: read_multiline_body_into_bounded_def split: option.splits)
  with assms obtain r' t' hb' where
    b: "body_loop mx [] (rx t) (now c) (io_heartbeat c) = (Inr d, r', t', hb')"
      "transport c' = Some (t\<lparr>rx := r'\<rparr>)"
    by (auto simp: read_multiline_body_into_bounded_def split: prod.splits)
  from body_loop_sound [OF b(1)] t b(2) show ?thesis by (fastforce simp: traded_def)
qed

lemma sample_read:
  "fst (read_multiline_body_into_bounded None (sample_connection (map RxByte [DOT, DOT, LF, DOT, LF])))
     = Inr [DOT, LF]"
  by (simp add: sample_connection_def sample_transport_def read_multiline_body_into_bounded_def
      body_loop.simps is_terminator_def unstuff_def exceeds_def READ_BODY_LINE_TIMEOUT_def)

lemma body_reader_sound_witness:
  "\<exists>c' ws e. consumed (sample_connection (map RxByte [DOT, DOT, LF, DOT, LF])) c' (concat ws @ e)
     \<and> body_parse ws e \<and> [DOT, LF] = concat (map unstuff ws)"
proof -
  let ?c = "sample_connection (map RxByte [DOT, DOT, LF, DOT, LF])"
  have "read_multiline_body_into_bounded None ?c
      = (Inr [DOT, LF], snd (read_multiline_body_into_bounded None ?c))"
    using sample_read by (metis prod.collapse)
  from body_reader_sound [OF this] show ?thesis by blast
qed

text \<open>
  C27: The bounded reader is the unbounded one with a limit: it returns exactly the bodies of at most
  that many bytes, with the same effect on the connection, and refuses every other.
\<close>

theorem bounded_reader_exact:
  "read_multiline_body_bounded m c = (Inr d, c')
     \<longleftrightarrow> read_multiline_body_into_bounded None c = (Inr d, c') \<and> length d \<le> m"
proof (cases "transport c")
  case (Some t)
  obtain r1 p1 where 1: "body_loop (Some m) [] (rx t) (now c) (io_heartbeat c) = (r1, p1)" by (rule prod.exhaust)
  obtain r2 p2 where 2: "body_loop None [] (rx t) (now c) (io_heartbeat c) = (r2, p2)" by (rule prod.exhaust)
  have eq: "(r1 = Inr d \<and> p1 = p) \<longleftrightarrow> (r2 = Inr d \<and> p2 = p) \<and> length d \<le> m" for p
    using body_loop_bounded [of "[]" m "rx t" "now c" "io_heartbeat c" d p] 1 2 by simp
  show ?thesis
    using eq [of p1] eq [of p2] Some 1 2
    by (cases p1; cases p2)
      (auto simp: read_multiline_body_bounded_def read_multiline_body_into_bounded_def)
qed (simp add: read_multiline_body_bounded_def read_multiline_body_into_bounded_def)

text \<open>
  C26: The prefix reader returns the first bytes of the body the full reader would return, as many as
  asked for; it says \<open>complete\<close> exactly when the body is shorter than that, and then it leaves the
  connection as the full reader does.
\<close>

theorem prefix_reader_exact:
  assumes "read_multiline_body_prefix m c = (Inr p, c1)"
    and "read_multiline_body_into_bounded None c = (Inr d, c2)" and "0 < m"
  shows "prefix_data p = take m d \<and> (complete p \<longleftrightarrow> length d < m) \<and> (complete p \<longrightarrow> c1 = c2)"
proof -
  from assms(1) obtain t where t: "transport c = Some t"
    by (auto simp: read_multiline_body_prefix_def split: option.splits)
  obtain r1 q1 where 1: "prefix_loop m [] (rx t) (now c) (io_heartbeat c) = (r1, q1)" by (rule prod.exhaust)
  obtain r2 q2 where 2: "body_loop None [] (rx t) (now c) (io_heartbeat c) = (r2, q2)" by (rule prod.exhaust)
  from assms(1,2) t 1 2 have "r1 = Inr p" "r2 = Inr d"
    by (auto simp: read_multiline_body_prefix_def read_multiline_body_into_bounded_def split: prod.splits)
  with prefix_loop_spec [of m "[]" "rx t" "now c" "io_heartbeat c" p q1 d q2] 1 2 assms t show ?thesis
    by (auto simp: read_multiline_body_prefix_def read_multiline_body_into_bounded_def split: prod.splits)
qed

lemma prefix_reader_exact_witness:
  "\<exists>p c1. read_multiline_body_prefix 1 (sample_connection (map RxByte [DOT, DOT, LF, DOT, LF])) = (Inr p, c1)
     \<and> prefix_data p = [DOT] \<and> \<not> complete p"
proof -
  let ?c = "sample_connection (map RxByte [DOT, DOT, LF, DOT, LF])"
  have "\<not> isl (fst (read_multiline_body_prefix 1 ?c))"
    by (simp add: sample_connection_def sample_transport_def read_multiline_body_prefix_def
      prefix_loop.simps is_terminator_def unstuff_def PREFIX_LINE_MAX_def READ_BODY_LINE_TIMEOUT_def)
  then obtain p c1 where p: "read_multiline_body_prefix 1 ?c = (Inr p, c1)"
    by (cases "read_multiline_body_prefix 1 ?c"; cases "fst (read_multiline_body_prefix 1 ?c)") auto
  have "read_multiline_body_into_bounded None ?c
      = (Inr [DOT, LF], snd (read_multiline_body_into_bounded None ?c))"
    using sample_read by (metis prod.collapse)
  from prefix_reader_exact [OF p this] p show ?thesis by simp
qed

section \<open>ARTICLE\<close>

text \<open>
  C12: On a ready, uncompressed connection whose writes succeed, \<open>fetch_article\<close> sends one line with
  the bracketed message id; when the server answers 220 and delivers an article in time, the result
  is the article's lines as they were before dot-stuffing, the connection is \<open>Ready\<close> again, and the
  next byte to be read is the first one behind the article.
\<close>

theorem fetch_article_served:
  assumes "state c = Ready" and "\<not> compress_enabled c"
    and "transport c = Some tr" and "wr tr = []" and "rx tr = s @ concat ss @ r"
    and "delivers READ_LINE_TIMEOUT s l" and "utf8_valid l"
    and "parse_response_line l = Inr st" and "code st = 220" and "delivers_body ss ls"
  shows "\<exists>c'. fetch_article gz mid c
            = (Inr \<lparr>code = 220, message = message st, data = Some (concat ls)\<rparr>, c')
          \<and> state c' = Ready
          \<and> transport c' = Some (tr\<lparr>rx := r, tx := tx tr @ ''ARTICLE '' @ normalize_message_id mid @ crlf\<rparr>)"
  using assms(1,2,9) exchange_ok [of "c\<lparr>state := Busy\<rparr>" tr s "concat ss @ r" l st] assms(3-8)
  by (simp add: fetch_article_def Let_def read_multiline_body_maybe_decompress_def finish_def
      looks_gzipped_def read_multiline_body_ok [where ss = ss, OF _ _ assms(10)])

lemma is_line_status_line: "LF \<notin> set msg \<Longrightarrow> is_line (status_line n msg)"
  by (auto simp: status_line_def is_line_def butlast_append dest: show_nat_chars)

lemma utf8_valid_status_line: "utf8_valid msg \<Longrightarrow> utf8_valid (status_line n msg)"
proof -
  assume "utf8_valid msg"
  moreover have "utf8_valid crlf" by (rule utf8_valid_ascii) (simp add: is_ascii_def)
  ultimately show ?thesis
    by (simp add: status_line_def utf8_valid_digits utf8_valid_space utf8_valid_append del: utf8_valid.simps)
qed

lemma status_line_delivers:
  "LF \<notin> set msg \<Longrightarrow> delivers READ_LINE_TIMEOUT (map RxByte (status_line n msg)) (status_line n msg)"
  by (simp add: is_line_status_line READ_LINE_TIMEOUT_def)

definition sample_status :: bytes where
  "sample_status = status_line 220 ''1 <a@b>''"

lemma sample_status_parses:
  "delivers READ_LINE_TIMEOUT (map RxByte sample_status) sample_status"
  "utf8_valid sample_status"
  "parse_response_line sample_status = Inr \<lparr>code = 220, message = ''1 <a@b>'', data = None\<rparr>"
proof -
  have "utf8_valid ''1 <a@b>''" by (rule utf8_valid_ascii) (simp add: is_ascii_def)
  then show "utf8_valid sample_status" unfolding sample_status_def by (rule utf8_valid_status_line)
  show "delivers READ_LINE_TIMEOUT (map RxByte sample_status) sample_status"
    unfolding sample_status_def by (rule status_line_delivers) simp
  show "parse_response_line sample_status = Inr \<lparr>code = 220, message = ''1 <a@b>'', data = None\<rparr>"
    unfolding sample_status_def by (rule parse_status_line) simp_all
qed

lemma fetch_article_served_witness:
  "fst (fetch_article (\<lambda>_. ([], None)) ''a@b''
          (sample_connection (map RxByte sample_status @ concat sample_script @ [RxErr (IoError OtherKind [])])))
     = Inr \<lparr>code = 220, message = ''1 <a@b>'', data = Some [DOT, CR, LF, CHR ''x'', LF]\<rparr>"
  using fetch_article_served [OF _ _ _ _ _ sample_status_parses _ sample_script_delivers,
      of "sample_connection (map RxByte sample_status @ concat sample_script @ [RxErr (IoError OtherKind [])])"
         "sample_transport (map RxByte sample_status @ concat sample_script @ [RxErr (IoError OtherKind [])])"
         "[RxErr (IoError OtherKind [])]" "\<lambda>_. ([], None)" "''a@b''"]
  by (auto simp: sample_connection_def sample_transport_def new_connection_def)

section \<open>POST\<close>

lemma write_chunk_ok:
  "transport c = Some tr \<Longrightarrow> wr tr = [] \<Longrightarrow>
     write_chunk d c = (Inr (), c\<lparr>transport := Some (tr\<lparr>tx := tx tr @ d\<rparr>)\<rparr>)"
  by (simp add: write_chunk_def conn_write_def mark_error_def)

lemma write_chunks_ok:
  "transport c = Some tr \<Longrightarrow> wr tr = [] \<Longrightarrow>
     write_chunks ds c = (Inr (), c\<lparr>transport := Some (tr\<lparr>tx := tx tr @ concat ds\<rparr>)\<rparr>)"
proof (induction ds arbitrary: c tr)
  case Nil
  then show ?case by simp
next
  case (Cons d ds)
  from Cons.IH [of "c\<lparr>transport := Some (tr\<lparr>tx := tx tr @ d\<rparr>)\<rparr>" "tr\<lparr>tx := tx tr @ d\<rparr>"] Cons.prems
  show ?case by (simp add: write_chunk_ok)
qed

lemma byte_line_chunks_stuffed: "concat (byte_line_chunks l) = stuff_line (l @ crlf)"
  by (cases l) (auto simp: byte_line_chunks_def stuff_line_def starts_with_iff)

lemma text_line_chunk_stuffed: "text_line_chunk l = stuff_line (l @ crlf)"
  by (cases l) (auto simp: text_line_chunk_def stuff_line_def starts_with_iff)

lemma terminator_dot_line: "terminator = dot_line"
  by (simp add: terminator_def dot_line_def)

definition canonical_lines :: "bytes list \<Rightarrow> bytes list" where
  "canonical_lines ls = map (\<lambda>l. l @ crlf) ls"

lemma wire_body_bytes:
  "concat (concat (map byte_line_chunks ls)) @ terminator = wire_body (canonical_lines ls)"
  by (induction ls)
     (simp_all add: wire_body_def canonical_lines_def terminator_dot_line byte_line_chunks_stuffed)

lemma post_bytes_ok:
  assumes "state c = Ready" and "transport c = Some tr" and "wr tr = []"
    and "rx tr = s1 @ s2 @ r"
    and "delivers READ_LINE_TIMEOUT s1 l1" and "utf8_valid l1"
    and "parse_response_line l1 = Inr st1" and "code st1 = 340"
    and "delivers READ_LINE_TIMEOUT s2 l2" and "utf8_valid l2" and "parse_response_line l2 = Inr st2"
  shows "\<exists>c'. post_article_bytes art c = (Inr st2, c') \<and> state c' = Ready
           \<and> transport c' = Some (tr\<lparr>rx := r, tx := tx tr @ ''POST'' @ crlf
                                         @ wire_body (canonical_lines (byte_lines art))\<rparr>)"
proof -
  note x = exchange_ok [of "c\<lparr>state := Busy\<rparr>" tr s1 "s2 @ r" l1 st1 "''POST''"]
  define tr1 where "tr1 = tr\<lparr>rx := s2 @ r, tx := tx tr @ ''POST'' @ crlf\<rparr>"
  define c1 where "c1 = c\<lparr>state := Busy, transport := Some tr1, now := now c + pause_of s1,
      io_heartbeat := tick (now c + pause_of s1) (io_heartbeat c)\<rparr>"
  have e: "exchange ''POST'' (c\<lparr>state := Busy\<rparr>) = (Inr st1, c1)"
    using x assms by (simp add: c1_def tr1_def)
  define tr2 where "tr2 = tr1\<lparr>tx := tx tr1 @ wire_body (canonical_lines (byte_lines art))\<rparr>"
  have w: "write_chunks (concat (map byte_line_chunks (byte_lines art)) @ [terminator]) c1
      = (Inr (), c1\<lparr>transport := Some tr2\<rparr>)"
    using write_chunks_ok [of c1 tr1] wire_body_bytes assms(3) by (simp add: c1_def tr1_def tr2_def)
  have "rx tr2 = s2 @ r" by (simp add: tr2_def tr1_def)
  then have "read_response_line (c1\<lparr>transport := Some tr2\<rparr>) = (Inr st2, c1\<lparr>transport := Some (tr2\<lparr>rx := r\<rparr>),
      now := now c1 + pause_of s2, io_heartbeat := tick (now c1 + pause_of s2) (io_heartbeat c1)\<rparr>)"
    using read_response_line_ok [of "c1\<lparr>transport := Some tr2\<rparr>" tr2 s2 r l2] assms(9-11) by simp
  with assms(1,8) show ?thesis
    by (simp add: post_article_bytes_def post_chunks_def e write_chunks_snoc w finish_def)
       (simp add: tr2_def tr1_def)
qed

text \<open>
  C17: \<open>post_article_bytes\<close>, once the server has answered 340, puts on the wire exactly the
  RFC 3977 form of the article: its lines, each ended by CR LF and dot-stuffed, and the terminator;
  the server's final answer is the result, whatever its code, and the connection is \<open>Ready\<close>.
\<close>

theorem post_wire_form:
  assumes "state c = Ready" and "transport c = Some tr" and "wr tr = []"
    and "rx tr = s1 @ s2 @ r"
    and "delivers READ_LINE_TIMEOUT s1 l1" and "utf8_valid l1"
    and "parse_response_line l1 = Inr st1" and "code st1 = 340"
    and "delivers READ_LINE_TIMEOUT s2 l2" and "utf8_valid l2" and "parse_response_line l2 = Inr st2"
  shows "\<exists>c'. post_article_bytes art c = (Inr st2, c') \<and> state c' = Ready
           \<and> transport c' = Some (tr\<lparr>rx := r, tx := tx tr @ ''POST'' @ crlf
                                         @ wire_body (canonical_lines (byte_lines art))\<rparr>)"
  by (rule post_bytes_ok) (use assms in auto)

definition sample_post_script :: "rx_item list" where
  "sample_post_script = map RxByte (status_line 340 ''go'') @ map RxByte (status_line 441 ''no'')"

lemma post_wire_form_witness:
  "\<exists>c'. post_article_bytes ''.x'' (sample_connection sample_post_script)
          = (Inr \<lparr>code = 441, message = ''no'', data = None\<rparr>, c')
     \<and> tx (the (transport c')) = ''POST'' @ crlf @ ''..x'' @ crlf @ ''.'' @ crlf"
proof -
  have u: "utf8_valid ''go''" "utf8_valid ''no''" by (rule utf8_valid_ascii, simp add: is_ascii_def)+
  note v = utf8_valid_status_line [OF u(1), of 340] utf8_valid_status_line [OF u(2), of 441]
  have "byte_lines ''.x'' = [''.x'']" by simp
  then have w: "wire_body (canonical_lines (byte_lines ''.x'')) = ''..x'' @ crlf @ ''.'' @ crlf"
    by (simp add: wire_body_def canonical_lines_def stuff_line_def dot_line_def)
  have "\<exists>c'. post_article_bytes ''.x'' (sample_connection sample_post_script)
          = (Inr \<lparr>code = 441, message = ''no'', data = None\<rparr>, c') \<and> state c' = Ready
     \<and> transport c' = Some ((sample_transport sample_post_script)\<lparr>rx := [],
         tx := tx (sample_transport sample_post_script) @ ''POST'' @ crlf
               @ wire_body (canonical_lines (byte_lines ''.x''))\<rparr>)"
  proof (rule post_wire_form [where ?l1.0 = "status_line 340 ''go''" and ?l2.0 = "status_line 441 ''no''"
        and ?st1.0 = "\<lparr>code = 340, message = ''go'', data = None\<rparr>"])
    show "rx (sample_transport sample_post_script)
        = map RxByte (status_line 340 ''go'') @ map RxByte (status_line 441 ''no'') @ []"
      by (simp add: sample_transport_def sample_post_script_def)
  qed (simp_all add: sample_connection_def sample_transport_def status_line_delivers v
      parse_status_line del: delivers_map)
  then show ?thesis unfolding w by (auto simp: sample_transport_def)
qed

lemma takeWhile_LF: "LF \<notin> set l \<Longrightarrow> takeWhile (\<lambda>b. b \<noteq> LF) (l @ LF # s) = l"
  by (induction l) auto

lemma dropWhile_LF: "LF \<notin> set l \<Longrightarrow> dropWhile (\<lambda>b. b \<noteq> LF) (l @ LF # s) = LF # s"
  by (induction l) auto

lemma byte_lines_crlf_lines: "\<forall>l \<in> set ls. LF \<notin> set l \<Longrightarrow> byte_lines (crlf_lines ls) = ls"
proof (induction ls)
  case (Cons l ls)
  then have l: "LF \<notin> set (l @ [CR])" by simp
  have c: "crlf_lines (l # ls) = (l @ [CR]) @ LF # crlf_lines ls" by simp
  obtain a s where as: "crlf_lines (l # ls) = a # s" by (cases "crlf_lines (l # ls)") auto
  have "byte_lines (crlf_lines (l # ls)) = strip_cr (l @ [CR]) # byte_lines (crlf_lines ls)"
    unfolding as byte_lines.simps(2)
    unfolding as [symmetric] c takeWhile_LF [OF l] dropWhile_LF [OF l] by simp
  with Cons show ?case by simp
qed simp

lemma canonical_lines_concat: "concat (canonical_lines ls) = crlf_lines ls"
  by (simp add: canonical_lines_def crlf_lines_def)

lemma canonical_is_line: "\<forall>l \<in> set ls. LF \<notin> set l \<Longrightarrow> list_all is_line (canonical_lines ls)"
  by (auto simp: canonical_lines_def list_all_iff is_line_def butlast_append)

text \<open>
  C19: An article posted in binary form and read back by the body reader is the same article, byte
  for byte, when its lines end in CR LF: the two directions of dot-stuffing agree.
\<close>

theorem post_read_round_trip:
  assumes "\<forall>l \<in> set ls. LF \<notin> set l" and "transport c = Some tr"
    and "rx tr = map RxByte (concat (concat (map byte_line_chunks (byte_lines (crlf_lines ls)))) @ terminator) @ r"
  shows "fst (read_multiline_body c) = Inr (crlf_lines ls)"
proof -
  define ss where "ss = map (map RxByte) (map stuff_line (canonical_lines ls) @ [dot_line])"
  have "concat ss = map RxByte (wire_body (canonical_lines ls))"
    by (simp add: ss_def wire_body_def map_concat)
  then have "rx tr = concat ss @ r"
    using assms(3) by (simp add: byte_lines_crlf_lines [OF assms(1)] wire_body_bytes)
  moreover have "delivers_body ss (canonical_lines ls)"
    using canonical_is_line [OF assms(1)]
    by (auto simp: delivers_body_def ss_def list_all2_map1 list_all2_map2 list_all_iff list_all2_append
        READ_BODY_LINE_TIMEOUT_def intro!: list_all2_all_nthI)
  ultimately show ?thesis
    using read_multiline_body_ok [OF assms(2)] by (simp add: canonical_lines_concat)
qed

lemma post_read_round_trip_witness:
  "fst (read_multiline_body (sample_connection (map RxByte
     (concat (concat (map byte_line_chunks (byte_lines (crlf_lines [''.'', ''a''])))) @ terminator) @ [])))
   = Inr (crlf_lines [''.'', ''a''])"
  by (rule post_read_round_trip [where r = "[]" and tr = "sample_transport (map RxByte
        (concat (concat (map byte_line_chunks (byte_lines (crlf_lines [''.'', ''a''])))) @ terminator) @ [])"])
     (simp_all add: sample_connection_def sample_transport_def)

section \<open>Sequences of commands\<close>

text \<open>A sample exchange.\<close>

lemma sample_ping:
  "ping (sample_connection (map RxByte (status_line 111 ''2026''))) =
     (Inr (), (sample_connection [])\<lparr>transport := Some ((sample_transport [])\<lparr>tx := ''DATE'' @ crlf\<rparr>)\<rparr>)"
proof -
  have "utf8_valid ''2026''" by (rule utf8_valid_ascii) (simp add: is_ascii_def)
  then have "exchange ''DATE'' ((sample_connection (map RxByte (status_line 111 ''2026'')))\<lparr>state := Busy\<rparr>)
      = (Inr \<lparr>code = 111, message = ''2026'', data = None\<rparr>,
         (sample_connection [])\<lparr>state := Busy, transport := Some ((sample_transport [])\<lparr>tx := ''DATE'' @ crlf\<rparr>)\<rparr>)"
    by (subst exchange_ok [where s = "map RxByte (status_line 111 ''2026'')" and r = "[]"
          and l = "status_line 111 ''2026''" and tr = "sample_transport (map RxByte (status_line 111 ''2026''))"])
       (simp_all add: sample_connection_def sample_transport_def status_line_delivers utf8_valid_status_line
          parse_status_line new_connection_def tick_def del: delivers_map)
  then show ?thesis
    by (simp add: ping_def finish_def) (simp add: sample_connection_def new_connection_def)
qed

text \<open>
  C3: Every command of the connection, started on a ready connection, ends in one of three ways: with
  a result and the connection \<open>Ready\<close>; with a recoverable error and the connection \<open>Ready\<close> or in
  \<open>Error\<close>; or with any other error and the connection in \<open>Error\<close>.  The one exception is a BODY
  prefix that stopped before the end of the body: it succeeds and the connection is closed.  No command
  leaves the connection \<open>Busy\<close>.
\<close>

theorem command_settles:
  assumes "state c = Ready" and "run_command gz cmd c = (r, c')"
  shows "case r of
      Inr _ \<Rightarrow>
        state c' = (if \<exists>mid m p. cmd = Body_Prefix mid m \<and> fst (fetch_body_prefix mid m c) = Inr p
                        \<and> \<not> complete p
                    then Disconnected else Ready)
    | Inl e \<Rightarrow> state c' = Error \<or> (state c' = Ready \<and> recoverable e)"
proof -
  have "cuts_body cmd c \<longleftrightarrow> (\<exists>mid m p. cmd = Body_Prefix mid m \<and> fst (fetch_body_prefix mid m c) = Inr p
      \<and> \<not> complete p)"
    by (cases cmd) (auto split: sum.splits)
  with commands.settles [OF assms(1), of cmd gz] assms(2) show ?thesis
    by (cases r) (simp_all add: settled_as_def)
qed

lemma command_settles_witness:
  "state (snd (run_command sample_gunzip Date (sample_connection (map RxByte (status_line 111 ''2026''))))) = Ready
   \<and> state (snd (run_command sample_gunzip Date (sample_connection []))) = Error"
proof
  let ?c = "sample_connection (map RxByte (status_line 111 ''2026''))"
  obtain r c' where x: "run_command sample_gunzip Date ?c = (r, c')" by force
  moreover from x have "r = Inr ()" by (simp add: sample_ping)
  ultimately show "state (snd (run_command sample_gunzip Date ?c)) = Ready"
    using command_settles [OF _ x] by (simp add: sample_connection_def)
next
  obtain r c' where x: "run_command sample_gunzip Date (sample_connection []) = (r, c')" by force
  have "fst (run_command sample_gunzip Date (sample_connection []))
      = Inl (Connection ''Server closed connection'')"
    by (simp add: ping_def sample_connection_def sample_transport_def new_connection_def exchange_def
        send_command_def send_command_no_flush_def flush_def conn_write_def read_response_line_def)
  with command_settles [OF _ x] x show "state (snd (run_command sample_gunzip Date (sample_connection []))) = Error"
    by (auto simp: sample_connection_def)
qed

text \<open>
  A connection that is not \<open>Ready\<close>, in particular one an error has poisoned, refuses every
  further command: nothing is sent, nothing is read, nothing changes.
\<close>

theorem poisoned_refuses:
  "state c \<noteq> Ready \<Longrightarrow> run_session gz cmds c = c"
  unfolding run_session_def by (rule commands.session_refused)

lemma poisoned_refuses_witness:
  "run_session sample_gunzip [Date, Stat ''a'', Post ''x''] (new_connection ''s'') = new_connection ''s''"
  by (rule poisoned_refuses) (simp add: new_connection_def)

text \<open>
  C2: Client and server never get out of step: a sequence of commands that leaves the connection
  \<open>Ready\<close> has done nothing at all, or there are commands \<open>js\<close> among them, in their order, such that
  the bytes written are exactly, for each of them, its command line (and after a 340 the article in
  its wire form), and the bytes consumed are exactly, for each of them, its whole response: a status
  line and what its code calls for.  So no command line is on the wire whose response has not been
  read, and not one byte more has been written or read.
\<close>

theorem session_in_step:
  assumes "state (run_session gz cmds c) = Ready"
  shows "run_session gz cmds c = c
    \<or> (\<exists>js ds. subseq js cmds
          \<and> list_all2 (\<lambda>j (w, bs). dialogue (command_line (capabilities c) j) (sent_after j) (reply_tail j) w bs) js ds
          \<and> traded c (run_session gz cmds c) (concat (map fst ds)) (concat (map snd ds)))"
  using commands.session_answered [of gz cmds c] assms
  by (simp add: run_session_def commands.answered_def commands.exchanges_def)

lemma session_in_step_witness:
  "\<exists>js ds. subseq js [Date]
     \<and> list_all2 (\<lambda>j (w, bs). dialogue (command_line default_assumed j) (sent_after j) (reply_tail j) w bs) js ds
     \<and> traded (sample_connection (map RxByte (status_line 111 ''2026'')))
          (run_session sample_gunzip [Date] (sample_connection (map RxByte (status_line 111 ''2026''))))
          (concat (map fst ds)) (concat (map snd ds))"
proof -
  let ?c = "sample_connection (map RxByte (status_line 111 ''2026''))"
  have r: "run_session sample_gunzip [Date] ?c
      = (sample_connection [])\<lparr>transport := Some ((sample_transport [])\<lparr>tx := ''DATE'' @ crlf\<rparr>)\<rparr>"
    by (simp add: run_session_def sample_ping)
  have k: "capabilities ?c = default_assumed" by (simp add: sample_connection_def new_connection_def)
  have s: "state (run_session sample_gunzip [Date] ?c) = Ready" and
    "tx (the (transport (run_session sample_gunzip [Date] ?c))) \<noteq> tx (the (transport ?c))"
    unfolding r by (simp_all add: sample_connection_def sample_transport_def)
  then have "run_session sample_gunzip [Date] ?c \<noteq> ?c" by metis
  with session_in_step [OF s, unfolded k] show ?thesis by blast
qed

end
