(* ===== verification/Session_Laws.thy ===== *)
theory Session_Laws
  imports Session Protocol_Properties
begin

text \<open>
  Opening a connection: what a successful \<open>connect\<close> guarantees, what a failed one leaves behind, the
  login dialogue, and \<open>QUIT\<close>.
\<close>

section \<open>Steps that leave the connection as it is\<close>

text \<open>
  A steady step keeps the state, the transport's encryption and an enabled compression flag, does
  not close the transport, and consumes no write outcome when all writes are to succeed.
\<close>

definition steady :: "nntp_connection \<Rightarrow> 'a nntp_result \<times> nntp_connection \<Rightarrow> bool" where
  "steady c p \<longleftrightarrow>
     state (snd p) = state c \<and> map_option tls (transport (snd p)) = map_option tls (transport c)
     \<and> (compress_enabled c \<longrightarrow> compress_enabled (snd p))
     \<and> (map_option wr (transport c) = Some [] \<longrightarrow> map_option wr (transport (snd p)) = Some [])"

named_theorems steady_intro \<open>rules for steady steps\<close>

lemma steady_bind [steady_intro]:
  assumes "steady c p" and "\<And>a c'. steady c' (k a c')"
  shows "steady c (rbind p k)"
proof (cases p)
  case (Pair r c')
  with assms show ?thesis by (cases r) (auto simp: steady_def)
qed

lemma steady_const [steady_intro]: "steady c (r, c)"
  by (simp add: steady_def)

lemma steady_if [steady_intro]: "steady c p \<Longrightarrow> steady c q \<Longrightarrow> steady c (if b then p else q)"
  by simp

lemma steady_caps [steady_intro]: "steady c (r, c\<lparr>capabilities := caps\<rparr>)"
  by (simp add: steady_def)

lemma steady_compress [steady_intro]: "steady c (r, if b then c\<lparr>compress_enabled := True\<rparr> else c)"
  by (simp add: steady_def)

lemma raw_write_tls [simp]: "tls (snd (raw_write n d t)) = tls t"
  by (auto simp: raw_write_def next_write_def split: prod.split list.split)

lemma raw_write_wr [simp]: "wr t = [] \<Longrightarrow> wr (snd (raw_write n d t)) = []"
  by (auto simp: raw_write_def next_write_def split: prod.split)

lemma steady_send [steady_intro]: "steady c (send_command cmd c)"
proof -
  have w: "steady c (conn_write (\<lambda>n. raw_write n d) c)" for d c
  proof (cases "transport c")
    case (Some t)
    then show ?thesis
      using raw_write_tls [of "write_timeout c" d t] raw_write_wr [of t "write_timeout c" d]
      by (cases "raw_write (write_timeout c) d t") (auto simp: conn_write_def steady_def)
  qed (simp add: conn_write_def steady_def)
  show ?thesis
    unfolding send_command_def send_command_no_flush_def flush_def by (intro steady_intro w)
qed

lemma steady_read [steady_intro]: "steady c (read_response_line c)"
  by (auto simp: steady_def read_response_line_def Let_def tick_io_heartbeat_def
      split: option.split prod.split read_outcome.split)

lemma steady_body [steady_intro]: "steady c (read_multiline_body c)"
  by (auto simp: steady_def read_multiline_body_def checkout_body_buffer_def
      read_multiline_body_into_bounded_def split: option.split prod.split list.split)

lemma steady_query [steady_intro]: "steady c (query_capabilities c)"
  unfolding query_capabilities_def Let_def by (intro steady_intro)

lemma steady_reader [steady_intro]: "steady c (enter_reader_mode c)"
  unfolding enter_reader_mode_def by (intro steady_intro)

lemma steady_negotiate [steady_intro]: "steady c (negotiate_compression c)"
  unfolding negotiate_compression_def by (intro steady_intro)

section \<open>The probe\<close>

definition all_content :: "nntp_capabilities \<Rightarrow> bool" where
  "all_content caps \<longleftrightarrow> have_article caps \<and> have_body caps \<and> have_head caps \<and> have_stat caps"

lemma all_content_default [simp]: "all_content default_assumed"
  by (simp add: all_content_def default_assumed_def)

lemma all_content_set [simp]: "all_content (set_content_flags True caps)"
  by (simp add: all_content_def set_content_flags_def)

lemma caps_parse_any:
  "have_body (caps_parse body) \<Longrightarrow> all_content (caps_parse body)"
  "have_stat (caps_parse body) \<Longrightarrow> all_content (caps_parse body)"
  "have_article (caps_parse body) \<Longrightarrow> all_content (caps_parse body)"
  "have_head (caps_parse body) \<Longrightarrow> all_content (caps_parse body)"
  using caps_parse_content [of body] by (auto simp: content_flags_def all_content_def Let_def)

lemma query_capabilities_content:
  "query_capabilities c = (Inr u, c') \<Longrightarrow> all_content (capabilities c')"
  unfolding query_capabilities_def Let_def
  by (auto elim!: rbind_okE simp: caps_parse_any split: if_splits)

lemma frames_caps: "frames c p \<Longrightarrow> capabilities (snd p) = capabilities c"
  by (simp add: frames_def same_session_def)

definition keeps_content :: "nntp_connection \<Rightarrow> 'a nntp_result \<times> nntp_connection \<Rightarrow> bool" where
  "keeps_content c p \<longleftrightarrow> (all_content (capabilities c) \<longrightarrow> all_content (capabilities (snd p)))"

named_theorems keeps \<open>rules for steps that keep the content flags\<close>

lemma keeps_bind [keeps]:
  assumes "keeps_content c p" and "\<And>a c'. keeps_content c' (k a c')"
  shows "keeps_content c (rbind p k)"
proof (cases p)
  case (Pair r c')
  with assms show ?thesis by (cases r) (auto simp: keeps_content_def)
qed

lemma keeps_frames [keeps]: "frames c p \<Longrightarrow> keeps_content c p"
  by (simp add: keeps_content_def frames_caps)

lemma keeps_if [keeps]:
  "keeps_content c p \<Longrightarrow> keeps_content c q \<Longrightarrow> keeps_content c (if b then p else q)"
  "keeps_content c (r, c)"
  "keeps_content c (r, if b then c\<lparr>compress_enabled := True\<rparr> else c)"
  "keeps_content c (r, c\<lparr>capabilities := set_content_flags True caps\<rparr>)"
  by (simp_all add: keeps_content_def)

lemma keeps_reader: "keeps_content c (enter_reader_mode c)"
  unfolding enter_reader_mode_def
  by (intro keeps_if keeps_bind) (intro keeps frame)+

lemma keeps_negotiate: "keeps_content c (negotiate_compression c)"
  unfolding negotiate_compression_def
  by (intro keeps_if keeps_bind) (intro keeps frame)+

lemma probe_server_content: "all_content (capabilities (probe_server cfg c))"
proof -
  obtain r c' where q: "query_capabilities c = (r, c')" by force
  define c1 where "c1 = (case r of Inl _ \<Rightarrow> c'\<lparr>capabilities := default_assumed\<rparr> | Inr _ \<Rightarrow> c')"
  have 1: "all_content (capabilities c1)"
    using query_capabilities_content [of c] q by (cases r) (auto simp: c1_def)
  define c2 where "c2 = (if mode_reader_required (capabilities c1) \<and> \<not> reader (capabilities c1)
      then snd (enter_reader_mode c1) else c1)"
  have 2: "all_content (capabilities c2)"
    using 1 keeps_reader [of c1] by (simp add: c2_def keeps_content_def)
  have "probe_server cfg c = (if compress cfg then snd (negotiate_compression c2) else c2)"
    by (cases r) (simp_all add: probe_server_def q c1_def c2_def Let_def)
  with 2 keeps_negotiate [of c2] show ?thesis by (simp add: keeps_content_def)
qed

lemma probe_server_steady: "steady c (Inr (), probe_server cfg c)"
proof -
  obtain r c' where q: "query_capabilities c = (r, c')" by force
  have 0: "steady c (r, c')" using steady_query [of c] by (simp add: q)
  define c1 where "c1 = (case r of Inl _ \<Rightarrow> c'\<lparr>capabilities := default_assumed\<rparr> | Inr _ \<Rightarrow> c')"
  have 1: "steady c (r, c1)" using 0 by (cases r) (simp_all add: c1_def steady_def)
  define c2 where "c2 = (if mode_reader_required (capabilities c1) \<and> \<not> reader (capabilities c1)
      then snd (enter_reader_mode c1) else c1)"
  have 2: "steady c (r, c2)" using 1 steady_reader [of c1] by (auto simp: c2_def steady_def)
  have "probe_server cfg c = (if compress cfg then snd (negotiate_compression c2) else c2)"
    by (cases r) (simp_all add: probe_server_def q c1_def c2_def Let_def)
  with 2 steady_negotiate [of c2] show ?thesis by (auto simp: steady_def)
qed

section \<open>Authentication and the banner\<close>

text \<open>A step of the login ends \<open>Ready\<close> on success and never with an error and \<open>Ready\<close>.\<close>

definition login_step :: "'a nntp_result \<times> nntp_connection \<Rightarrow> bool" where
  "login_step p \<longleftrightarrow>
     (case p of (Inr _, c) \<Rightarrow> state c = Ready
      | (Inl _, c) \<Rightarrow> state c \<in> {Connecting, Authenticating, Error})"

lemma steady_err_state:
  "steady c p \<Longrightarrow> p = (r, c') \<Longrightarrow> state c' = state c"
  by (simp add: steady_def)

lemma login_bind:
  assumes "steady c p" and "state c \<in> {Connecting, Authenticating}"
    and "\<And>a c'. state c' = state c \<Longrightarrow> login_step (k a c')"
  shows "login_step (rbind p k)"
proof (cases p)
  case (Pair r c')
  with assms steady_err_state [OF assms(1) Pair] show ?thesis by (cases r) (auto simp: login_step_def)
qed

lemma login_finish: "login_step (finish Ready (Inr a) c)" "login_step (fail_error e c)"
  by (simp_all add: login_step_def finish_def fail_error_def)

lemma login_if: "login_step p \<Longrightarrow> login_step q \<Longrightarrow> login_step (if b then p else q)"
  by simp

lemma login_dialogue:
  assumes "state c = Authenticating" and "\<And>resp c'. state c' = Authenticating \<Longrightarrow> login_step (k resp c')"
  shows "login_step (rbind (send_command cmd c) (\<lambda>_ c. rbind (read_response_line c) k))"
proof (rule login_bind [OF steady_send])
  show "state c \<in> {Connecting, Authenticating}" using assms(1) by simp
  show "login_step (rbind (read_response_line c') k)" if "state c' = state c" for c'
    by (rule login_bind [OF steady_read]) (use that assms in simp_all)
qed

lemma auth_password_login:
  assumes "state c = Authenticating" shows "login_step (auth_password cfg c)"
proof (cases "password cfg")
  case None
  with assms show ?thesis by (simp add: auth_password_def login_step_def)
next
  case (Some pw)
  show ?thesis
    unfolding auth_password_def Some option.case
    by (rule login_dialogue [OF assms]) (intro login_if login_finish)
qed

lemma authenticate_login: "login_step (authenticate cfg c)"
proof (cases "username cfg")
  case None
  then show ?thesis by (simp add: authenticate_def login_step_def)
next
  case (Some user)
  show ?thesis
    unfolding authenticate_def Some option.case Let_def
    by (rule login_dialogue) (simp, intro login_if login_finish auth_password_login)
qed

text \<open>The login changes the state, but neither the transport's encryption nor the compression flag.\<close>

definition firm :: "nntp_connection \<Rightarrow> 'a nntp_result \<times> nntp_connection \<Rightarrow> bool" where
  "firm c p \<longleftrightarrow>
     map_option tls (transport (snd p)) = map_option tls (transport c)
     \<and> (compress_enabled c \<longrightarrow> compress_enabled (snd p))"

lemma firm_steady: "steady c p \<Longrightarrow> firm c p"
  by (simp add: firm_def steady_def)

lemma firm_bind:
  assumes "firm c p" and "\<And>a c'. firm c' (k a c')"
  shows "firm c (rbind p k)"
proof (cases p)
  case (Pair r c')
  with assms show ?thesis by (cases r) (auto simp: firm_def)
qed

lemma firm_if: "firm c p \<Longrightarrow> firm c q \<Longrightarrow> firm c (if b then p else q)"
  by simp

lemma firm_finish: "firm c (finish s r c)" "firm c (fail_error e c)" "firm c (r', c)"
  by (simp_all add: firm_def finish_def fail_error_def)

lemma firm_auth_password: "firm c (auth_password cfg c)"
proof (cases "password cfg")
  case (Some pw)
  show ?thesis
    unfolding auth_password_def Some option.case
    by (intro firm_bind firm_if firm_finish firm_steady steady_send steady_read)
qed (simp add: auth_password_def firm_finish)

lemma firm_authenticate: "firm c (authenticate cfg c)"
proof -
  have "firm (c\<lparr>state := Authenticating\<rparr>) (authenticate cfg c)"
  proof (cases "username cfg")
    case (Some user)
    show ?thesis
      unfolding authenticate_def Some option.case Let_def
      by (intro firm_bind firm_if firm_finish firm_steady firm_auth_password steady_send steady_read)
  qed (simp add: authenticate_def firm_finish)
  then show ?thesis by (simp add: firm_def)
qed

lemma firm_check_welcome: "firm c (check_welcome w c)"
  unfolding check_welcome_def by (intro firm_if firm_finish)

section \<open>connect\<close>

lemma dial_state:
  "dial net cfg (c\<lparr>state := Connecting\<rparr>) = (r, c') \<Longrightarrow>
     (case r of Inr _ \<Rightarrow> state c' = Connecting | Inl _ \<Rightarrow> state c' = Error)
     \<and> compress_enabled c' = compress_enabled c"
  by (auto simp: dial_def fail_error_def finish_def Let_def split: if_splits sum.splits)

lemma install_ok:
  "install_transport net cfg tcp c = (Inr u, c') \<Longrightarrow>
     state c' = state c \<and> map_option tls (transport c') = Some (ssl cfg)
     \<and> compress_enabled c' = compress_enabled c"
  by (auto simp: install_transport_def fail_error_def finish_def split: if_splits sum.splits option.splits)

lemma install_err:
  "install_transport net cfg tcp c = (Inl e, c') \<Longrightarrow> state c = Connecting \<Longrightarrow> state c' \<in> {Connecting, Error}"
  by (auto simp: install_transport_def fail_error_def finish_def split: if_splits sum.splits option.splits)

definition login :: "server_config \<Rightarrow> nntp_connection \<Rightarrow> unit nntp_result \<times> nntp_connection" where
  "login cfg c = (if username cfg \<noteq> None then authenticate cfg c else finish Ready (Inr ()) c)"

lemma login_ends: "login_step (login cfg c)" "firm c (login cfg c)"
  by (simp_all add: login_def authenticate_login login_finish firm_authenticate firm_finish)

lemma connect_inner_parts:
  "connect_inner net cfg c = rbind (dial net cfg (c\<lparr>state := Connecting\<rparr>)) (\<lambda>tcp c.
     rbind (install_transport net cfg tcp c) (\<lambda>_ c.
     rbind (rbind (read_response_line c) check_welcome) (\<lambda>_ c.
     rbind (login cfg c) (\<lambda>_ c. (Inr (), probe_server cfg c)))))"
  unfolding connect_inner_def login_def rbind_assoc ..

lemma welcome_login:
  "state c = Connecting \<Longrightarrow> rbind (read_response_line c) check_welcome = (r, c') \<Longrightarrow>
     (case r of Inr _ \<Rightarrow> state c' = Connecting | Inl _ \<Rightarrow> state c' \<in> {Connecting, Error})"
  using steady_read [of c]
  by (cases "read_response_line c"; cases "fst (read_response_line c)")
     (auto simp: steady_def check_welcome_def fail_error_def finish_def split: if_splits)

lemma connect_inner_ok:
  assumes "connect_inner net cfg c = (Inr u, c')"
  shows "state c' = Ready \<and> all_content (capabilities c')
    \<and> map_option tls (transport c') = Some (ssl cfg) \<and> (compress_enabled c \<longrightarrow> compress_enabled c')"
proof -
  from assms obtain tcp c1 x c2 y c3 z c4 where
    1: "dial net cfg (c\<lparr>state := Connecting\<rparr>) = (Inr tcp, c1)" and
    2: "install_transport net cfg tcp c1 = (Inr x, c2)" and
    3: "rbind (read_response_line c2) check_welcome = (Inr y, c3)" and
    4: "login cfg c3 = (Inr z, c4)" and c': "c' = probe_server cfg c4"
    unfolding connect_inner_parts by (auto elim!: rbind_okE)
  have "firm c2 (rbind (read_response_line c2) check_welcome)"
    by (intro firm_bind firm_steady steady_read firm_check_welcome)
  then have f3: "firm c2 (Inr y, c3)" by (simp only: 3)
  have f4: "firm c3 (Inr z, c4)" using login_ends(2) [of c3 cfg] by (simp only: 4)
  have s4: "state c4 = Ready" using login_ends(1) [of cfg c3] by (simp add: 4 login_step_def)
  note p = probe_server_steady [of c4 cfg, unfolded steady_def snd_conv, folded c']
  have "map_option tls (transport c') = Some (ssl cfg)"
    using p install_ok [OF 2] f3 f4 by (simp add: firm_def)
  moreover have "compress_enabled c \<longrightarrow> compress_enabled c'"
    using p dial_state [OF 1] install_ok [OF 2] f3 f4 by (simp add: firm_def)
  ultimately show ?thesis
    using p s4 probe_server_content [of cfg c4, folded c'] by simp
qed

lemma connect_inner_err:
  assumes "connect_inner net cfg c = (Inl e, c')"
  shows "state c' \<in> {Connecting, Authenticating, Error}"
proof -
  obtain r1 c1 where 1: "dial net cfg (c\<lparr>state := Connecting\<rparr>) = (r1, c1)" by force
  show ?thesis
  proof (cases r1)
    case (Inl e1)
    with 1 assms dial_state [OF 1] show ?thesis by (simp add: connect_inner_parts)
  next
    case t: (Inr tcp)
    obtain r2 c2 where 2: "install_transport net cfg tcp c1 = (r2, c2)" by force
    have s1: "state c1 = Connecting" using dial_state [OF 1] t by simp
    show ?thesis
    proof (cases r2)
      case (Inl e2)
      with 1 2 t assms install_err [of net cfg tcp c1 e2 c2] s1 show ?thesis
        by (auto simp: connect_inner_parts)
    next
      case i: (Inr x)
      obtain r3 c3 where 3: "rbind (read_response_line c2) check_welcome = (r3, c3)" by force
      have "state c2 = Connecting" using install_ok 2 i s1 by metis
      note w = welcome_login [OF this 3]
      obtain r4 c4 where 4: "login cfg c3 = (r4, c4)" by force
      show ?thesis
        using assms 1 2 3 4 t i w login_ends(1) [of cfg c3]
        by (cases r3; cases r4) (auto simp: connect_inner_parts login_step_def)
    qed
  qed
qed

text \<open>
  C13: \<open>connect\<close> either succeeds with a connection in \<open>Ready\<close> or fails with one that no command and no
  pool will accept.  On success it is \<open>Ready\<close> and connected, the stream is encrypted exactly when TLS was
  configured, and all four content commands are enabled, whatever the server's \<open>CAPABILITIES\<close> said;
  on failure it is not \<open>Ready\<close>.
\<close>

theorem connect_result:
  assumes "connect net lapse cfg c = (r, c')"
  shows "case r of
      Inr _ \<Rightarrow> state c' = Ready \<and> is_connected c' \<and> map_option tls (transport c') = Some (ssl cfg)
               \<and> all_content (capabilities c')
    | Inl _ \<Rightarrow> state c' \<in> {Connecting, Authenticating, Error}"
proof (cases lapse)
  case None
  with assms have r: "connect_inner net cfg c = (r, c')" by (simp add: connect_def)
  show ?thesis
  proof (cases r)
    case (Inl e)
    with connect_inner_err r show ?thesis by auto
  next
    case (Inr u)
    with connect_inner_ok [of net cfg c u c'] r show ?thesis by (auto simp: is_connected_def)
  qed
next
  case (Some left)
  with assms show ?thesis by (auto simp: connect_def fail_error_def finish_def)
qed

definition sample_net :: "rx_item list \<Rightarrow> net_env" where
  "sample_net r =
     \<lparr>tcp_connect = (\<lambda>_. Inr (sample_transport r)), socks_connect = (\<lambda>_ _ _. Inl []),
      server_name_error = (\<lambda>_. None), tls_handshake = (\<lambda>_ _ t. Inr t)\<rparr>"

lemma connect_result_witness:
  "case fst (connect (sample_net (map RxByte (status_line 200 ''hi''))) None (default_config []) (new_connection ''s'')) of
      Inr _ \<Rightarrow> state (snd (connect (sample_net (map RxByte (status_line 200 ''hi''))) None (default_config [])
                 (new_connection ''s''))) = Ready
    | Inl _ \<Rightarrow> state (snd (connect (sample_net (map RxByte (status_line 200 ''hi''))) None (default_config [])
                 (new_connection ''s''))) \<noteq> Ready"
proof -
  obtain r c' where x: "connect (sample_net (map RxByte (status_line 200 ''hi''))) None (default_config [])
      (new_connection ''s'') = (r, c')" by force
  from connect_result [OF x] show ?thesis unfolding x by (cases r) auto
qed

text \<open>
  C39: The compression flag outlives its connection: \<open>quit\<close> and a new \<open>connect\<close> on the same object
  leave it set, even when the new server was never asked for compression.
\<close>

theorem compression_flag_survives_reconnect:
  assumes "compress_enabled c" and "connect net None cfg (snd (quit c)) = (Inr (), c')"
  shows "compress_enabled c'"
proof -
  obtain r1 c1 where 1: "send_command ''QUIT'' c = (r1, c1)" by force
  obtain r2 c2 where 2: "read_response_line c1 = (r2, c2)" by force
  have "compress_enabled c \<longrightarrow> compress_enabled c1" "compress_enabled c1 \<longrightarrow> compress_enabled c2"
    using steady_send [of c "''QUIT''"] steady_read [of c1] 1 2 by (simp_all add: steady_def)
  with assms(1) have "compress_enabled (snd (quit c))"
    using 1 2 by (cases "transport c"; cases r1) (simp_all add: quit_def)
  with connect_inner_ok [of net cfg "snd (quit c)" "()" c'] assms show ?thesis by (simp add: connect_def)
qed

definition plain_config :: server_config where
  "plain_config = (new_config [] ''s'' ''h'')\<lparr>ssl := False\<rparr>"

lemma sample_connect:
  "\<exists>c' tr. connect (sample_net (map RxByte (status_line 200 ''hi''))) None plain_config c = (Inr (), c')
     \<and> transport c' = Some tr \<and> wr tr = []"
proof -
  let ?r = "map RxByte (status_line 200 ''hi'')"
  let ?c = "c\<lparr>state := Connecting, transport := Some ((sample_transport ?r)\<lparr>tls := False\<rparr>)\<rparr>"
  have u: "utf8_valid (status_line 200 ''hi'')"
    by (rule utf8_valid_status_line, rule utf8_valid_ascii) (simp add: is_ascii_def)
  have d: "dial (sample_net ?r) plain_config (c\<lparr>state := Connecting\<rparr>) = (Inr (sample_transport ?r), c\<lparr>state := Connecting\<rparr>)"
    by (simp add: dial_def plain_config_def new_config_def default_config_def sample_net_def Let_def)
  have i: "install_transport (sample_net ?r) plain_config (sample_transport ?r) (c\<lparr>state := Connecting\<rparr>) = (Inr (), ?c)"
    by (simp add: install_transport_def plain_config_def)
  have "fst (read_response_line ?c) = Inr \<lparr>code = 200, message = ''hi'', data = None\<rparr>"
    using read_response_line_ok [of ?c "(sample_transport ?r)\<lparr>tls := False\<rparr>" ?r "[]" "status_line 200 ''hi''"] u
    by (simp add: sample_transport_def status_line_delivers parse_status_line del: delivers_map)
  then obtain c1 where w: "read_response_line ?c = (Inr \<lparr>code = 200, message = ''hi'', data = None\<rparr>, c1)"
    by (cases "read_response_line ?c") auto
  have l: "login plain_config c1 = finish Ready (Inr ()) c1"
    by (simp add: login_def plain_config_def new_config_def default_config_def)
  let ?c2 = "c1\<lparr>state := Ready\<rparr>"
  have "map_option wr (transport c1) = Some []"
    using steady_read [of ?c, unfolded w] by (simp add: steady_def sample_transport_def)
  then have "map_option wr (transport (probe_server plain_config ?c2)) = Some []"
    using probe_server_steady [of ?c2 plain_config] by (simp add: steady_def)
  moreover have "connect (sample_net ?r) None plain_config c = (Inr (), probe_server plain_config ?c2)"
    unfolding connect_def connect_inner_parts option.case d rbind_Inr i w
    using l by (simp add: check_welcome_def finish_def)
  ultimately show ?thesis by auto
qed

lemma compression_flag_survives_reconnect_witness:
  "\<exists>c'. connect (sample_net (map RxByte (status_line 200 ''hi''))) None plain_config
       (snd (quit ((new_connection ''s'')\<lparr>compress_enabled := True\<rparr>))) = (Inr (), c') \<and> compress_enabled c'"
proof -
  let ?c = "(new_connection ''s'')\<lparr>compress_enabled := True\<rparr>"
  obtain c' where c': "connect (sample_net (map RxByte (status_line 200 ''hi''))) None plain_config (snd (quit ?c))
      = (Inr (), c')" using sample_connect by blast
  from compression_flag_survives_reconnect [OF _ c'] c' show ?thesis by auto
qed

section \<open>The login dialogue\<close>

text \<open>
  The two-step login sends the user name and, only after the server has asked for it with 381
  (or 480), the password, each on a line of its own, and ends \<open>Ready\<close> when the server accepts.
\<close>

theorem authenticate_two_step:
  assumes "username cfg = Some user" and "password cfg = Some pw"
    and "transport c = Some tr" and "wr tr = []" and "rx tr = s1 @ s2 @ r"
    and "delivers READ_LINE_TIMEOUT s1 l1" and "utf8_valid l1" and "parse_response_line l1 = Inr st1"
    and "code st1 \<in> {381, 480}"
    and "delivers READ_LINE_TIMEOUT s2 l2" and "utf8_valid l2" and "parse_response_line l2 = Inr st2"
    and "code st2 = 281"
  shows "\<exists>c'. authenticate cfg c = (Inr (), c') \<and> state c' = Ready
     \<and> transport c' = Some (tr\<lparr>rx := r, tx := tx tr @ ''AUTHINFO USER '' @ user @ crlf
                                              @ ''AUTHINFO PASS '' @ pw @ crlf\<rparr>)"
proof -
  define t1 where "t1 = tr\<lparr>tx := tx tr @ ''AUTHINFO USER '' @ user @ crlf\<rparr>"
  define t2 where "t2 = t1\<lparr>rx := s2 @ r\<rparr>"
  define t3 where "t3 = t2\<lparr>tx := tx t2 @ ''AUTHINFO PASS '' @ pw @ crlf\<rparr>"
  let ?c0 = "c\<lparr>state := Authenticating\<rparr>"
  have s1: "send_command (''AUTHINFO USER '' @ user) ?c0 = (Inr (), ?c0\<lparr>transport := Some t1\<rparr>)"
    using assms(3,4) by (simp add: send_command_ok t1_def)
  define c1 where "c1 = ?c0\<lparr>transport := Some t2, now := now c + pause_of s1,
      io_heartbeat := tick (now c + pause_of s1) (io_heartbeat c)\<rparr>"
  have r1: "read_response_line (?c0\<lparr>transport := Some t1\<rparr>) = (Inr st1, c1)"
    using read_response_line_ok [of "?c0\<lparr>transport := Some t1\<rparr>" t1 s1 "s2 @ r" l1] assms(5-8)
    by (simp add: c1_def t1_def t2_def)
  have s2: "send_command (''AUTHINFO PASS '' @ pw) c1 = (Inr (), c1\<lparr>transport := Some t3\<rparr>)"
    using assms(4) by (simp add: send_command_ok c1_def t3_def t2_def t1_def)
  obtain c2 where r2: "read_response_line (c1\<lparr>transport := Some t3\<rparr>) = (Inr st2, c2)"
    and c2: "transport c2 = Some (t3\<lparr>rx := r\<rparr>)"
    using read_response_line_ok [of "c1\<lparr>transport := Some t3\<rparr>" t3 s2 r l2] assms(10-12)
    by (simp add: t3_def t2_def)
  have "auth_password cfg c1 = finish Ready (Inr ()) c2"
    unfolding auth_password_def assms(2) option.case s2 rbind_Inr r2 using assms(13) by simp
  moreover have "authenticate cfg c = auth_password cfg c1"
    unfolding authenticate_def Let_def assms(1) option.case s1 rbind_Inr r1 using assms(9) by auto
  ultimately show ?thesis
    using c2 by (simp add: finish_def t3_def t2_def t1_def)
qed

lemma authenticate_two_step_witness:
  "\<exists>c'. authenticate (plain_config\<lparr>username := Some ''u'', password := Some ''p''\<rparr>)
       (sample_connection (map RxByte (status_line 381 ''pw'') @ map RxByte (status_line 281 ''ok''))) = (Inr (), c')
     \<and> tx (the (transport c')) = ''AUTHINFO USER u'' @ crlf @ ''AUTHINFO PASS p'' @ crlf"
proof -
  let ?s = "map RxByte (status_line 381 ''pw'') @ map RxByte (status_line 281 ''ok'')"
  have u: "utf8_valid (status_line 381 ''pw'')" "utf8_valid (status_line 281 ''ok'')"
    by (rule utf8_valid_status_line, rule utf8_valid_ascii, simp add: is_ascii_def)+
  have "\<exists>c'. authenticate (plain_config\<lparr>username := Some ''u'', password := Some ''p''\<rparr>) (sample_connection ?s)
        = (Inr (), c') \<and> state c' = Ready
     \<and> transport c' = Some ((sample_transport ?s)\<lparr>rx := [], tx := tx (sample_transport ?s)
          @ ''AUTHINFO USER '' @ ''u'' @ crlf @ ''AUTHINFO PASS '' @ ''p'' @ crlf\<rparr>)"
  proof (rule authenticate_two_step [where ?l1.0 = "status_line 381 ''pw''" and ?l2.0 = "status_line 281 ''ok''"
        and ?st1.0 = "\<lparr>code = 381, message = ''pw'', data = None\<rparr>"
        and ?st2.0 = "\<lparr>code = 281, message = ''ok'', data = None\<rparr>"])
    show "rx (sample_transport ?s) = map RxByte (status_line 381 ''pw'') @ map RxByte (status_line 281 ''ok'') @ []"
      by (simp add: sample_transport_def)
  qed (simp_all add: sample_connection_def sample_transport_def status_line_delivers u parse_status_line
      del: delivers_map)
  then show ?thesis by (auto simp: sample_transport_def)
qed

section \<open>QUIT\<close>

text \<open>
  \<open>quit\<close> always succeeds and always ends with a closed, disconnected object on which every
  command is refused, whatever the peer does.
\<close>

theorem quit_closes:
  "fst (quit c) = Inr () \<and> state (snd (quit c)) = Disconnected \<and> transport (snd (quit c)) = None
   \<and> run_session gz cmds (snd (quit c)) = snd (quit c)"
proof -
  have "state (snd (quit c)) = Disconnected" by (simp add: quit_def Let_def)
  then have "run_session gz cmds (snd (quit c)) = snd (quit c)"
    unfolding run_session_def by (intro commands.session_refused) simp
  then show ?thesis by (simp add: quit_def Let_def)
qed

section \<open>Body buffers\<close>

definition pool_ok :: "nntp_connection \<Rightarrow> bool" where
  "pool_ok c \<longleftrightarrow> length (body_pool c) \<le> 8
     \<and> list_all (\<lambda>b. buf_bytes b = [] \<and> buf_capacity b \<le> 4 * 1024 * 1024) (body_pool c)"

inductive buffers_reach :: "nntp_connection \<Rightarrow> bool" where
  new: "buffers_reach (new_connection sid)"
| checkout: "buffers_reach c \<Longrightarrow> checkout_body_buffer c = (b, c') \<Longrightarrow> buffers_reach c'"
| release: "buffers_reach c \<Longrightarrow> buffers_reach (release_body_buffer b c)"
| read: "buffers_reach c \<Longrightarrow> read_multiline_body c = (r, c') \<Longrightarrow> buffers_reach c'"
| read_bounded: "buffers_reach c \<Longrightarrow> read_multiline_body_bounded m c = (r, c') \<Longrightarrow> buffers_reach c'"

lemma checkout_pool: "checkout_body_buffer c = (b, c') \<Longrightarrow> body_pool c' = butlast (body_pool c)"
  by (auto simp: checkout_body_buffer_def split: list.splits)

lemma read_into_pool: "body_pool (snd (read_multiline_body_into_bounded mx c)) = body_pool c"
  by (auto simp: read_multiline_body_into_bounded_def split: option.split prod.split)

lemma pool_ok_butlast: "pool_ok c \<Longrightarrow> body_pool c' = butlast (body_pool c) \<Longrightarrow> pool_ok c'"
  by (auto simp: pool_ok_def list_all_iff dest: in_set_butlastD)

text \<open>
  The free list of body buffers stays small and clean: started empty and changed only by taking
  and returning buffers and by reading bodies, it never holds more than eight buffers, each empty and
  of at most 4 MiB capacity.
\<close>

theorem body_pool_invariant:
  "buffers_reach c \<Longrightarrow> length (body_pool c) \<le> 8
     \<and> list_all (\<lambda>b. buf_bytes b = [] \<and> buf_capacity b \<le> 4 * 1024 * 1024) (body_pool c)"
  unfolding pool_ok_def [symmetric]
proof (induction rule: buffers_reach.induct)
  case (new sid)
  show ?case by (simp add: pool_ok_def new_connection_def)
next
  case (checkout c b c')
  then show ?case using pool_ok_butlast checkout_pool by blast
next
  case (release c b)
  then show ?case
    by (simp add: pool_ok_def release_body_buffer_def Let_def BODY_BUFFER_MAX_RETAINED_CAPACITY_def
        BODY_POOL_MAX_IDLE_def)
next
  case (read c r c')
  obtain b c1 where c1: "checkout_body_buffer c = (b, c1)" by force
  then have "body_pool c' = butlast (body_pool c)"
    using read(2) read_into_pool [of None c1] checkout_pool [OF c1] by (simp add: read_multiline_body_def)
  with read(3) show ?case by (rule pool_ok_butlast)
next
  case (read_bounded c m r c')
  then show ?case
    using read_into_pool [of "Some m" c] by (simp add: read_multiline_body_bounded_def pool_ok_def)
qed

lemma body_pool_invariant_witness:
  "length (body_pool (release_body_buffer \<lparr>buf_bytes = ''x'', buf_capacity = 10\<rparr> (new_connection []))) \<le> 8"
  using body_pool_invariant [OF buffers_reach.release [OF buffers_reach.new]] by blast

section \<open>No command is gated\<close>

text \<open>Reading and finishing send nothing.\<close>

definition silent :: "nntp_connection \<Rightarrow> 'a nntp_result \<times> nntp_connection \<Rightarrow> bool" where
  "silent c p \<longleftrightarrow> map_option tx (transport (snd p)) = map_option tx (transport c)"

named_theorems silent_intro \<open>rules for steps that send nothing\<close>

lemma silent_bind [silent_intro]:
  assumes "silent c p" and "\<And>a c'. silent c' (k a c')"
  shows "silent c (rbind p k)"
proof (cases p)
  case (Pair r c')
  with assms show ?thesis by (cases r) (auto simp: silent_def)
qed

lemma silent_mark [silent_intro]: "silent c p \<Longrightarrow> silent c (mark_error p)"
  by (auto simp: silent_def mark_error_def split: prod.splits sum.splits)

lemma silent_simple [silent_intro]:
  "silent c (finish s r c)" "silent c (r', c)"
  "silent c p \<Longrightarrow> silent c q \<Longrightarrow> silent c (if b then p else q)"
  by (simp_all add: silent_def finish_def)

lemma silent_read [silent_intro]: "silent c (read_response_line c)"
  by (auto simp: silent_def read_response_line_def Let_def tick_io_heartbeat_def
      split: option.split prod.split read_outcome.split)

lemma silent_into: "silent c (read_multiline_body_into_bounded mx c)"
  by (auto simp: silent_def read_multiline_body_into_bounded_def split: option.split prod.split)

lemma silent_body: "silent c (read_multiline_body c)" "silent c (read_multiline_body_bounded m c)"
proof -
  obtain b c1 where c1: "checkout_body_buffer c = (b, c1)" by force
  then have "transport c1 = transport c" by (auto simp: checkout_body_buffer_def split: list.splits)
  then show "silent c (read_multiline_body c)"
    using silent_into [of c1 None] by (simp add: read_multiline_body_def c1 silent_def)
qed (simp add: read_multiline_body_bounded_def silent_into)

lemma silent_decompress [silent_intro]:
  "silent c (read_multiline_body_maybe_decompress gz c)"
  "silent c (read_multiline_body_maybe_decompress_bounded gz m c)"
  unfolding read_multiline_body_maybe_decompress_def read_multiline_body_maybe_decompress_bounded_def
  by (auto intro!: silent_bind silent_body silent_simple split: prod.split option.split simp: Let_def)

text \<open>A call that has put \<open>w\<close> on the wire, or \<open>w\<close> and what follows it.\<close>

definition wires :: "bytes \<Rightarrow> bytes \<Rightarrow> 'a nntp_result \<times> nntp_connection \<Rightarrow> bool" where
  "wires w w' p \<longleftrightarrow> (\<exists>t. transport (snd p) = Some t \<and> (tx t = w \<or> tx t = w @ w'))"

named_theorems wire_intro \<open>rules for what a command puts on the wire\<close>

lemma wires_guard [wire_intro]: "\<not> b \<Longrightarrow> wires w m q \<Longrightarrow> wires w m (if b then p else q)"
  by simp

lemma wires_map_result [wire_intro]: "wires w m p \<Longrightarrow> wires w m (map_result f p)"
  by (simp add: wires_def map_result_def)

lemma exchange_sent:
  assumes "transport c = Some tr" and "wr tr = []"
  shows "rbind (exchange cmd (c\<lparr>state := Busy\<rparr>)) k =
    rbind (mark_error (read_response_line
      (c\<lparr>state := Busy, transport := Some (tr\<lparr>tx := tx tr @ cmd @ crlf\<rparr>)\<rparr>))) k"
  using assms by (simp add: exchange_def send_command_ok)

lemma wires_silent: "silent c p \<Longrightarrow> transport c = Some t \<Longrightarrow> wires (tx t) m p"
  by (auto simp: silent_def wires_def)

lemma wires_exchange [wire_intro]:
  assumes "transport c = Some tr" and "wr tr = []" and "\<And>st c'. silent c' (k st c')"
  shows "wires (tx tr @ cmd @ crlf) m (rbind (exchange cmd (c\<lparr>state := Busy\<rparr>)) k)"
proof -
  let ?c1 = "c\<lparr>state := Busy, transport := Some (tr\<lparr>tx := tx tr @ cmd @ crlf\<rparr>)\<rparr>"
  have "silent ?c1 (rbind (mark_error (read_response_line ?c1)) k)"
    by (intro silent_intro assms(3))
  from wires_silent [OF this, of "tr\<lparr>tx := tx tr @ cmd @ crlf\<rparr>" m] show ?thesis
    by (simp add: exchange_sent [OF assms(1,2)])
qed

lemma silent_limited [silent_intro]: "silent c (read_limited gz lim c)"
  by (auto simp: read_limited_def intro: silent_intro split: option.split)

lemma silent_ready [silent_intro]: "silent c (r, c\<lparr>state := s\<rparr>)" "silent c (finish s r (c\<lparr>state := s'\<rparr>))"
  by (simp_all add: silent_def finish_def)

text \<open>POST, which sends the article after the status line 340.\<close>

lemma wires_post:
  assumes "state c = Ready" and "transport c = Some tr" and "wr tr = []"
  shows "wires (tx tr @ ''POST'' @ crlf) (article_after ds 340) (post_chunks ds c)"
proof -
  let ?c1 = "c\<lparr>state := Busy, transport := Some (tr\<lparr>tx := tx tr @ ''POST'' @ crlf\<rparr>)\<rparr>"
  let ?w = "tx tr @ ''POST'' @ crlf"
  obtain r c2 where r: "read_response_line ?c1 = (r, c2)" by force
  with silent_read [of ?c1] steady_read [of ?c1] assms(3) obtain tr2 where
    t2: "transport c2 = Some tr2" "tx tr2 = ?w" "wr tr2 = []"
    by (auto simp: silent_def steady_def)
  let ?c3 = "c2\<lparr>transport := Some (tr2\<lparr>tx := tx tr2 @ concat ds @ terminator\<rparr>)\<rparr>"
  have w: "write_chunks (ds @ [terminator]) c2 = (Inr (), ?c3)"
    using write_chunks_ok [OF t2(1,3), of "ds @ [terminator]"] by simp
  obtain r3 c4 where r3: "read_response_line ?c3 = (r3, c4)" by force
  with silent_read [of ?c3] t2(2) obtain tr4 where "transport c4 = Some tr4" "tx tr4 = ?w @ concat ds @ terminator"
    by (auto simp: silent_def)
  with r r3 t2(1,2) show ?thesis
    unfolding post_chunks_def write_chunks_snoc exchange_sent [OF assms(2,3)]
    by (cases r; cases r3) (simp_all add: assms(1) w wires_def finish_def)
qed

text \<open>The prefix reader sends nothing either, but a prefix that is not complete closes the connection.\<close>

lemma silent_prefix: "silent c (read_multiline_body_prefix m c)"
  by (auto simp: silent_def read_multiline_body_prefix_def split: option.split prod.split)

text \<open>A call of the prefix method that has put \<open>w\<close> on the wire, or has closed the connection after a part.\<close>

definition wires_or_drops :: "bytes \<Rightarrow> body_prefix_response nntp_result \<times> nntp_connection \<Rightarrow> bool" where
  "wires_or_drops w p \<longleftrightarrow>
     (case transport (snd p) of
        Some t \<Rightarrow> tx t = w
      | None \<Rightarrow> (case fst p of Inr q \<Rightarrow> \<not> complete q | Inl _ \<Rightarrow> False))"

lemma drops_if: "(b \<Longrightarrow> wires_or_drops w p) \<Longrightarrow> wires_or_drops w q \<Longrightarrow> wires_or_drops w (if b then p else q)"
  by simp

lemma drops_silent:
  "silent c p \<Longrightarrow> map_option tx (transport c) = Some w \<Longrightarrow> wires_or_drops w p"
  by (auto simp: silent_def wires_or_drops_def)

lemma drops_prefix:
  assumes "map_option tx (transport c) = Some w"
  shows "wires_or_drops w (rbind (mark_error (read_multiline_body_prefix m c)) (\<lambda>prefix c.
           if complete prefix then finish Ready (Inr prefix) c
           else (Inr prefix, c\<lparr>transport := None, compress_enabled := False, state := Disconnected\<rparr>)))"
proof (cases "read_multiline_body_prefix m c")
  case (Pair r c1)
  with silent_prefix [of c m] assms show ?thesis
    by (cases r) (auto simp: silent_def wires_or_drops_def finish_def)
qed

lemma drops_exchange:
  assumes "transport c = Some tr" and "wr tr = []"
    and "\<And>st c'. map_option tx (transport c') = Some (tx tr @ cmd @ crlf)
          \<Longrightarrow> wires_or_drops (tx tr @ cmd @ crlf) (k st c')"
  shows "wires_or_drops (tx tr @ cmd @ crlf) (rbind (exchange cmd (c\<lparr>state := Busy\<rparr>)) k)"
proof -
  let ?c1 = "c\<lparr>state := Busy, transport := Some (tr\<lparr>tx := tx tr @ cmd @ crlf\<rparr>)\<rparr>"
  obtain r c2 where r: "read_response_line ?c1 = (r, c2)" by force
  with silent_read [of ?c1] have t: "map_option tx (transport c2) = Some (tx tr @ cmd @ crlf)"
    by (simp add: silent_def)
  with r assms(3) [OF t] show ?thesis
    unfolding exchange_sent [OF assms(1,2)] by (cases r) (auto simp: wires_or_drops_def)
qed

lemma drops_guard: "\<not> b \<Longrightarrow> wires_or_drops w q \<Longrightarrow> wires_or_drops w (if b then p else q)"
  by simp

lemma wires_prefix:
  assumes "transport c = Some tr" and "wr tr = []" and "state c = Ready" and "have_body (capabilities c)"
    and "\<not> compress_enabled c" and "0 < m" and "m \<le> 256 * 1024"
  shows "wires_or_drops (tx tr @ (''BODY '' @ normalize_message_id mid) @ crlf) (fetch_body_prefix mid m c)"
proof -
  have g: "\<not> (m = 0 \<or> 256 * 1024 < m)" "\<not> \<not> have_body (capabilities c)" "\<not> state c \<noteq> Ready"
    using assms by auto
  show ?thesis
    unfolding fetch_body_prefix_def Let_def if_not_P [OF g(1)] if_not_P [OF assms(5)] if_not_P [OF g(2)]
      if_not_P [OF g(3)]
    by (intro drops_exchange [OF assms(1,2)] drops_if [OF drops_prefix])
      (assumption, erule drops_silent [rotated], intro silent_intro)
qed

text \<open>Arguments a command accepts: bounds in range, patterns given, and no compression for a prefix.\<close>

fun admissible :: "nntp_connection \<Rightarrow> command \<Rightarrow> bool" where
  "admissible c (Head n m) \<longleftrightarrow> 0 < n \<and> 0 < m \<and> m \<le> 64 * 1024"
| "admissible c (Body_Prefix _ m) \<longleftrightarrow> 0 < m \<and> m \<le> 256 * 1024 \<and> \<not> compress_enabled c"
| "admissible c (Xover_Lossless_Bounded _ _ _ m) \<longleftrightarrow> 0 < m \<and> m \<le> MAX_RESPONSE_BOUND"
| "admissible c (Xpat _ _ ps) \<longleftrightarrow> ps \<noteq> []"
| "admissible c (Xpat_Bounded _ _ ps m) \<longleftrightarrow> ps \<noteq> [] \<and> 0 < m \<and> m \<le> MAX_RESPONSE_BOUND"
| "admissible c _ \<longleftrightarrow> True"

lemma run_command_wires:
  assumes "state c = Ready" and "all_content (capabilities c)" and "transport c = Some tr" and "wr tr = []"
    and "admissible c j" and "\<And>mid m. j \<noteq> Body_Prefix mid m"
  shows "wires (tx tr @ command_line (capabilities c) j @ crlf) (sent_after j 340) (run_command gz j c)"
proof -
  from assms(2) have f: "have_stat (capabilities c)" "have_head (capabilities c)" "have_body (capabilities c)"
    by (simp_all add: all_content_def)
  note sends = wires_exchange [OF assms(3,4)]
  note post = wires_post [OF assms(1,3,4)]
  show ?thesis
  proof (cases j)
    case (Body mid)
    with f have l: "command_line (capabilities c) j = ''BODY '' @ normalize_message_id mid"
      by (simp add: body_line_def)
    have g: "\<not> (\<not> have_body (capabilities c) \<and> have_article (capabilities c))" using f by simp
    show ?thesis unfolding l
      unfolding Body run_command.simps fetch_body_def fetch_body_command_def Let_def if_not_P [OF g]
      by (intro wires_map_result wires_guard sends silent_intro) (simp add: assms(1))
  next
    case (Post art)
    show ?thesis unfolding Post run_command.simps command_line.simps sent_after.simps wrapper_defs
      by (intro wires_map_result post)
  next
    case (Post_Bytes art)
    show ?thesis unfolding Post_Bytes run_command.simps command_line.simps sent_after.simps wrapper_defs
      by (intro wires_map_result post)
  qed (use assms(5,6) in \<open>simp_all only: run_command.simps command_line.simps sent_after.simps admissible.simps
        wrapper_defs fetch_article_def fetch_head_number_def stat_article_def ping_def group_command_def
        get_overview_format_def xover_lossless_with_limit_def xover_def xhdr_def xpat_with_limit_def
        list_active_def list_active_line_def Let_def command.distinct\<close>,
      (intro wires_map_result wires_guard sends silent_intro; use assms(1) f in auto)+)
qed

text \<open>
  C36: After a successful connect no command is refused for a missing capability: as long as writes
  succeed, every command whose arguments are admissible (and, for a BODY prefix, while
  compression is off) puts exactly its one command line on the wire
  (and \<open>POST\<close> nothing after it or the whole article), or it is a BODY prefix that has read a part of the
  body and then closed the connection.  \<open>BODY\<close> never falls back to \<open>ARTICLE\<close>.
\<close>

theorem commands_not_gated:
  assumes "connect net lapse cfg c = (Inr (), c')" and "transport c' = Some tr" and "wr tr = []"
    and "admissible c' j"
  shows "(case transport (snd (run_command gz j c')) of
        Some t \<Rightarrow> tx t = tx tr @ command_line (capabilities c') j @ crlf
          \<or> tx t = tx tr @ command_line (capabilities c') j @ crlf @ sent_after j 340
      | None \<Rightarrow> \<exists>mid m p. j = Body_Prefix mid m \<and> fst (fetch_body_prefix mid m c') = Inr p \<and> \<not> complete p)
    \<and> command_line (capabilities c') (Body mid) = ''BODY '' @ normalize_message_id mid"
proof -
  have s: "state c' = Ready" "all_content (capabilities c')"
    using assms(1) connect_inner_ok [of net cfg c "()" c']
    by (auto simp: connect_def fail_error_def finish_def split: option.splits)
  then have f: "have_body (capabilities c')" by (simp add: all_content_def)
  show ?thesis
  proof (cases "\<exists>mid m. j = Body_Prefix mid m")
    case True
    then obtain i m where j: "j = Body_Prefix i m" by blast
    with assms(4) wires_prefix [OF assms(2,3) s(1) f, of m i] f show ?thesis
      by (auto simp: j wires_or_drops_def body_line_def map_result_def split: option.splits sum.splits)
  next
    case False
    with run_command_wires [OF s assms(2-4), of gz] f show ?thesis
      by (auto simp: wires_def body_line_def)
  qed
qed

lemma commands_not_gated_witness:
  "\<exists>c' tr. connect (sample_net (map RxByte (status_line 200 ''hi''))) None plain_config (new_connection ''s'') = (Inr (), c')
     \<and> transport c' = Some tr
     \<and> map_option tx (transport (snd (stat_article ''a'' c'))) = Some (tx tr @ (''STAT '' @ ''<a>'') @ crlf)"
proof -
  obtain c' tr where c': "connect (sample_net (map RxByte (status_line 200 ''hi''))) None plain_config
      (new_connection ''s'') = (Inr (), c')" "transport c' = Some tr" "wr tr = []" using sample_connect by blast
  have "normalize_message_id ''a'' = ''<a>''" by (simp add: normalize_message_id_def starts_with_def)
  moreover have "admissible c' (Stat ''a'')" by simp
  note conjunct1 [OF commands_not_gated [OF c' this, of sample_gunzip "''a''"]]
  ultimately show ?thesis using c' by (auto split: option.splits)
qed

end
