(* ===== verification/Pool_Laws.thy ===== *)
theory Pool_Laws
  imports Pool Session_Laws
begin

text \<open>
  The connection pool: what it hands out and keeps, its accounting of slots, and the bound on live
  connections under every interleaving of the tasks that share it.
\<close>

section \<open>What is handed out and what is kept\<close>

definition pool_wf :: "connection_pool \<Rightarrow> bool" where
  "pool_wf p \<longleftrightarrow> list_all (\<lambda>pc. healthy pc \<and> \<not> armed pc) (idle p)"

lemma pool_wf_new [simp]: "pool_wf (pool_new cfg t)"
  by (simp add: pool_wf_def pool_new_def)

lemma healthy_frame [simp]:
  "healthy (pc\<lparr>armed := b\<rparr>) = healthy pc" "healthy (pc\<lparr>last_used := t\<rparr>) = healthy pc"
  by (simp_all add: healthy_def)

lemma drop_pooled_simps [simp]:
  "idle (drop_pooled pc p) = idle p" "armed pc \<Longrightarrow> permits (drop_pooled pc p) = Suc (permits p)"
  "\<not> armed pc \<Longrightarrow> drop_pooled pc p = p"
  by (simp_all add: drop_pooled_def)

lemma release_simps [simp]:
  "permits (release pc p t) = Suc (permits p)"
  "idle (release pc p t) = (if healthy pc then idle p @ [pc\<lparr>armed := False, last_used := t\<rparr>] else idle p)"
  by (simp_all add: release_def add_permit_def drop_pooled_def Let_def)

lemma discard_simps [simp]:
  "permits (discard pc p) = Suc (permits p)" "idle (discard pc p) = idle p"
  by (simp_all add: discard_def add_permit_def drop_pooled_def)

lemma release_wf: "pool_wf p \<Longrightarrow> pool_wf (release pc p t)"
  by (simp add: pool_wf_def)

lemma discard_wf: "pool_wf p \<Longrightarrow> pool_wf (discard pc p)"
  by (simp add: pool_wf_def)

lemma apply_event_wf: "pool_wf p \<Longrightarrow> pool_wf (apply_event ev p t)"
  by (cases ev) (simp_all add: release_wf discard_wf pool_wf_def)

lemma wait_permit_wf: "pool_wf p \<Longrightarrow> wait_permit evs left p t = (b, p', t') \<Longrightarrow> pool_wf p'"
proof (induction evs left p t rule: wait_permit.induct)
  case (2 d ev evs left p t)
  then show ?case
    using apply_event_wf [OF 2(2), of ev "t + int d"]
    by (auto simp: Let_def pool_wf_def split: if_splits)
qed simp

lemma pool_wf_permits [simp]:
  "pool_wf (p\<lparr>permits := n\<rparr>) = pool_wf p" "pool_wf (add_permit p) = pool_wf p"
  by (simp_all add: pool_wf_def add_permit_def)

lemma take_permit_wf: "pool_wf p \<Longrightarrow> take_permit env p t = (r, p', t') \<Longrightarrow> pool_wf p'"
proof (cases "0 < permits p")
  case False
  obtain b q u where w: "wait_permit (meanwhile env) ACQUIRE_TIMEOUT p t = (b, q, u)" by (metis surj_pair)
  assume "pool_wf p" "take_permit env p t = (r, p', t')"
  with False w wait_permit_wf [OF _ w] show ?thesis by (auto simp: take_permit_def)
qed (auto simp: take_permit_def)

lemma ping_ok_healthy: "ping c = (Inr u, c') \<Longrightarrow> state c' = Ready \<and> is_connected c'"
  unfolding ping_def
  by (auto elim!: rbind_okE dest!: exchange_transport simp: finish_def is_connected_def split: if_splits)

lemma try_idle_frame:
  assumes "pool_wf p" and "try_idle p t = (r, p', t')"
  shows "pool_wf p' \<and> permits p' = permits p \<and> length (idle p') = length (idle p) - 1
    \<and> (case r of Some pc \<Rightarrow> healthy pc \<and> armed pc \<and> idle p \<noteq> [] | None \<Rightarrow> True)"
proof (cases "idle p = []")
  case True
  with assms show ?thesis by (simp add: try_idle_def)
next
  case False
  let ?pc = "last (idle p)" and ?p = "p\<lparr>idle := butlast (idle p)\<rparr>"
  have l: "healthy ?pc" "\<not> armed ?pc" using assms(1) False by (auto simp: pool_wf_def list_all_iff)
  have w: "pool_wf ?p" using assms(1) by (auto simp: pool_wf_def list_all_iff dest: in_set_butlastD)
  obtain pr c' where pg: "ping (pc_conn ?pc) = (pr, c')" by force
  have d: "drop_pooled (?pc\<lparr>pc_conn := c'\<rparr>) ?p = ?p" using l(2) by simp
  show ?thesis
  proof (cases pr)
    case (Inl e)
    with assms(2) False l w pg d show ?thesis
      by (auto simp: try_idle_def Let_def split: if_splits)
  next
    case (Inr u)
    with ping_ok_healthy [of "pc_conn ?pc" u c'] pg
    have "healthy (?pc\<lparr>pc_conn := c', last_used := t'', armed := True\<rparr>)" for t''
      by (simp add: healthy_def)
    with assms(2) False l w pg Inr show ?thesis
      by (auto simp: try_idle_def Let_def split: if_splits)
  qed
qed

lemma create_connection_frame:
  "create_connection env p t = (r, p', t') \<Longrightarrow>
     permits p' = permits p \<and> idle p' = idle p
     \<and> (case r of Inr c \<Rightarrow> state c = Ready \<and> is_connected c | Inl _ \<Rightarrow> True)"
proof -
  assume a: "create_connection env p t = (r, p', t')"
  obtain p1 t1 where w: "wait_for_ramp_up p t = (p1, t1)" by force
  then have "permits p1 = permits p" "idle p1 = idle p"
    by (auto simp: wait_for_ramp_up_def Let_def split: if_splits)
  define cid where "cid = cfg_id (pool_config p1) @ ''#'' @ show_nat (created_count p1 + 1)"
  obtain x c where x: "connect (net_for env cid) (lapse_for env cid) (pool_config p1) (new_connection cid) = (x, c)"
    by force
  have "case x of Inr _ \<Rightarrow> state c = Ready \<and> is_connected c | Inl _ \<Rightarrow> True"
  proof (cases x)
    case (Inr u)
    with x show ?thesis
    proof (cases "lapse_for env cid")
      case None
      with x Inr connect_inner_ok show ?thesis by (fastforce simp: connect_def is_connected_def)
    qed (use x Inr in \<open>simp add: connect_def fail_error_def finish_def\<close>)
  qed simp
  with a w x \<open>permits p1 = permits p\<close> \<open>idle p1 = idle p\<close> show ?thesis
    by (cases x) (auto simp: create_connection_def Let_def cid_def)
qed

lemma acquire_cases:
  assumes "acquire env p t = (r, p', t')"
  obtains (timeout) e where "take_permit env p t = (Inl e, p', t')" "r = Inl e"
  | (reused) pc p1 t1 where "take_permit env p t = (Inr (), p1, t1)"
      "try_idle p1 t1 = (Some pc, p', t')" "r = Inr pc"
  | (created) c p1 t1 p2 t2 where "take_permit env p t = (Inr (), p1, t1)"
      "try_idle p1 t1 = (None, p2, t2)" "create_connection env p2 t2 = (Inr c, p', t')"
      "r = Inr \<lparr>pc_conn = c, last_used = t', armed = True\<rparr>"
  | (failed) e p1 t1 p2 t2 p3 where "take_permit env p t = (Inr (), p1, t1)"
      "try_idle p1 t1 = (None, p2, t2)" "create_connection env p2 t2 = (Inl e, p3, t')"
      "p' = add_permit p3" "r = Inl e"
proof -
  obtain x p1 t1 where 1: "take_permit env p t = (x, p1, t1)" by (metis surj_pair)
  obtain y p2 t2 where 2: "try_idle p1 t1 = (y, p2, t2)" by (metis surj_pair)
  obtain z p3 t3 where 3: "create_connection env p2 t2 = (z, p3, t3)" by (metis surj_pair)
  from assms 1 2 3 that show ?thesis
    by (cases x; cases y; cases z) (simp_all add: acquire_def)
qed

lemma acquire_healthy:
  assumes "pool_wf p" and "acquire env p t = (r, p', t')"
  shows "pool_wf p' \<and> (case r of Inr pc \<Rightarrow> healthy pc \<and> armed pc | Inl _ \<Rightarrow> True)"
  using assms(2)
proof (cases rule: acquire_cases)
  case (timeout e)
  then show ?thesis using take_permit_wf [OF assms(1)] by simp
next
  case (reused pc p1 t1)
  then show ?thesis using try_idle_frame [OF take_permit_wf [OF assms(1) reused(1)] reused(2)] by simp
next
  case (created c p1 t1 p2 t2)
  have "pool_wf p2" using try_idle_frame [OF take_permit_wf [OF assms(1) created(1)] created(2)] by simp
  with created(4) create_connection_frame [OF created(3)] show ?thesis
    by (simp add: pool_wf_def healthy_def)
next
  case (failed e p1 t1 p2 t2 p3)
  have "pool_wf p2" using try_idle_frame [OF take_permit_wf [OF assms(1) failed(1)] failed(2)] by simp
  with failed(4,5) create_connection_frame [OF failed(3)] show ?thesis
    by (simp add: pool_wf_def add_permit_def)
qed


definition sample_env :: pool_env where
  "sample_env =
     \<lparr>net_for = (\<lambda>_. sample_net (map RxByte (status_line 200 ''hi''))), lapse_for = (\<lambda>_. None), meanwhile = []\<rparr>"

lemma sample_acquire:
  "\<exists>pc p' t'. acquire sample_env (pool_new plain_config 0) 0 = (Inr pc, p', t')"
proof -
  let ?p = "(pool_new plain_config 0)\<lparr>permits := connections plain_config - 1\<rparr>"
  have pos: "0 < connections plain_config"
    by (simp add: plain_config_def new_config_def default_config_def default_connections_def)
  then have 1: "take_permit sample_env (pool_new plain_config 0) 0 = (Inr (), ?p, 0)"
    by (simp add: take_permit_def pool_new_def)
  have 2: "try_idle ?p 0 = (None, ?p, 0)" by (simp add: try_idle_def pool_new_def)
  obtain z p3 t3 where 3: "create_connection sample_env ?p 0 = (z, p3, t3)" by (metis surj_pair)
  have "\<exists>c'. connect (sample_net (map RxByte (status_line 200 ''hi''))) None plain_config c0 = (Inr (), c')" for c0
    using sample_connect by blast
  moreover have "pool_config (fst (wait_for_ramp_up ?p 0)) = plain_config"
    by (simp add: wait_for_ramp_up_def pool_new_def Let_def)
  ultimately have "\<not> isl z"
    using 3 unfolding create_connection_def Let_def
    by (auto simp: sample_env_def split: prod.splits sum.splits) (metis Inl_Inr_False Pair_inject fst_conv)
  with 1 2 3 show ?thesis by (cases z) (auto simp: acquire_def)
qed


section \<open>Slots under concurrency\<close>

text \<open>
  The pool as many tasks see it: how many permits are free, how many tasks hold one and have not yet
  looked at the idle list, are checking an idle connection, are opening one, have one checked out, or
  have parked one and not yet returned the permit; and how many connections are parked.  Each step is
  what one task does between two points where another may run.
\<close>

record slots =
  sl_free :: nat
  sl_granted :: nat
  sl_probing :: nat
  sl_creating :: nat
  sl_out :: nat
  sl_returning :: nat
  sl_idle :: nat

inductive slot_step :: "slots \<Rightarrow> slots \<Rightarrow> bool" where
  grant: "0 < sl_free s \<Longrightarrow> s' = s\<lparr>sl_free := sl_free s - 1, sl_granted := sl_granted s + 1\<rparr> \<Longrightarrow> slot_step s s'"
| pop: "0 < sl_granted s \<Longrightarrow> 0 < sl_idle s \<Longrightarrow>
    s' = s\<lparr>sl_granted := sl_granted s - 1, sl_idle := sl_idle s - 1, sl_probing := sl_probing s + 1\<rparr> \<Longrightarrow>
    slot_step s s'"
| pop_none: "0 < sl_granted s \<Longrightarrow> sl_idle s = 0 \<Longrightarrow>
    s' = s\<lparr>sl_granted := sl_granted s - 1, sl_creating := sl_creating s + 1\<rparr> \<Longrightarrow> slot_step s s'"
| reuse: "0 < sl_probing s \<Longrightarrow>
    s' = s\<lparr>sl_probing := sl_probing s - 1, sl_out := sl_out s + 1\<rparr> \<Longrightarrow> slot_step s s'"
| broken: "0 < sl_probing s \<Longrightarrow>
    s' = s\<lparr>sl_probing := sl_probing s - 1, sl_creating := sl_creating s + 1\<rparr> \<Longrightarrow> slot_step s s'"
| connected: "0 < sl_creating s \<Longrightarrow>
    s' = s\<lparr>sl_creating := sl_creating s - 1, sl_out := sl_out s + 1\<rparr> \<Longrightarrow> slot_step s s'"
| connect_failed: "0 < sl_creating s \<Longrightarrow>
    s' = s\<lparr>sl_creating := sl_creating s - 1, sl_free := sl_free s + 1\<rparr> \<Longrightarrow> slot_step s s'"
| park: "0 < sl_out s \<Longrightarrow>
    s' = s\<lparr>sl_out := sl_out s - 1, sl_idle := sl_idle s + 1, sl_returning := sl_returning s + 1\<rparr> \<Longrightarrow>
    slot_step s s'"
| drop_conn: "0 < sl_out s \<Longrightarrow>
    s' = s\<lparr>sl_out := sl_out s - 1, sl_returning := sl_returning s + 1\<rparr> \<Longrightarrow> slot_step s s'"
| give_back: "0 < sl_returning s \<Longrightarrow>
    s' = s\<lparr>sl_returning := sl_returning s - 1, sl_free := sl_free s + 1\<rparr> \<Longrightarrow> slot_step s s'"
| cancel_granted: "0 < sl_granted s \<Longrightarrow>
    s' = s\<lparr>sl_granted := sl_granted s - 1, sl_free := sl_free s + 1\<rparr> \<Longrightarrow> slot_step s s'"
| cancel_probing: "0 < sl_probing s \<Longrightarrow>
    s' = s\<lparr>sl_probing := sl_probing s - 1, sl_free := sl_free s + 1\<rparr> \<Longrightarrow> slot_step s s'"
| close: "s' = s\<lparr>sl_idle := 0\<rparr> \<Longrightarrow> slot_step s s'"

inductive_cases slot_stepE: "slot_step s s'"

definition slots_new :: "nat \<Rightarrow> slots" where
  "slots_new m = \<lparr>sl_free = m, sl_granted = 0, sl_probing = 0, sl_creating = 0, sl_out = 0,
                 sl_returning = 0, sl_idle = 0\<rparr>"

definition slots_inv :: "nat \<Rightarrow> slots \<Rightarrow> bool" where
  "slots_inv m s \<longleftrightarrow>
     sl_free s + sl_granted s + sl_probing s + sl_creating s + sl_out s + sl_returning s = m
     \<and> sl_idle s \<le> sl_free s + sl_granted s + sl_returning s"

text \<open>The connections that are open or being opened.\<close>

definition live :: "slots \<Rightarrow> nat" where
  "live s = sl_idle s + sl_probing s + sl_creating s + sl_out s"

lemma slot_step_inv: "slot_step s s' \<Longrightarrow> slots_inv m s \<Longrightarrow> slots_inv m s'"
  by (induction rule: slot_step.induct) (auto simp: slots_inv_def)

lemma slots_reach_inv: "slot_step\<^sup>*\<^sup>* (slots_new m) s \<Longrightarrow> slots_inv m s"
proof (induction rule: rtranclp_induct)
  case base
  show ?case by (simp add: slots_new_def slots_inv_def)
qed (rule slot_step_inv)

text \<open>
  C11: However the tasks sharing a pool interleave, cancel their calls or close the idle connections,
  every slot is accounted for and the connections that are parked, being checked, being opened or
  checked out are together never more than the configured number.
\<close>

theorem pool_bound:
  assumes "slot_step\<^sup>*\<^sup>* (slots_new (connections cfg)) s"
  shows "live s \<le> connections cfg
    \<and> sl_free s + sl_granted s + sl_probing s + sl_creating s + sl_out s + sl_returning s = connections cfg"
  using slots_reach_inv [OF assms] by (auto simp: slots_inv_def live_def)

lemma pool_bound_witness:
  "live \<lparr>sl_free = 7, sl_granted = 1, sl_probing = 0, sl_creating = 0, sl_out = 0, sl_returning = 0,
         sl_idle = 0\<rparr> \<le> connections plain_config"
proof -
  have "connections plain_config = 8"
    by (simp add: plain_config_def new_config_def default_config_def default_connections_def)
  then have "slot_step (slots_new (connections plain_config))
      \<lparr>sl_free = 7, sl_granted = 1, sl_probing = 0, sl_creating = 0, sl_out = 0, sl_returning = 0, sl_idle = 0\<rparr>"
    by (intro slot_step.grant) (simp_all add: slots_new_def)
  from pool_bound [OF r_into_rtranclp, OF this] show ?thesis by blast
qed

text \<open>The pool between two calls, with \<open>n\<close> connections checked out.\<close>

definition slots_of :: "connection_pool \<Rightarrow> nat \<Rightarrow> slots" where
  "slots_of p n = \<lparr>sl_free = permits p, sl_granted = 0, sl_probing = 0, sl_creating = 0, sl_out = n,
                  sl_returning = 0, sl_idle = length (idle p)\<rparr>"

text \<open>The same while the caller owns a permit, and while it opens a connection.\<close>

definition slots_granted :: "connection_pool \<Rightarrow> nat \<Rightarrow> slots" where
  "slots_granted p n = (slots_of p n)\<lparr>sl_granted := 1\<rparr>"

definition slots_creating :: "connection_pool \<Rightarrow> nat \<Rightarrow> slots" where
  "slots_creating p n = (slots_of p n)\<lparr>sl_creating := 1\<rparr>"

lemmas slots_defs = slots_of_def slots_granted_def slots_creating_def

lemma two_steps: "slot_step a b \<Longrightarrow> slot_step b c \<Longrightarrow> slot_step\<^sup>*\<^sup>* a c"
  by (meson converse_rtranclp_into_rtranclp r_into_rtranclp)

lemma slots_new_of: "slots_of (pool_new cfg t) 0 = slots_new (connections cfg)"
  by (simp add: slots_of_def slots_new_def pool_new_def)

lemma out_returned:
  assumes "permits p' = Suc (permits p)" and "idle p' = idle p"
  shows "slot_step\<^sup>*\<^sup>* (slots_of p (Suc n)) (slots_of p' n)"
  by (rule two_steps [OF slot_step.drop_conn [OF _ refl] slot_step.give_back])
     (simp_all add: slots_of_def assms)

lemma release_slots: "slot_step\<^sup>*\<^sup>* (slots_of p (Suc n)) (slots_of (release pc p t) n)"
proof (cases "healthy pc")
  case True
  show ?thesis
    by (rule two_steps [OF slot_step.park [OF _ refl] slot_step.give_back])
       (simp_all add: slots_of_def True)
qed (simp add: out_returned)

lemma discard_slots: "slot_step\<^sup>*\<^sup>* (slots_of p (Suc n)) (slots_of (discard pc p) n)"
  by (simp add: out_returned)

lemma drop_slots: "armed pc \<Longrightarrow> slot_step\<^sup>*\<^sup>* (slots_of p (Suc n)) (slots_of (drop_pooled pc p) n)"
  by (simp add: out_returned)

text \<open>While waiting, other tasks give back connections they hold.\<close>

fun held :: "pool_event \<Rightarrow> bool" where
  "held (Dropped pc) = armed pc"
| "held _ = True"

lemma apply_event_slots: "held ev \<Longrightarrow> slot_step\<^sup>*\<^sup>* (slots_of p (Suc n)) (slots_of (apply_event ev p t) n)"
  by (cases ev) (simp_all add: release_slots discard_slots drop_slots)

lemma apply_event_permits: "held ev \<Longrightarrow> permits (apply_event ev p t) = Suc (permits p)"
  by (cases ev) simp_all

lemma grant_slots: "0 < permits p \<Longrightarrow> slot_step (slots_of p n) (slots_granted (p\<lparr>permits := permits p - 1\<rparr>) n)"
  by (rule slot_step.grant) (simp_all add: slots_defs)

lemma wait_permit_slots:
  assumes "wait_permit evs left p t = (b, p', t')" and "\<forall>(d, ev) \<in> set evs. held ev" and "length evs \<le> n"
  shows "if b then \<exists>m. n = Suc m \<and> slot_step\<^sup>*\<^sup>* (slots_of p n) (slots_granted p' m) else p' = p"
  using assms
proof (cases evs)
  case (Cons e evs')
  obtain d ev where e: "e = (d, ev)" by force
  obtain m where n: "n = Suc m" using assms(3) Cons by (cases n) auto
  have h: "held ev" using assms(2) Cons e by simp
  let ?q = "apply_event ev p (t + int d)"
  have "0 < permits ?q" using apply_event_permits [OF h] by simp
  then have "slot_step\<^sup>*\<^sup>* (slots_of p (Suc m)) (slots_granted (?q\<lparr>permits := permits ?q - 1\<rparr>) m)"
    using apply_event_slots [OF h] grant_slots by (meson rtranclp.rtrancl_into_rtrancl)
  with assms(1) Cons e n \<open>0 < permits ?q\<close> show ?thesis by (auto simp: Let_def split: if_splits)
qed auto

lemma try_idle_slots:
  assumes "pool_wf p" and "try_idle p t = (r, p', t')"
  shows "slot_step\<^sup>*\<^sup>* (slots_granted p n)
    (case r of Some _ \<Rightarrow> slots_of p' (Suc n) | None \<Rightarrow> slots_creating p' n)"
proof -
  note f = try_idle_frame [OF assms]
  let ?probe = "(slots_of p' n)\<lparr>sl_probing := 1\<rparr>"
  show ?thesis
  proof (cases "idle p = []")
    case True
    with assms(2) have "r = None" "p' = p" by (auto simp: try_idle_def)
    then show ?thesis
      using True by (auto intro!: slot_step.pop_none simp: slots_defs)
  next
    case False
    have pop: "slot_step (slots_granted p n) ?probe"
      using f False by (intro slot_step.pop) (simp_all add: slots_defs)
    show ?thesis
    proof (cases r)
      case None
      then show ?thesis
        using two_steps [OF pop slot_step.broken, of "slots_creating p' n"] by (simp add: slots_defs)
    next
      case (Some pc)
      then show ?thesis
        using two_steps [OF pop slot_step.reuse, of "slots_of p' (Suc n)"] by (simp add: slots_defs)
    qed
  qed
qed

lemma take_permit_slots:
  assumes "take_permit env p t = (Inr (), p1, t1)"
    and "\<forall>(d, ev) \<in> set (meanwhile env). held ev" and "length (meanwhile env) \<le> n"
  shows "\<exists>k \<le> n. slot_step\<^sup>*\<^sup>* (slots_of p n) (slots_granted p1 k)"
proof (cases "0 < permits p")
  case True
  with assms(1) grant_slots [OF True] show ?thesis by (auto simp: take_permit_def)
next
  case False
  obtain b q u where w: "wait_permit (meanwhile env) ACQUIRE_TIMEOUT p t = (b, q, u)" by (metis surj_pair)
  with False assms(1) have "b" "q = p1" by (auto simp: take_permit_def split: if_splits)
  with wait_permit_slots [OF w assms(2,3)] obtain m where
    "n = Suc m" "slot_step\<^sup>*\<^sup>* (slots_of p n) (slots_granted p1 m)" by auto
  then show ?thesis by (intro exI [of _ m]) simp
qed

text \<open>
  C21: The pool's own operations are runs of the concurrent model: acquiring takes the pool with some
  connections checked out to one with one more, or, on error, to one with as many, after any number
  of connections given back meanwhile.  So the bound holds for them.
\<close>

theorem acquire_refines_slots:
  assumes "pool_wf p" and "acquire env p t = (r, p', t')"
    and "\<forall>(d, ev) \<in> set (meanwhile env). held ev" and "length (meanwhile env) \<le> n"
  shows "\<exists>k \<le> n. slot_step\<^sup>*\<^sup>* (slots_of p n) (slots_of p' (case r of Inr _ \<Rightarrow> Suc k | Inl _ \<Rightarrow> k))"
proof -
  note tk = take_permit_slots [OF _ assms(3,4)]
  from assms(2) show ?thesis
  proof (cases rule: acquire_cases)
    case (timeout e)
    obtain b q u where w: "wait_permit (meanwhile env) ACQUIRE_TIMEOUT p t = (b, q, u)" by (metis surj_pair)
    with timeout have "p' = p"
      using wait_permit_slots [OF w assms(3,4)] by (auto simp: take_permit_def split: if_splits)
    with timeout show ?thesis by auto
  next
    case (reused pc p1 t1)
    from tk [OF reused(1)] obtain k where "k \<le> n" "slot_step\<^sup>*\<^sup>* (slots_of p n) (slots_granted p1 k)" by blast
    moreover have "slot_step\<^sup>*\<^sup>* (slots_granted p1 k) (slots_of p' (Suc k))"
      using try_idle_slots [OF take_permit_wf [OF assms(1) reused(1)] reused(2), of k] by simp
    ultimately show ?thesis using reused(3) by (auto intro: rtranclp_trans)
  next
    case (created c p1 t1 p2 t2)
    from tk [OF created(1)] obtain k where k: "k \<le> n" "slot_step\<^sup>*\<^sup>* (slots_of p n) (slots_granted p1 k)" by blast
    have "slot_step\<^sup>*\<^sup>* (slots_granted p1 k) (slots_creating p2 k)"
      using try_idle_slots [OF take_permit_wf [OF assms(1) created(1)] created(2), of k] by simp
    moreover have "slot_step (slots_creating p2 k) (slots_of p' (Suc k))"
      using create_connection_frame [OF created(3)]
      by (intro slot_step.connected) (simp_all add: slots_defs)
    ultimately have "slot_step\<^sup>*\<^sup>* (slots_of p n) (slots_of p' (Suc k))"
      using k(2) by (meson rtranclp.rtrancl_into_rtrancl rtranclp_trans)
    with created(4) k(1) show ?thesis by auto
  next
    case (failed e p1 t1 p2 t2 p3)
    from tk [OF failed(1)] obtain k where k: "k \<le> n" "slot_step\<^sup>*\<^sup>* (slots_of p n) (slots_granted p1 k)" by blast
    have "slot_step\<^sup>*\<^sup>* (slots_granted p1 k) (slots_creating p2 k)"
      using try_idle_slots [OF take_permit_wf [OF assms(1) failed(1)] failed(2), of k] by simp
    moreover have "slot_step (slots_creating p2 k) (slots_of p' k)"
      using create_connection_frame [OF failed(3)] failed(4)
      by (intro slot_step.connect_failed) (simp_all add: slots_defs add_permit_def)
    ultimately have "slot_step\<^sup>*\<^sup>* (slots_of p n) (slots_of p' k)"
      using k(2) by (meson rtranclp.rtrancl_into_rtrancl rtranclp_trans)
    with failed(5) k(1) show ?thesis by auto
  qed
qed

lemma acquire_refines_slots_witness:
  "\<exists>pc p' t'. acquire sample_env (pool_new plain_config 0) 0 = (Inr pc, p', t')
     \<and> slot_step\<^sup>*\<^sup>* (slots_of (pool_new plain_config 0) 0) (slots_of p' 1)"
proof -
  obtain pc p' t' where a: "acquire sample_env (pool_new plain_config 0) 0 = (Inr pc, p', t')"
    using sample_acquire by blast
  from acquire_refines_slots [OF pool_wf_new a, of 0] a show ?thesis by (auto simp: sample_env_def)
qed

section \<open>The contract of the pool with its users\<close>

text \<open>
  What the users of a pool rely on: a slot per connection, taken and given back once.  When all slots
  are taken, the one an acquisition gets is one that was given to the pool while it waited.
\<close>

locale slot_provider =
  fixes acq :: "'e \<Rightarrow> 'p \<Rightarrow> int \<Rightarrow> 'c nntp_result \<times> 'p \<times> int"
    and rel :: "'c \<Rightarrow> 'p \<Rightarrow> int \<Rightarrow> 'p"
    and dis :: "'c \<Rightarrow> 'p \<Rightarrow> 'p"
    and free :: "'p \<Rightarrow> nat"
    and wf :: "'p \<Rightarrow> bool"
    and given :: "'e \<Rightarrow> bool"
  assumes acq_wf: "wf p \<Longrightarrow> acq e p t = (r, p', t') \<Longrightarrow> wf p'"
    and rel_wf: "wf p \<Longrightarrow> wf (rel c p t)"
    and dis_wf: "wf p \<Longrightarrow> wf (dis c p)"
    and acq_free: "wf p \<Longrightarrow> acq e p t = (r, p', t') \<Longrightarrow>
          (let n = (case r of Inr _ \<Rightarrow> Suc (free p') | Inl _ \<Rightarrow> free p')
           in n = free p \<or> free p = 0 \<and> n = 1 \<and> given e)"
    and rel_free: "free (rel c p t) = Suc (free p)"
    and dis_free: "free (dis c p) = Suc (free p)"
begin

text \<open>
  Whoever gives back what they acquired leaves the pool with as many free slots as before, or with
  the one that somebody else gave back to it while it was empty.
\<close>

definition restored :: "'e \<Rightarrow> 'p \<Rightarrow> 'p \<Rightarrow> bool" where
  "restored e p p' \<longleftrightarrow> free p' = free p \<or> free p = 0 \<and> free p' = 1 \<and> given e"

lemma used_and_released:
  assumes "wf p" and "acq e p t = (Inr c, p', t')"
  shows "wf (rel c' p' u) \<and> restored e p (rel c' p' u)"
  using acq_wf [OF assms] acq_free [OF assms] by (simp add: rel_wf rel_free restored_def)

lemma used_and_discarded:
  assumes "wf p" and "acq e p t = (Inr c, p', t')"
  shows "wf (dis c' p') \<and> restored e p (dis c' p')"
  using acq_wf [OF assms] acq_free [OF assms] by (simp add: dis_wf dis_free restored_def)

lemma not_acquired:
  assumes "wf p" and "acq e p t = (Inl x, p', t')"
  shows "wf p' \<and> restored e p p'"
  using acq_wf [OF assms] acq_free [OF assms] by (simp add: restored_def Let_def)

end

text \<open>An event that frees a slot; one of those that arrive while an acquisition waits.\<close>

fun frees_slot :: "pool_event \<Rightarrow> bool" where
  "frees_slot (Dropped pc) \<longleftrightarrow> armed pc"
| "frees_slot _ \<longleftrightarrow> True"

definition given_back :: "pool_env \<Rightarrow> bool" where
  "given_back env \<longleftrightarrow> list_ex (\<lambda>(d, ev). frees_slot ev) (meanwhile env)"

lemma event_permits:
  "permits (apply_event ev p t) = (if frees_slot ev then Suc (permits p) else permits p)"
  by (cases ev) (simp_all add: drop_pooled_def release_simps discard_simps)

lemma wait_permit_permits:
  "wait_permit evs left p t = (b, q, u) \<Longrightarrow> permits p = 0 \<Longrightarrow>
     permits q = 0 \<and> (b \<longrightarrow> list_ex (\<lambda>(d, ev). frees_slot ev) evs)"
proof (induction evs left p t rule: wait_permit.induct)
  case (2 d ev evs left p t)
  show ?case
  proof (cases "left \<le> d \<or> frees_slot ev")
    case True
    with 2(2,3) show ?thesis by (auto simp: event_permits Let_def split: if_splits)
  next
    case False
    with 2(3) have "permits (apply_event ev p (t + int d)) = 0" by (simp add: event_permits)
    with 2(1) [of "apply_event ev p (t + int d)"] 2(2) False show ?thesis by auto
  qed
qed simp

lemma take_permit_permits:
  assumes "take_permit env p t = (r, p1, t1)"
  shows "case r of Inr _ \<Rightarrow> permits p = Suc (permits p1) \<or> permits p = 0 \<and> permits p1 = 0 \<and> given_back env
    | Inl _ \<Rightarrow> permits p1 = permits p"
proof (cases "0 < permits p")
  case False
  obtain b q u where w: "wait_permit (meanwhile env) ACQUIRE_TIMEOUT p t = (b, q, u)" by (metis surj_pair)
  with wait_permit_permits [OF w] False assms show ?thesis
    by (cases b) (auto simp: take_permit_def given_back_def)
qed (use assms in \<open>auto simp: take_permit_def\<close>)

lemma acquire_permits:
  assumes "pool_wf p" and "acquire env p t = (r, p', t')"
  shows "let n = (case r of Inr _ \<Rightarrow> Suc (permits p') | Inl _ \<Rightarrow> permits p')
    in n = permits p \<or> permits p = 0 \<and> n = 1 \<and> given_back env"
  using assms(2)
proof (cases rule: acquire_cases)
  case (timeout e)
  with take_permit_permits [OF timeout(1)] show ?thesis by simp
next
  case (reused pc p1 t1)
  with take_permit_permits [OF reused(1)] try_idle_frame [OF take_permit_wf [OF assms(1) reused(1)] reused(2)]
  show ?thesis by auto
next
  case (created c p1 t1 p2 t2)
  with take_permit_permits [OF created(1)] try_idle_frame [OF take_permit_wf [OF assms(1) created(1)] created(2)]
    create_connection_frame [OF created(3)]
  show ?thesis by auto
next
  case (failed e p1 t1 p2 t2 p3)
  with take_permit_permits [OF failed(1)] try_idle_frame [OF take_permit_wf [OF assms(1) failed(1)] failed(2)]
    create_connection_frame [OF failed(3)]
  show ?thesis by (auto simp: add_permit_def)
qed

lemma acquire_wf: "pool_wf p \<Longrightarrow> acquire env p t = (r, p', t') \<Longrightarrow> pool_wf p'"
  using acquire_healthy by blast

interpretation pool: slot_provider acquire release discard permits pool_wf given_back
  by unfold_locales (fact acquire_wf release_wf discard_wf acquire_permits release_simps discard_simps)+

section \<open>Ramp-up\<close>

text \<open>
With a ramp-up delay configured, a new connection is opened no earlier than that delay after
  the one before; the wait is no longer than needed, and the time of opening is remembered.
\<close>

theorem ramp_up_spacing:
  "let (p', t') = wait_for_ramp_up p t
   in t' = (if ramp_up_delay p = 0 then t else max t (last_connect p + int (ramp_up_delay p)))
      \<and> last_connect p' = (if ramp_up_delay p = 0 then last_connect p else t')
      \<and> permits p' = permits p \<and> idle p' = idle p"
  by (simp add: wait_for_ramp_up_def Let_def)

end
