(* ===== verification/Server_Laws.thy ===== *)
theory Server_Laws
  imports Server Pool_Laws
begin

text \<open>Server health: penalties, counters and the speed window.\<close>

section \<open>Penalties\<close>

text \<open>
A penalised server is unavailable exactly until the penalty chosen for its error has passed:
  ten minutes for an authentication failure or a timeout, three minutes for anything else; clearing
  the penalty makes an active server available at once.
\<close>

theorem penalty_window:
  "(is_available (penalize_for reason t s) u \<longleftrightarrow> active s \<and> t + penalty_for reason < u)
   \<and> (is_available (clear_penalty s) u \<longleftrightarrow> active s)
   \<and> penalty_for reason \<in> {3 * 60 * 1000, 10 * 60 * 1000}"
  by (simp_all add: is_available_def penalize_for_def penalize_def clear_penalty_def penalty_for_def
      PENALTY_AUTH_def PENALTY_TIMEOUT_def PENALTY_UNKNOWN_def)

section \<open>Counters\<close>

inductive server_reach :: "server_state \<Rightarrow> bool" where
  new: "server_reach (server_new cfg t)"
| success: "server_reach s \<Longrightarrow> server_reach (record_success n t s)"
| failure: "server_reach s \<Longrightarrow> server_reach (record_failure s)"
| penalty: "server_reach s \<Longrightarrow> server_reach (penalize reason d t s)"
| cleared: "server_reach s \<Longrightarrow> server_reach (clear_penalty s)"
| acquired: "server_reach s \<Longrightarrow> acquire_connection env s t = (r, s', t') \<Longrightarrow> server_reach s'"
| released: "server_reach s \<Longrightarrow> server_reach (release_connection pc t s)"
| discarded: "server_reach s \<Longrightarrow> server_reach (discard_connection pc s)"
| closed: "server_reach s \<Longrightarrow> close_idle_connections s t = (s', t') \<Longrightarrow> server_reach s'"

text \<open>
Whatever happens to a server, it never counts more failures than attempts, and the failure
  ratio it reports lies between 0 and 1.
\<close>

theorem failure_ratio_bounds:
  "server_reach s \<Longrightarrow> articles_failed s \<le> articles_tried s \<and> 0 \<le> failure_ratio s \<and> failure_ratio s \<le> 1"
proof -
  have "articles_failed s \<le> articles_tried s" if "server_reach s" for s
    using that
    by (induction rule: server_reach.induct)
       (auto simp: server_new_def record_success_def record_failure_def penalize_def clear_penalty_def
         release_connection_def discard_connection_def acquire_connection_def close_idle_connections_def
         split: prod.splits sum.splits)
  then show "server_reach s \<Longrightarrow>
      articles_failed s \<le> articles_tried s \<and> 0 \<le> failure_ratio s \<and> failure_ratio s \<le> 1"
    by (auto simp: failure_ratio_def divide_le_eq_1)
qed

lemma failure_ratio_bounds_witness:
  "failure_ratio (record_failure (record_success 5 0 (server_new plain_config 0))) \<le> 1"
  using failure_ratio_bounds [OF server_reach.failure [OF server_reach.success [OF server_reach.new]]] by blast

section \<open>Speed samples\<close>

definition in_order :: "speed_tracker \<Rightarrow> bool" where
  "in_order s \<longleftrightarrow> sorted (map sample_time (samples s))"

lemma dropWhile_sorted_filter:
  "sorted (map f xs) \<Longrightarrow> dropWhile (\<lambda>x. f x < (c :: int)) xs = filter (\<lambda>x. c \<le> f x) xs"
proof (induction xs)
  case (Cons x xs)
  then show ?case
  proof (cases "f x < c")
    case False
    with Cons.prems have "\<forall>y \<in> set (x # xs). c \<le> f y" by auto
    then have "filter (\<lambda>x. c \<le> f x) (x # xs) = x # xs" by (intro filter_True) auto
    with False show ?thesis by simp
  qed auto
qed simp

text \<open>
  The speed tracker keeps exactly the samples of its window: recording a transfer no earlier than
  the last one leaves, in order, the samples of the last ten seconds and nothing older.
\<close>

theorem speed_window_exact:
  assumes "in_order s" and "\<forall>x \<in> set (samples s). sample_time x \<le> t"
  shows "samples (speed_record n t s)
      = filter (\<lambda>x. t - speed_window s \<le> sample_time x)
          (samples s @ [\<lparr>sample_bytes = n, sample_time = t\<rparr>])
    \<and> in_order (speed_record n t s)"
proof -
  have "sorted (map sample_time (samples s @ [\<lparr>sample_bytes = n, sample_time = t\<rparr>]))"
    using assms by (auto simp: in_order_def sorted_append)
  note d = dropWhile_sorted_filter [OF this, of "t - speed_window s"] and f = sorted_filter [OF this]
  have "samples (speed_record n t s) = filter (\<lambda>x. t - speed_window s \<le> sample_time x)
      (samples s @ [\<lparr>sample_bytes = n, sample_time = t\<rparr>])"
    unfolding d [symmetric] by (simp add: speed_record_def)
  with f show ?thesis unfolding in_order_def by metis
qed

lemma speed_window_exact_witness:
  "samples (speed_record 7 20000 (speed_record 5 0 speed_new)) = [\<lparr>sample_bytes = 7, sample_time = 20000\<rparr>]"
  using speed_window_exact [of "speed_record 5 0 speed_new" 20000 7]
  by (simp add: in_order_def speed_record_def speed_new_def)

end
