(* ===== verification/Downloader.thy ===== *)
theory Downloader
  imports Server "HOL-Library.Multiset"
begin

text \<open>
  \<open>src/downloader.rs\<close>: the orchestrator that assigns articles to servers by priority and fails
  over.  The loop of \<open>download\<close> is one function over the queue, the servers and the clock; what
  other tasks do meanwhile (pause, resume, shut down, other users of the pools) and the network
  come from \<open>dl_env\<close>, indexed by the number of the round.
\<close>

record article_result =
  ar_article :: article
  ar_server_id :: "bytes option"
  ar_result :: "bytes nntp_result"

record download_request =
  dr_article :: article
  dr_tried :: "bytes list"

record downloader =
  servers :: "server_state list"
  paused :: bool
  shut_down :: bool
  bandwidth_limit_bps :: nat

definition downloader_new :: "server_config list \<Rightarrow> nat \<Rightarrow> int \<Rightarrow> downloader" where
  "downloader_new cfgs limit t =
     \<lparr>servers = map (\<lambda>c. server_new c t) (filter enabled (sort_key priority cfgs)),
      paused = False, shut_down = False, bandwidth_limit_bps = limit\<rparr>"

definition pause :: "downloader \<Rightarrow> downloader" where "pause d = d\<lparr>paused := True\<rparr>"
definition resume :: "downloader \<Rightarrow> downloader" where "resume d = d\<lparr>paused := False\<rparr>"
definition is_paused :: "downloader \<Rightarrow> bool" where "is_paused d = paused d"
definition shutdown :: "downloader \<Rightarrow> downloader" where "shutdown d = d\<lparr>shut_down := True\<rparr>"

text \<open>
  What other tasks do to the flags while a download runs.  \<open>controls_at k\<close> arrive before the test
  at the start of round \<open>k\<close>, \<open>polls_at k\<close> during the 250 ms sleeps of its pause loop, one list for
  each sleep; nothing arrives after the last one.
\<close>

datatype control = Pause | Resume | Shut

fun apply_control :: "control \<Rightarrow> downloader \<Rightarrow> downloader" where
  "apply_control Pause d = pause d"
| "apply_control Resume d = resume d"
| "apply_control Shut d = shutdown d"

record dl_env =
  controls_at :: "nat \<Rightarrow> control list"
  polls_at :: "nat \<Rightarrow> control list list"
  pool_env_at :: "nat \<Rightarrow> pool_env"

text \<open>
  How the tests of the flags end: shut down, go on after so many milliseconds, or paused for ever.
\<close>

datatype round = Halt | Go nat | Stuck

fun delay_round :: "nat \<Rightarrow> round \<Rightarrow> round" where
  "delay_round w (Go w') = Go (w + w')"
| "delay_round w r = r"

fun wait_while_paused :: "control list list \<Rightarrow> downloader \<Rightarrow> round \<times> downloader" where
  "wait_while_paused polls d =
     (if \<not> is_paused d then (Go 0, d)
      else if shut_down d then (Halt, d)
      else case polls of
        [] \<Rightarrow> (Stuck, d)
      | cs # polls' \<Rightarrow>
          (let (r, d') = wait_while_paused polls' (fold apply_control cs d)
           in (delay_round 250 r, d')))"

definition start_round :: "dl_env \<Rightarrow> nat \<Rightarrow> downloader \<Rightarrow> round \<times> downloader" where
  "start_round env k d =
     (let d = fold apply_control (controls_at env k) d
      in if shut_down d then (Halt, d) else wait_while_paused (polls_at env k) d)"

declare wait_while_paused.simps [simp del]

text \<open>A call of \<open>download\<close> returns, or stays in the pause loop.\<close>

datatype download_outcome = Returned "unit nntp_result" | StillPaused

definition server_id_of :: "server_state \<Rightarrow> bytes" where
  "server_id_of s = cfg_id (srv_config s)"

fun pick_from :: "nat \<Rightarrow> server_state list \<Rightarrow> bytes list \<Rightarrow> int \<Rightarrow> (nat \<times> bytes) option" where
  "pick_from i [] tried t = None"
| "pick_from i (s # ss) tried t =
     (if \<not> is_available s t then pick_from (Suc i) ss tried t
      else if server_id_of s \<in> set tried then pick_from (Suc i) ss tried t
      else Some (i, server_id_of s))"

definition pick_server :: "server_state list \<Rightarrow> bytes list \<Rightarrow> int \<Rightarrow> (nat \<times> bytes) option" where
  "pick_server srvs tried t = pick_from 0 srvs tried t"

text \<open>The \<open>matches!\<close> of the download loop.\<close>

fun dl_fatal :: "nntp_error \<Rightarrow> bool" where
  "dl_fatal (AuthRequired _) = True"
| "dl_fatal (PermissionDenied _) = True"
| "dl_fatal (ServiceUnavailable _) = True"
| "dl_fatal (Connection _) = True"
| "dl_fatal (Io _) = True"
| "dl_fatal _ = False"

text \<open>What a failed fetch does to its server: the three error arms of the match.\<close>

definition after_fetch_error ::
  "nntp_error \<Rightarrow> pooled_connection \<Rightarrow> int \<Rightarrow> server_state \<Rightarrow> server_state" where
  "after_fetch_error e pc t s0 =
     (let s = record_failure s0
      in case e of
           ArticleNotFound _ \<Rightarrow> release_connection pc t s
         | _ \<Rightarrow> if dl_fatal e
                then discard_connection pc (penalize_for (error_to_string e) t s)
                else release_connection pc t s)"

text \<open>
  One attempt of an article on the picked server: \<open>Some\<close> data when it is served, \<open>None\<close> when the
  article must go back to the queue.
\<close>

definition attempt_on ::
  "gunzip \<Rightarrow> pool_env \<Rightarrow> bytes \<Rightarrow> server_state \<Rightarrow> int \<Rightarrow> bytes option \<times> server_state \<times> int" where
  "attempt_on gz env mid s0 t0 =
     (case acquire env (srv_pool s0) t0 of
        (Inl e, p, t) \<Rightarrow> (None, penalize_for (error_to_string e) t (s0\<lparr>srv_pool := p\<rparr>), t)
      | (Inr pc0, p, t1) \<Rightarrow>
          (let s = s0\<lparr>srv_pool := p, connections_active := connections_active s0 + 1\<rparr>;
               (r, c') = fetch_article gz mid (pc_conn pc0);
               t = t1 + elapsed_in (pc_conn pc0) c';
               pc = pc0\<lparr>pc_conn := c'\<rparr>
           in case r of
                Inr resp \<Rightarrow>
                  (let d = (case data resp of None \<Rightarrow> [] | Some d \<Rightarrow> d)
                   in (Some d, release_connection pc t (record_success (length d) t s), t))
              | Inl e \<Rightarrow> (None, after_fetch_error e pc t s, t)))"

definition served :: "article \<Rightarrow> bytes \<Rightarrow> bytes \<Rightarrow> article_result" where
  "served a sid d = \<lparr>ar_article = a, ar_server_id = Some sid, ar_result = Inr d\<rparr>"

definition exhausted :: "article \<Rightarrow> article_result" where
  "exhausted a =
     \<lparr>ar_article = a, ar_server_id = None,
      ar_result = Inl (AllServersExhausted (message_id a))\<rparr>"

text \<open>How many servers a request may still try.\<close>

definition untried :: "server_state list \<Rightarrow> download_request \<Rightarrow> nat" where
  "untried srvs req = card (set (map server_id_of srvs) - set (dr_tried req))"

definition work :: "server_state list \<Rightarrow> download_request list \<Rightarrow> nat" where
  "work srvs reqs = (\<Sum>r\<leftarrow>reqs. Suc (untried srvs r))"

lemma attempt_on_config [simp]:
  "attempt_on gz env mid s t = (r, s', t') \<Longrightarrow> srv_config s' = srv_config s"
  by (auto simp: attempt_on_def Let_def after_fetch_error_def penalize_for_def penalize_def
      release_connection_def discard_connection_def record_success_def record_failure_def
      split: prod.splits sum.splits option.splits nntp_error.splits if_splits)

lemma attempt_on_ids:
  assumes "attempt_on gz env mid (srvs ! i) t = (r, s', t')"
  shows "map server_id_of (srvs[i := s']) = map server_id_of srvs"
proof -
  have "server_id_of s' = server_id_of (srvs ! i)"
    using attempt_on_config [OF assms] by (simp add: server_id_of_def)
  then show ?thesis by (metis list_update_id map_update)
qed

lemma pick_from_Some:
  "pick_from i srvs tried t = Some (j, sid) \<Longrightarrow>
     i \<le> j \<and> j - i < length srvs \<and> sid = server_id_of (srvs ! (j - i)) \<and> sid \<notin> set tried
     \<and> is_available (srvs ! (j - i)) t
     \<and> (\<forall>k < j - i. \<not> is_available (srvs ! k) t \<or> server_id_of (srvs ! k) \<in> set tried)"
proof (induction i srvs tried t rule: pick_from.induct)
  case (2 i s ss tried t)
  show ?case
  proof (cases "is_available s t \<and> server_id_of s \<notin> set tried")
    case False
    with 2 have "Suc i \<le> j \<and> j - Suc i < length ss \<and> sid = server_id_of (ss ! (j - Suc i))
       \<and> sid \<notin> set tried \<and> is_available (ss ! (j - Suc i)) t
       \<and> (\<forall>k < j - Suc i. \<not> is_available (ss ! k) t \<or> server_id_of (ss ! k) \<in> set tried)"
      by (auto split: if_splits)
    moreover from this obtain m where "j - i = Suc m" "j - Suc i = m"
      by (metis Suc_diff_Suc Suc_le_eq)
    ultimately show ?thesis using False by (auto simp: less_Suc_eq_0_disj)
  qed (use 2 in auto)
qed simp

lemmas pick_server_Some = pick_from_Some [where i = 0, folded pick_server_def, simplified]

lemma untried_cong:
  assumes "map server_id_of srvs' = map server_id_of srvs"
  shows "untried srvs' = untried srvs"
  unfolding untried_def assms ..

lemma work_cong: "map server_id_of srvs' = map server_id_of srvs \<Longrightarrow> work srvs' = work srvs"
  unfolding work_def by (drule untried_cong) (simp only:)

lemma work_simps [simp]:
  "work srvs [] = 0" "work srvs (r # rs) = Suc (untried srvs r) + work srvs rs"
  "work srvs (rs @ qs) = work srvs rs + work srvs qs"
  by (simp_all add: work_def)

lemma untried_less:
  assumes "pick_server srvs (dr_tried r) t = Some (i, sid)"
  shows "untried srvs (r\<lparr>dr_tried := dr_tried r @ [sid]\<rparr>) < untried srvs r"
proof -
  from pick_server_Some [OF assms] have "sid \<in> set (map server_id_of srvs) - set (dr_tried r)"
    by auto
  then show ?thesis unfolding untried_def
    by (intro psubset_card_mono) auto
qed

lemma apply_controls_servers [simp]: "servers (fold apply_control cs d) = servers d"
proof (induction cs arbitrary: d)
  case (Cons x cs)
  then show ?case by (cases x) (simp_all add: pause_def resume_def shutdown_def)
qed simp

lemma wait_while_paused_servers:
  "wait_while_paused polls d = (r, d') \<Longrightarrow> servers d' = servers d"
proof (induction polls arbitrary: d r d')
  case Nil
  then show ?case by (simp add: wait_while_paused.simps [of "[]"] split: if_splits)
next
  case (Cons cs polls)
  obtain r1 d1 where w: "wait_while_paused polls (fold apply_control cs d) = (r1, d1)" by force
  from Cons.IH [OF w] Cons.prems w show ?case
    by (auto simp: wait_while_paused.simps [of "cs # polls"] split: if_splits)
qed

lemma start_round_servers: "start_round env k d = (r, d') \<Longrightarrow> servers d' = servers d"
  by (auto simp: start_round_def Let_def dest: wait_while_paused_servers split: if_splits)

function download_loop ::
  "gunzip \<Rightarrow> dl_env \<Rightarrow> nat \<Rightarrow> download_request list \<Rightarrow> downloader \<Rightarrow> int
     \<Rightarrow> article_result list \<Rightarrow> download_outcome \<times> article_result list \<times> downloader \<times> int" where
  "download_loop gz env k [] d t results = (Returned (Inr ()), results, d, t)"
| "download_loop gz env k (req # rest) d0 t results =
     (case start_round env k d0 of
        (Halt, d) \<Rightarrow> (Returned (Inl Shutdown), results, d, t)
      | (Stuck, d) \<Rightarrow> (StillPaused, results, d, t)
      | (Go w, d) \<Rightarrow>
          (case pick_server (servers d) (dr_tried req) (t + int w) of
             None \<Rightarrow>
               download_loop gz env (Suc k) rest d (t + int w)
                 (results @ [exhausted (dr_article req)])
           | Some (i, sid) \<Rightarrow>
               (case attempt_on gz (pool_env_at env k) (message_id (dr_article req))
                       (servers d ! i) (t + int w) of
                  (Some x, s', t') \<Rightarrow>
                    download_loop gz env (Suc k) rest (d\<lparr>servers := (servers d)[i := s']\<rparr>) t'
                      (results @ [served (dr_article req) sid x])
                | (None, s', t') \<Rightarrow>
                    download_loop gz env (Suc k)
                      (rest @ [req\<lparr>dr_tried := dr_tried req @ [sid]\<rparr>])
                      (d\<lparr>servers := (servers d)[i := s']\<rparr>) t' results)))"
  by pat_completeness auto
termination
proof (relation "measure (\<lambda>(gz, env, k, reqs, d, t, rs). work (servers d) reqs)", goal_cases)
  case (2 gz env k req rest d0 t rs x d w)
  then have "servers d = servers d0" using start_round_servers by (metis surj_pair)
  then show ?case by simp
next
  case (3 gz env k req rest d0 t rs x d w y i sid z z' s' t')
  then have r: "start_round env k d0 = (Go w, d)" by simp
  from 3 have a: "attempt_on gz (pool_env_at env k) (message_id (dr_article req)) (servers d ! i) (t + int w)
      = (None, s', t')" and p: "pick_server (servers d) (dr_tried req) (t + int w) = Some (i, sid)"
    by simp_all
  show ?case
    using start_round_servers [OF r] work_cong [OF attempt_on_ids [OF a]]
      untried_cong [OF attempt_on_ids [OF a]] untried_less [OF p]
    by simp
next
  case (4 gz env k req rest d0 t rs x d w y i sid z z' data s' t')
  then have r: "start_round env k d0 = (Go w, d)" by simp
  from 4 have a: "attempt_on gz (pool_env_at env k) (message_id (dr_article req)) (servers d ! i) (t + int w)
      = (Some data, s', t')" by simp
  show ?case using start_round_servers [OF r] work_cong [OF attempt_on_ids [OF a]] by simp
qed auto

declare download_loop.simps [simp del]

definition download ::
  "gunzip \<Rightarrow> dl_env \<Rightarrow> article list \<Rightarrow> downloader \<Rightarrow> int
     \<Rightarrow> download_outcome \<times> article_result list \<times> downloader \<times> int" where
  "download gz env arts d t =
     (if arts = [] then (Returned (Inr ()), [], d, t)
      else download_loop gz env 0
             (map (\<lambda>a. \<lparr>dr_article = a, dr_tried = tried_servers a\<rparr>) arts) d t [])"

end
