(* ===== verification/Downloader_Laws.thy ===== *)
theory Downloader_Laws
  imports Downloader Server_Laws
begin

text \<open>
  The download orchestrator: every article gets exactly one result, from the first available server
  in priority order that has it, and every connection goes back to its pool.
\<close>

section \<open>An induction rule for the loop\<close>

lemma loop_rule [case_names empty halt stuck none served retry]:
  assumes "\<And>k d t rs. P k [] d t rs (Returned (Inr ()), rs, d, t)"
    and "\<And>k q qs d t rs d1. start_round env k d = (Halt, d1) \<Longrightarrow>
           P k (q # qs) d t rs (Returned (Inl Shutdown), rs, d1, t)"
    and "\<And>k q qs d t rs d1. start_round env k d = (Stuck, d1) \<Longrightarrow>
           P k (q # qs) d t rs (StillPaused, rs, d1, t)"
    and "\<And>k q qs d t rs d1 w z. start_round env k d = (Go w, d1) \<Longrightarrow>
           pick_server (servers d1) (dr_tried q) (t + int w) = None \<Longrightarrow>
           P (Suc k) qs d1 (t + int w) (rs @ [exhausted (dr_article q)]) z \<Longrightarrow> P k (q # qs) d t rs z"
    and "\<And>k q qs d t rs d1 w i sid x s' t' z. start_round env k d = (Go w, d1) \<Longrightarrow>
           pick_server (servers d1) (dr_tried q) (t + int w) = Some (i, sid) \<Longrightarrow>
           attempt_on gz (pool_env_at env k) (message_id (dr_article q)) (servers d1 ! i) (t + int w)
             = (Some x, s', t') \<Longrightarrow>
           P (Suc k) qs (d1\<lparr>servers := (servers d1)[i := s']\<rparr>) t' (rs @ [served (dr_article q) sid x]) z \<Longrightarrow>
           P k (q # qs) d t rs z"
    and "\<And>k q qs d t rs d1 w i sid s' t' z. start_round env k d = (Go w, d1) \<Longrightarrow>
           pick_server (servers d1) (dr_tried q) (t + int w) = Some (i, sid) \<Longrightarrow>
           attempt_on gz (pool_env_at env k) (message_id (dr_article q)) (servers d1 ! i) (t + int w)
             = (None, s', t') \<Longrightarrow>
           P (Suc k) (qs @ [q\<lparr>dr_tried := dr_tried q @ [sid]\<rparr>]) (d1\<lparr>servers := (servers d1)[i := s']\<rparr>) t' rs z \<Longrightarrow>
           P k (q # qs) d t rs z"
  shows "P k reqs d t rs (download_loop gz env k reqs d t rs)"
  using assms
proof (induction gz env k reqs d t rs rule: download_loop.induct)
  case (1 gz env k d t rs)
  show ?case using 1(1) by (simp add: download_loop.simps)
next
  case (2 gz env k q qs d t rs)
  note ihs = 2(1-3) and laws = 2(4-9)
  obtain r d1 where s: "start_round env k d = (r, d1)" by force
  show ?case
  proof (cases r)
    case Halt
    with laws(2) s show ?thesis by (simp add: download_loop.simps(2))
  next
    case Stuck
    with laws(3) s show ?thesis by (simp add: download_loop.simps(2))
  next
    case (Go w)
    show ?thesis
    proof (cases "pick_server (servers d1) (dr_tried q) (t + int w)")
      case None
      from laws(4) [OF s [unfolded Go] None ihs(1) [OF s [symmetric] Go None laws]] s Go None
      show ?thesis by (simp add: download_loop.simps(2))
    next
      case (Some p)
      obtain i sid where p: "p = (i, sid)" by force
      obtain x s' t' where a: "attempt_on gz (pool_env_at env k) (message_id (dr_article q))
          (servers d1 ! i) (t + int w) = (x, s', t')" by (metis surj_pair)
      show ?thesis
      proof (cases x)
        case None
        from laws(6) [OF s [unfolded Go] Some [unfolded p] a [unfolded None]
            ihs(2) [OF s [symmetric] Go Some p [symmetric] a [symmetric] None refl laws]] s Go Some p a None
        show ?thesis by (simp add: download_loop.simps(2))
      next
        case x: (Some y)
        from laws(5) [OF s [unfolded Go] Some [unfolded p] a [unfolded x]
            ihs(3) [OF s [symmetric] Go Some p [symmetric] a [symmetric] x refl laws]] s Go Some p a x
        show ?thesis by (simp add: download_loop.simps(2))
      qed
    qed
  qed
qed

section \<open>One result for each article\<close>

lemma result_articles [simp]:
  "ar_article (served a sid x) = a" "ar_article (exhausted a) = a"
  by (simp_all add: served_def exhausted_def)

definition accounted :: "article_result list \<Rightarrow> download_request list \<Rightarrow>
    download_outcome \<times> article_result list \<times> downloader \<times> int \<Rightarrow> bool" where
  "accounted rs reqs z \<longleftrightarrow>
     (case z of (out, rs', d', t') \<Rightarrow>
        mset (map ar_article rs') \<subseteq># mset (map ar_article rs) + mset (map dr_article reqs)
        \<and> (out = Returned (Inr ()) \<longrightarrow>
             mset (map ar_article rs') = mset (map ar_article rs) + mset (map dr_article reqs)))"

lemma loop_accounted: "accounted rs reqs (download_loop gz env k reqs d t rs)"
  by (rule loop_rule [where P = "\<lambda>k reqs d t rs z. accounted rs reqs z"])
     (auto simp: accounted_def)

text \<open>
  C14: A download that completes has sent exactly one result for each article of the batch; one that
  stops early, by a shutdown or in a pause, has sent at most one for each.
\<close>

theorem one_result_per_article:
  assumes "download gz env arts d t = (out, rs, d', t')"
  shows "mset (map ar_article rs) \<subseteq># mset arts
    \<and> (out = Returned (Inr ()) \<longrightarrow> mset (map ar_article rs) = mset arts)"
proof (cases "arts = []")
  case False
  with assms loop_accounted [of "[]" "map (\<lambda>a. \<lparr>dr_article = a, dr_tried = tried_servers a\<rparr>) arts" gz env 0 d t]
  show ?thesis by (simp add: download_def accounted_def comp_def)
qed (use assms in \<open>simp add: download_def\<close>)

text \<open>One article, one server that greets and then says nothing, and nobody else at work.\<close>

definition sample_article :: article where
  "sample_article =
     \<lparr>message_id = ''a@b'', segment_number = 1, art_bytes = 0, downloaded = False, data_begin = None,
      data_size = None, crc32 = None, tried_servers = [], tries = 0\<rparr>"

definition sample_downloader :: downloader where
  "sample_downloader = downloader_new [plain_config] 0 0"

definition undisturbed :: dl_env where
  "undisturbed = \<lparr>controls_at = (\<lambda>_. []), polls_at = (\<lambda>_. []), pool_env_at = (\<lambda>_. sample_env)\<rparr>"

lemma one_result_per_article_witness:
  "\<exists>out rs d' t'. download (\<lambda>_. ([], None)) undisturbed [sample_article] sample_downloader 0 = (out, rs, d', t')
     \<and> length rs \<le> 1"
proof -
  obtain out rs d' t' where a:
    "download (\<lambda>_. ([], None)) undisturbed [sample_article] sample_downloader 0 = (out, rs, d', t')"
    by (metis surj_pair)
  from one_result_per_article [OF a] have "size (mset (map ar_article rs)) \<le> size {#sample_article#}"
    by (intro size_mset_mono) simp
  with a show ?thesis by auto
qed

section \<open>How a download ends\<close>

lemma wait_while_paused_end:
  "wait_while_paused polls d = (r, d') \<Longrightarrow>
     (r = Halt \<longrightarrow> shut_down d') \<and> (r = Stuck \<longrightarrow> paused d') "
proof (induction polls arbitrary: d r d')
  case Nil
  then show ?case by (auto simp: wait_while_paused.simps [of "[]"] is_paused_def split: if_splits)
next
  case (Cons cs polls)
  obtain r1 d1 where w: "wait_while_paused polls (fold apply_control cs d) = (r1, d1)" by force
  from Cons.IH [OF w] Cons.prems w show ?case
    by (cases r1) (auto simp: wait_while_paused.simps [of "cs # polls"] split: if_splits)
qed

lemma start_round_end:
  "start_round env k d = (r, d') \<Longrightarrow> (r = Halt \<longrightarrow> shut_down d') \<and> (r = Stuck \<longrightarrow> paused d')"
  using wait_while_paused_end by (fastforce simp: start_round_def Let_def split: if_splits)

definition ended :: "download_outcome \<times> article_result list \<times> downloader \<times> int \<Rightarrow> bool" where
  "ended z \<longleftrightarrow>
     (case z of (out, rs', d', t') \<Rightarrow>
        (case out of Returned (Inr _) \<Rightarrow> True
         | Returned (Inl e) \<Rightarrow> e = Shutdown \<and> shut_down d'
         | StillPaused \<Rightarrow> paused d'))"

lemma loop_ended: "ended (download_loop gz env k reqs d t rs)"
  by (rule loop_rule [where P = "\<lambda>k reqs d t rs z. ended z"])
     (auto simp: ended_def dest: start_round_end)

lemma loop_completes:
  assumes "\<forall>k. controls_at env k = []"
  shows "\<not> paused d \<Longrightarrow> \<not> shut_down d \<Longrightarrow> fst (download_loop gz env k reqs d t rs) = Returned (Inr ())"
proof (rule loop_rule [where P = "\<lambda>k reqs d t rs z. \<not> paused d \<longrightarrow> \<not> shut_down d \<longrightarrow> fst z = Returned (Inr ())",
      THEN mp, THEN mp])
qed (use assms in \<open>auto simp: start_round_def Let_def wait_while_paused.simps is_paused_def split: if_splits\<close>)

text \<open>
  C24: A download ends with an error only when the downloader was shut down, and fails to return only
  while it stays paused.  Left alone, neither paused nor shut down, it always completes.
\<close>

theorem download_ends:
  assumes "download gz env arts d t = (out, rs, d', t')"
  shows "(case out of Returned (Inr _) \<Rightarrow> True
          | Returned (Inl e) \<Rightarrow> e = Shutdown \<and> shut_down d'
          | StillPaused \<Rightarrow> paused d')
    \<and> (\<not> paused d \<and> \<not> shut_down d \<and> (\<forall>k. controls_at env k = []) \<longrightarrow> out = Returned (Inr ()))"
proof (cases "arts = []")
  case False
  let ?reqs = "map (\<lambda>a. \<lparr>dr_article = a, dr_tried = tried_servers a\<rparr>) arts"
  have z: "download_loop gz env 0 ?reqs d t [] = (out, rs, d', t')"
    using assms False by (simp add: download_def)
  have "\<not> paused d \<and> \<not> shut_down d \<and> (\<forall>k. controls_at env k = []) \<longrightarrow> out = Returned (Inr ())"
    using loop_completes [of env d gz 0 ?reqs t "[]"] z by simp
  with loop_ended [of gz env 0 ?reqs d t "[]"] z show ?thesis by (simp add: ended_def)
next
  case True
  with assms have "out = Returned (Inr ())" by (simp add: download_def)
  then show ?thesis by simp
qed

lemma download_ends_witness:
  "\<exists>rs d' t'. download (\<lambda>_. ([], None)) undisturbed [sample_article] sample_downloader 0
     = (Returned (Inr ()), rs, d', t')"
proof -
  obtain out rs d' t' where a:
    "download (\<lambda>_. ([], None)) undisturbed [sample_article] sample_downloader 0 = (out, rs, d', t')"
    by (metis surj_pair)
  with download_ends [OF a] show ?thesis
    by (simp add: sample_downloader_def downloader_new_def undisturbed_def)
qed

section \<open>The servers of a downloader\<close>

definition server_ids :: "downloader \<Rightarrow> bytes set" where
  "server_ids d = set (map server_id_of (servers d))"

lemma round_ids: "start_round env k d = (r, d1) \<Longrightarrow> server_ids d1 = server_ids d"
  by (simp add: server_ids_def start_round_servers)

lemma attempt_server_ids:
  assumes "attempt_on gz env mid (servers d ! i) t = (x, s', t')"
  shows "server_ids (d\<lparr>servers := (servers d)[i := s']\<rparr>) = server_ids d"
proof -
  have "map server_id_of ((servers d)[i := s']) = map server_id_of (servers d)"
    by (rule attempt_on_ids) (rule assms)
  moreover have "servers (d\<lparr>servers := (servers d)[i := s']\<rparr>) = (servers d)[i := s']" by simp
  ultimately show ?thesis by (simp only: server_ids_def)
qed

section \<open>Connections go back\<close>

definition server_wf :: "server_state \<Rightarrow> bool" where
  "server_wf s \<longleftrightarrow> pool_wf (srv_pool s)"

lemma server_wf_new [simp]: "server_wf (server_new cfg t)"
  by (simp add: server_wf_def server_new_def)

text \<open>
  What a server has in use, before and after: as many active connections, and as many free slots, or
  one where there was none, when \<open>g\<close>.
\<close>

definition keeps_slots :: "bool \<Rightarrow> server_state \<Rightarrow> server_state \<Rightarrow> bool" where
  "keeps_slots g s s' \<longleftrightarrow>
     connections_active s' = connections_active s
     \<and> (permits (srv_pool s') = permits (srv_pool s)
        \<or> permits (srv_pool s) = 0 \<and> permits (srv_pool s') = 1 \<and> g)"

lemma keeps_slots_refl [simp]: "keeps_slots g s s"
  by (simp add: keeps_slots_def)

lemma keeps_slots_trans:
  "keeps_slots g s s1 \<Longrightarrow> keeps_slots h s1 s2 \<Longrightarrow> keeps_slots (g \<or> h) s s2"
  by (auto simp: keeps_slots_def)

lemma keeps_slots_mono: "keeps_slots g s s' \<Longrightarrow> (g \<Longrightarrow> h) \<Longrightarrow> keeps_slots h s s'"
  by (auto simp: keeps_slots_def)

lemma health_frame [simp]:
  "srv_pool (penalize_for m t s) = srv_pool s" "connections_active (penalize_for m t s) = connections_active s"
  "srv_pool (record_failure s) = srv_pool s" "connections_active (record_failure s) = connections_active s"
  "srv_pool (record_success n t s) = srv_pool s" "connections_active (record_success n t s) = connections_active s"
  by (simp_all add: penalize_for_def penalize_def record_failure_def record_success_def)

lemma given_back [simp]:
  "srv_pool (release_connection pc t s) = release pc (srv_pool s) t"
  "connections_active (release_connection pc t s) = connections_active s - 1"
  "srv_pool (discard_connection pc s) = discard pc (srv_pool s)"
  "connections_active (discard_connection pc s) = connections_active s - 1"
  by (simp_all add: release_connection_def discard_connection_def)

lemma after_fetch_error_frame:
  "connections_active (after_fetch_error e pc t s) = connections_active s - 1
   \<and> srv_pool (after_fetch_error e pc t s) \<in> {release pc (srv_pool s) t, discard pc (srv_pool s)}"
  by (cases e) (simp_all add: after_fetch_error_def Let_def)

lemma attempt_keeps_slots:
  assumes "server_wf s" and "attempt_on gz env mid s t = (x, s', t')"
  shows "server_wf s' \<and> keeps_slots (given_back env) s s'"
proof -
  note w = assms(1) [unfolded server_wf_def] and defs = server_wf_def keeps_slots_def pool.restored_def
  obtain r p t1 where a: "acquire env (srv_pool s) t = (r, p, t1)" by (metis surj_pair)
  show ?thesis
  proof (cases r)
    case (Inl e)
    with assms(2) a pool.not_acquired [OF w a [unfolded Inl]] show ?thesis
      by (auto simp: attempt_on_def defs)
  next
    case (Inr pc)
    obtain y c' where f: "fetch_article gz mid (pc_conn pc) = (y, c')" by force
    note given = pool.used_and_released [OF w a [unfolded Inr]] pool.used_and_discarded [OF w a [unfolded Inr]]
    show ?thesis
    proof (cases y)
      case (Inl e)
      let ?s = "s\<lparr>srv_pool := p, connections_active := Suc (connections_active s)\<rparr>"
      have "s' = after_fetch_error e (pc\<lparr>pc_conn := c'\<rparr>) t' ?s"
        using assms(2) a Inr f Inl by (auto simp: attempt_on_def Let_def)
      with after_fetch_error_frame [of e "pc\<lparr>pc_conn := c'\<rparr>" t' ?s] given show ?thesis
        by (auto simp: defs)
    next
      case (Inr resp)
      with assms(2) a \<open>r = Inr pc\<close> f given show ?thesis
        by (auto simp: attempt_on_def Let_def defs)
    qed
  qed
qed

definition all_keep_slots :: "bool \<Rightarrow> server_state list \<Rightarrow> server_state list \<Rightarrow> bool" where
  "all_keep_slots g ss ss' \<longleftrightarrow> list_all server_wf ss' \<and> list_all2 (keeps_slots g) ss ss'"

lemma attempt_all_keep:
  assumes "list_all server_wf ss" and "i < length ss" and "attempt_on gz env mid (ss ! i) t = (x, s', t')"
    and "all_keep_slots g (ss[i := s']) ss'" and "given_back env \<Longrightarrow> g"
  shows "all_keep_slots g ss ss'"
proof -
  have "server_wf (ss ! i)" using assms(1,2) by (simp add: list_all_length)
  from attempt_keeps_slots [OF this assms(3)] have k: "keeps_slots g (ss ! i) s'"
    using keeps_slots_mono assms(5) by blast
  have "keeps_slots g (ss ! j) (ss' ! j)" if "j < length ss" for j
  proof -
    have "keeps_slots g (ss[i := s'] ! j) (ss' ! j)"
      using assms(4) that by (simp add: all_keep_slots_def list_all2_conv_all_nth)
    with k keeps_slots_trans [of g "ss ! i" s' g] that show ?thesis by (cases "i = j") auto
  qed
  with assms(4) show ?thesis by (auto simp: all_keep_slots_def list_all2_conv_all_nth)
qed

lemma attempt_wf:
  assumes "list_all server_wf ss" and "i < length ss" and "attempt_on gz env mid (ss ! i) t = (x, s', t')"
  shows "list_all server_wf (ss[i := s'])"
  using attempt_keeps_slots [OF _ assms(3)] assms(1,2) set_update_subset_insert [of ss i s']
  by (auto simp: list_all_iff)

lemma loop_keeps_slots:
  "list_all server_wf (servers d) \<longrightarrow>
     all_keep_slots (\<exists>k. given_back (pool_env_at env k)) (servers d)
       (servers (fst (snd (snd (download_loop gz env k reqs d t rs)))))"
proof (rule loop_rule [where P = "\<lambda>k reqs d t rs z. list_all server_wf (servers d) \<longrightarrow>
      all_keep_slots (\<exists>k. given_back (pool_env_at env k)) (servers d) (servers (fst (snd (snd z))))"], goal_cases)
  case (5 k q qs d t rs d1 w i sid x s' t' z)
  have i: "i < length (servers d1)" using pick_server_Some [OF 5(2)] by simp
  with attempt_all_keep [OF _ i 5(3)] attempt_wf [OF _ i 5(3)] 5(4) start_round_servers [OF 5(1)]
  show ?case by auto
next
  case (6 k q qs d t rs d1 w i sid s' t' z)
  have i: "i < length (servers d1)" using pick_server_Some [OF 6(2)] by simp
  with attempt_all_keep [OF _ i 6(3)] attempt_wf [OF _ i 6(3)] 6(4) start_round_servers [OF 6(1)]
  show ?case by auto
qed (auto simp: all_keep_slots_def list_all2_same dest: start_round_servers)

text \<open>
  C15: However a download ends and whatever its fetches met, also when all slots of a pool are taken and
  an acquisition waits or times out, it leaves every server with the count of active connections and
  the free slots it found: each connection it took was released or discarded exactly once.  The only
  other case is a server without a free slot to which some other task gave one back while the download
  waited: that slot is free at the end.  The one thing assumed is the invariant of the pools, that
  the parked connections are usable and hold no slot, which a new pool has and every operation keeps.
\<close>

theorem download_returns_connections:
  assumes "\<forall>s \<in> set (servers d). pool_wf (srv_pool s)" and "download gz env arts d t = (out, rs, d', t')"
  shows "list_all2 (\<lambda>s s'.
      connections_active s' = connections_active s
      \<and> (permits (srv_pool s') = permits (srv_pool s)
         \<or> permits (srv_pool s) = 0 \<and> permits (srv_pool s') = 1
            \<and> (\<exists>k. list_ex (\<lambda>(w, ev). frees_slot ev) (meanwhile (pool_env_at env k)))))
    (servers d) (servers d')"
proof -
  have "all_keep_slots (\<exists>k. given_back (pool_env_at env k)) (servers d) (servers d')"
  proof (cases "arts = []")
    case False
    let ?reqs = "map (\<lambda>a. \<lparr>dr_article = a, dr_tried = tried_servers a\<rparr>) arts"
    have "download_loop gz env 0 ?reqs d t [] = (out, rs, d', t')"
      using assms(2) False by (simp add: download_def)
    with loop_keeps_slots [of d env gz 0 ?reqs t "[]"] assms(1) show ?thesis
      by (simp add: list_all_iff server_wf_def)
  qed (use assms in \<open>simp add: download_def all_keep_slots_def list_all_iff server_wf_def list_all2_same\<close>)
  then have "list_all2 (keeps_slots (\<exists>k. given_back (pool_env_at env k))) (servers d) (servers d')"
    by (simp add: all_keep_slots_def)
  then show ?thesis unfolding keeps_slots_def given_back_def .
qed

lemma download_returns_connections_witness:
  "\<exists>out rs d' t'. download (\<lambda>_. ([], None)) undisturbed [sample_article] sample_downloader 0 = (out, rs, d', t')
     \<and> map (\<lambda>s. (permits (srv_pool s), connections_active s)) (servers d') = [(8, 0)]"
proof -
  obtain out rs d' t' where a:
    "download (\<lambda>_. ([], None)) undisturbed [sample_article] sample_downloader 0 = (out, rs, d', t')"
    by (metis surj_pair)
  have c: "connections plain_config = 8" "enabled plain_config"
    by (simp_all add: plain_config_def new_config_def default_config_def default_connections_def)
  then have s: "servers sample_downloader = [server_new plain_config 0]"
    by (simp add: sample_downloader_def downloader_new_def)
  from download_returns_connections [OF _ a] a c show ?thesis
    by (simp add: s server_new_def) (auto simp: list_all2_Cons1 pool_new_def)
qed

section \<open>The order of servers\<close>

definition priorities :: "server_state list \<Rightarrow> nat list" where
  "priorities ss = map (\<lambda>s. priority (srv_config s)) ss"

lemma loop_configs:
  "map srv_config (servers (fst (snd (snd (download_loop gz env k reqs d t rs))))) = map srv_config (servers d)"
proof (rule loop_rule [where P = "\<lambda>k reqs d t rs z.
      map srv_config (servers (fst (snd (snd z)))) = map srv_config (servers d)"], goal_cases)
  case (5 k q qs d t rs d1 w i sid x s' t' z)
  have "map srv_config ((servers d1)[i := s']) = map srv_config (servers d1)"
    by (metis attempt_on_config [OF 5(3)] list_update_id map_update)
  with 5(4) start_round_servers [OF 5(1)] show ?case by simp
next
  case (6 k q qs d t rs d1 w i sid s' t' z)
  have "map srv_config ((servers d1)[i := s']) = map srv_config (servers d1)"
    by (metis attempt_on_config [OF 6(3)] list_update_id map_update)
  with 6(4) start_round_servers [OF 6(1)] show ?case by simp
qed (auto dest: start_round_servers)

lemma download_configs:
  assumes "download gz env arts d t = (out, rs, d', t')"
  shows "map srv_config (servers d') = map srv_config (servers d)"
proof (cases "arts = []")
  case False
  with assms loop_configs [of gz env 0 "map (\<lambda>a. \<lparr>dr_article = a, dr_tried = tried_servers a\<rparr>) arts" d t "[]"]
  show ?thesis by (simp add: download_def)
qed (use assms in \<open>simp add: download_def\<close>)

lemma new_configs: "map srv_config (servers (downloader_new cfgs bps t)) = filter enabled (sort_key priority cfgs)"
  by (simp add: downloader_new_def server_new_def comp_def)

lemma pick_from_None:
  "pick_from i ss tried t = None \<Longrightarrow> s \<in> set ss \<Longrightarrow> is_available s t \<Longrightarrow> server_id_of s \<in> set tried"
  by (induction i ss tried t rule: pick_from.induct) (auto split: if_splits)

text \<open>
  C23: At any time after any downloads, the server picked for an article is an enabled, available one
  the article was not tried on, and no other such server has a better priority; when none is picked
  there is no such server.
\<close>

theorem best_server_first:
  assumes "download gz env arts (downloader_new cfgs bps t0) t1 = (out, rs, d', t')"
  shows "case pick_server (servers d') tried t of
      None \<Rightarrow> \<forall>s \<in> set (servers d'). \<not> (is_available s t \<and> server_id_of s \<notin> set tried)
    | Some (i, sid) \<Rightarrow>
        (let s = servers d' ! i
         in s \<in> set (servers d') \<and> enabled (srv_config s) \<and> is_available s t \<and> sid = server_id_of s
            \<and> sid \<notin> set tried
            \<and> (\<forall>s' \<in> set (servers d'). is_available s' t \<and> server_id_of s' \<notin> set tried \<longrightarrow>
                 priority (srv_config s) \<le> priority (srv_config s')))"
proof (cases "pick_server (servers d') tried t")
  case None
  then show ?thesis using pick_from_None by (fastforce simp: pick_server_def)
next
  case (Some p)
  obtain i sid where p: "p = (i, sid)" by force
  have cfg: "map srv_config (servers d') = filter enabled (sort_key priority cfgs)"
    using download_configs [OF assms] new_configs by simp
  have "sorted (map priority (filter enabled (sort_key priority cfgs)))"
    by (rule sorted_filter) simp
  then have sorted: "sorted (priorities (servers d'))"
    using arg_cong [OF cfg, of "map priority"] by (simp add: priorities_def comp_def)
  note pick = pick_server_Some [OF Some [unfolded p]]
  have "enabled (srv_config (servers d' ! i))"
    using arg_cong [OF cfg, of set] pick by auto
  moreover have "priority (srv_config (servers d' ! i)) \<le> priority (srv_config s')"
    if "s' \<in> set (servers d')" "is_available s' t" "server_id_of s' \<notin> set tried" for s'
  proof -
    note other = that
    obtain j where j: "j < length (servers d')" "s' = servers d' ! j"
      using other(1) unfolding in_set_conv_nth by blast
    have "\<not> j < i" using pick other(2,3) j by auto
    then have "i \<le> j" by simp
    with sorted_nth_mono [OF sorted, of i j] j pick show ?thesis by (simp add: priorities_def)
  qed
  ultimately show ?thesis using pick Some p by (auto simp: Let_def)
qed

lemma best_server_first_witness:
  "pick_server (servers sample_downloader) [''t''] 1 \<noteq> None"
proof -
  have e: "enabled plain_config" "cfg_id plain_config = ''s''"
    by (simp_all add: plain_config_def new_config_def default_config_def)
  have "download (\<lambda>_. ([], None)) undisturbed [] (downloader_new [plain_config] 0 0) 0
      = (Returned (Inr ()), [], sample_downloader, 0)"
    by (simp add: download_def sample_downloader_def)
  note best = best_server_first [OF this, where tried = "[''t'']" and t = 1]
  show ?thesis
  proof
    assume "pick_server (servers sample_downloader) [''t''] 1 = None"
    with best e show False
      by (simp add: sample_downloader_def downloader_new_def server_new_def is_available_def server_id_of_def)
  qed
qed

end
