(* ===== verification/Pipeline.thy ===== *)
theory Pipeline
  imports Commands
begin

text \<open>
  \<open>src/pipeline.rs\<close>: the ARTICLE pipeline with its two queues and the batched STAT checker.
\<close>

record pipeline_request =
  req_message_id :: bytes
  req_tag :: nat

record pipeline_result =
  res_request :: pipeline_request
  res_result :: "nntp_response nntp_result"

record pipeline =
  depth :: nat
  in_flight :: "pipeline_request list"
  pending :: "pipeline_request list"

definition pipeline_new :: "nat \<Rightarrow> pipeline" where
  "pipeline_new d = \<lparr>depth = max d 1, in_flight = [], pending = []\<rparr>"

definition submit :: "bytes \<Rightarrow> nat \<Rightarrow> pipeline \<Rightarrow> pipeline" where
  "submit mid tag p = p\<lparr>pending := pending p @ [\<lparr>req_message_id = mid, req_tag = tag\<rparr>]\<rparr>"

definition in_flight_count :: "pipeline \<Rightarrow> nat" where
  "in_flight_count p = length (in_flight p)"

definition pending_count :: "pipeline \<Rightarrow> nat" where
  "pending_count p = length (pending p)"

definition pipeline_is_empty :: "pipeline \<Rightarrow> bool" where
  "pipeline_is_empty p \<longleftrightarrow> in_flight p = [] \<and> pending p = []"

text \<open>The pipeline brackets a message id that does not start with \<open><\<close>.\<close>

definition pipeline_mid :: "bytes \<Rightarrow> bytes" where
  "pipeline_mid mid = (if starts_with ''<'' mid then mid else ''<'' @ mid @ ''>'')"

text \<open>
  The send loop of \<open>flush_sends\<close>.  A request whose send fails has left \<open>pending\<close> and is not in
  \<open>in_flight\<close>.  The number returned is \<open>sent\<close>.
\<close>

function send_loop ::
  "nat \<Rightarrow> pipeline \<Rightarrow> nntp_connection \<Rightarrow> nat nntp_result \<times> pipeline \<times> nntp_connection" where
  "send_loop sent p c =
     (if length (in_flight p) < depth p then
        (case pending p of
           [] \<Rightarrow> (Inr sent, p, c)
         | req # rest \<Rightarrow>
             (case mark_error (send_command_no_flush
                     (''ARTICLE '' @ pipeline_mid (req_message_id req)) c) of
                (Inl e, c') \<Rightarrow> (Inl e, p\<lparr>pending := rest\<rparr>, c')
              | (Inr _, c') \<Rightarrow>
                  send_loop (Suc sent)
                    (p\<lparr>pending := rest, in_flight := in_flight p @ [req]\<rparr>) c'))
      else (Inr sent, p, c))"
  by pat_completeness auto
termination by (relation "measure (\<lambda>(sent, p, c). length (pending p))") auto

declare send_loop.simps [simp del]

definition flush_sends ::
  "pipeline \<Rightarrow> nntp_connection \<Rightarrow> unit nntp_result \<times> pipeline \<times> nntp_connection" where
  "flush_sends p c =
     (case send_loop 0 p c of
        (Inl e, p', c') \<Rightarrow> (Inl e, p', c')
      | (Inr sent, p', c') \<Rightarrow>
          if 0 < sent then (let (r, c'') = mark_error (flush c') in (r, p', c''))
          else (Inr (), p', c'))"

text \<open>The outcome of one request, given its status line.\<close>

definition article_outcome ::
  "pipeline_request \<Rightarrow> nntp_response \<Rightarrow> nntp_connection
     \<Rightarrow> nntp_response nntp_result \<times> nntp_connection" where
  "article_outcome req st c =
     (if code st = 220 then
        (case read_multiline_body c of
           (Inr d, c') \<Rightarrow> (Inr \<lparr>code = code st, message = message st, data = Some d\<rparr>, c')
         | (Inl e, c') \<Rightarrow> finish Error (Inl e) c')
      else if code st = 430 then (Inl (ArticleNotFound (req_message_id req)), c)
      else if code st = 411 then (Inl (NoSuchGroup (message st)), c)
      else if code st \<in> {412, 420, 423} then (Inl (NoArticleSelected (message st)), c)
      else if code st = 403 then finish Error (Inl (PermissionDenied (message st))) c
      else if code st = 480 then finish Error (Inl (AuthRequired (message st))) c
      else if code st \<in> {481, 482} then finish Error (Inl (rejected ''ARTICLE'' st)) c
      else if code st = 502 then finish Error (Inl (ServiceUnavailable (message st))) c
      else finish Error (Inl (unexpected_article_response (code st) (message st))) c)"

definition receive_one ::
  "pipeline \<Rightarrow> nntp_connection
     \<Rightarrow> pipeline_result option nntp_result \<times> pipeline \<times> nntp_connection" where
  "receive_one p c =
     (case in_flight p of
        [] \<Rightarrow> (Inr None, p, c)
      | req # rest \<Rightarrow>
          (let p' = p\<lparr>in_flight := rest\<rparr>
           in case mark_error (read_response_line c) of
                (Inl e, c') \<Rightarrow> (Inl e, p', c')
              | (Inr st, c') \<Rightarrow>
                  (let (r, c'') = article_outcome req st c'
                   in (Inr (Some \<lparr>res_request = req, res_result = r\<rparr>), p', c''))))"

text \<open>The \<open>matches!\<close> of \<open>process_all\<close>: which results abort the pipeline.\<close>

fun is_fatal :: "nntp_response nntp_result \<Rightarrow> bool" where
  "is_fatal (Inl (Auth _)) = True"
| "is_fatal (Inl (AuthRequired _)) = True"
| "is_fatal (Inl (PermissionDenied _)) = True"
| "is_fatal (Inl (ServiceUnavailable _)) = True"
| "is_fatal (Inl (Connection _)) = True"
| "is_fatal (Inl (Io _)) = True"
| "is_fatal _ = False"

definition aborted :: "pipeline_request \<Rightarrow> pipeline_result" where
  "aborted req =
     \<lparr>res_request = req, res_result = Inl (Connection ''Pipeline aborted due to fatal error'')\<rparr>"

text \<open>The size of a pipeline: the requests that still wait for their result.\<close>

instantiation pipeline_ext :: (type) size
begin

definition size_pipeline_ext :: "'a pipeline_scheme \<Rightarrow> nat" where
  "size_pipeline_ext p = length (in_flight p) + length (pending p)"

instance ..

end

lemma size_pipeline [simp]: "size p = length (in_flight p) + length (pending p)" for p :: pipeline
  by (simp add: size_pipeline_ext_def)

lemma send_loop_count:
  "size (fst (snd (send_loop n p c))) \<le> size p"
proof (induction n p c rule: send_loop.induct)
  case (1 sent p c)
  show ?case
    by (subst send_loop.simps)
       (use 1 in \<open>auto split: list.splits prod.splits sum.splits\<close>)
qed

lemma flush_sends_count:
  "flush_sends p c = (r, p', c') \<Longrightarrow> size p' \<le> size p"
  using send_loop_count [of 0 p c]
  by (auto simp: flush_sends_def split: prod.splits sum.splits if_splits)

lemma receive_one_Some:
  "receive_one p c = (Inr (Some res), p', c') \<Longrightarrow>
     in_flight p = res_request res # in_flight p' \<and> pending p' = pending p \<and> depth p' = depth p"
  by (auto simp: receive_one_def Let_def split: list.splits prod.splits sum.splits)

text \<open>
  The loop of \<open>process_all\<close> with the results collected so far.  Each round that continues takes
  one request out of the two queues.  \<open>receive_one\<close> gives \<open>None\<close> only with nothing in flight,
  which the test before it has excluded.
\<close>

function process_loop ::
  "pipeline_result list \<Rightarrow> pipeline \<Rightarrow> nntp_connection
     \<Rightarrow> pipeline_result list nntp_result \<times> pipeline \<times> nntp_connection" where
  "process_loop results p c =
     (case flush_sends p c of
        (Inl e, p1, c1) \<Rightarrow> (Inl e, p1, c1)
      | (Inr _, p1, c1) \<Rightarrow>
          if in_flight p1 = [] then (Inr results, p1, c1)
          else (case receive_one p1 c1 of
             (Inl e, p2, c2) \<Rightarrow> (Inl e, p2, c2)
           | (Inr None, p2, c2) \<Rightarrow> (Inr results, p2, c2)
           | (Inr (Some res), p2, c2) \<Rightarrow>
               if is_fatal (res_result res) then
                 (Inr (results @ [res] @ map aborted (in_flight p2) @ map aborted (pending p2)),
                  p2\<lparr>in_flight := [], pending := []\<rparr>, c2)
               else process_loop (results @ [res]) p2 c2))"
  by pat_completeness auto
termination
  by (relation "measure (\<lambda>(rs, p, c). size p)")
     (auto dest!: flush_sends_count [OF sym] receive_one_Some [OF sym])

declare process_loop.simps [simp del]

definition process_all ::
  "pipeline \<Rightarrow> nntp_connection
     \<Rightarrow> pipeline_result list nntp_result \<times> pipeline \<times> nntp_connection" where
  "process_all p c = process_loop [] p c"

section \<open>STAT batches\<close>

record stat_result =
  sr_message_id :: bytes
  sr_exists :: bool

record stat_pipeline =
  stat_pending :: "bytes list"

definition STAT_BATCH_SIZE :: nat where "STAT_BATCH_SIZE = 100"

definition stat_new :: stat_pipeline where "stat_new = \<lparr>stat_pending = []\<rparr>"

definition stat_add :: "bytes \<Rightarrow> stat_pipeline \<Rightarrow> stat_pipeline" where
  "stat_add mid s = s\<lparr>stat_pending := stat_pending s @ [mid]\<rparr>"

fun send_stats :: "bytes list \<Rightarrow> nntp_connection \<Rightarrow> unit nntp_result \<times> nntp_connection" where
  "send_stats [] c = (Inr (), c)"
| "send_stats (mid # mids) c =
     rbind (mark_error (send_command_no_flush (''STAT '' @ normalize_message_id mid) c))
       (\<lambda>_ c. send_stats mids c)"

definition stat_outcome ::
  "bytes \<Rightarrow> nntp_response \<Rightarrow> nntp_connection \<Rightarrow> stat_result nntp_result \<times> nntp_connection" where
  "stat_outcome mid resp c =
     (if code resp = 223 then (Inr \<lparr>sr_message_id = mid, sr_exists = True\<rparr>, c)
      else if code resp = 430 then (Inr \<lparr>sr_message_id = mid, sr_exists = False\<rparr>, c)
      else if code resp = 480 then finish Error (Inl (AuthRequired (message resp))) c
      else if code resp \<in> {481, 482} then finish Error (Inl (rejected ''STAT'' resp)) c
      else if code resp = 502 then finish Error (Inl (ServiceUnavailable (message resp))) c
      else finish Error (Inl (unexpected ''STAT'' resp)) c)"

fun read_stats ::
  "bytes list \<Rightarrow> nntp_connection \<Rightarrow> stat_result list nntp_result \<times> nntp_connection" where
  "read_stats [] c = (Inr [], c)"
| "read_stats (mid # mids) c =
     rbind (mark_error (read_response_line c)) (\<lambda>resp c.
     rbind (stat_outcome mid resp c) (\<lambda>r c.
     rbind (read_stats mids c) (\<lambda>rs c. (Inr (r # rs), c))))"

definition stat_batch ::
  "bytes list \<Rightarrow> nntp_connection \<Rightarrow> stat_result list nntp_result \<times> nntp_connection" where
  "stat_batch batch c =
     rbind (send_stats batch (c\<lparr>state := Busy\<rparr>)) (\<lambda>_ c.
     rbind (mark_error (flush c)) (\<lambda>_ c.
     rbind (read_stats batch c) (\<lambda>rs c. finish Ready (Inr rs) c)))"

function stat_batches ::
  "bytes list \<Rightarrow> nntp_connection \<Rightarrow> stat_result list nntp_result \<times> nntp_connection" where
  "stat_batches ids c =
     (if ids = [] then (Inr [], c)
      else rbind (stat_batch (take STAT_BATCH_SIZE ids) c) (\<lambda>rs c.
           rbind (stat_batches (drop STAT_BATCH_SIZE ids) c) (\<lambda>rs' c. (Inr (rs @ rs'), c))))"
  by pat_completeness auto
termination
  by (relation "measure (\<lambda>(ids, c). length ids)") (auto simp: STAT_BATCH_SIZE_def)

declare stat_batches.simps [simp del]

definition stat_execute ::
  "stat_pipeline \<Rightarrow> nntp_connection
     \<Rightarrow> stat_result list nntp_result \<times> stat_pipeline \<times> nntp_connection" where
  "stat_execute s c =
     (let (r, c') = stat_batches (stat_pending s) c in (r, s\<lparr>stat_pending := []\<rparr>, c'))"

end
