(* ===== verification/Mock_Server.thy ===== *)
theory Mock_Server
  imports Posting Config "HOL-Library.AList"
begin

text \<open>
  \<open>src/testutil.rs\<close>: the in-process NNTP server of the test support feature, as a function from
  the bytes a client sends to the bytes it gets back.

  \<open>inp\<close> is what the client has sent and the server has not yet read; where it ends, the client
  has closed its side.  \<open>outp\<close> is what the server has written, as the script a client reads: each
  write is the configured delay and then its bytes.  \<open>peer\<close> says of each coming write whether the
  socket accepts it (all further ones do when it is used up).  Written bytes are not buffered, so
  \<open>flush\<close> has no effect here.  The hash maps are association lists.

  \<open>upper\<close> stands for \<open>str::to_uppercase\<close>, whose Unicode tables are not reproduced; only its
  values on ASCII strings matter, and the laws that need them say so.
\<close>

section \<open>The login rate limiter\<close>

record auth_rate_limit =
  max_attempts :: nat
  rate_window :: nat
  attempts :: "nat list"

definition auth_rate_limit_new :: "nat \<Rightarrow> nat \<Rightarrow> auth_rate_limit" where
  "auth_rate_limit_new n w = \<lparr>max_attempts = n, rate_window = w, attempts = []\<rparr>"

definition check_and_record :: "nat \<Rightarrow> auth_rate_limit \<Rightarrow> bool \<times> auth_rate_limit" where
  "check_and_record t r =
     (let s = dropWhile (\<lambda>front. rate_window r < t - front) (attempts r) @ [t]
      in (max_attempts r < length s, r\<lparr>attempts := s\<rparr>))"

section \<open>Configuration and state\<close>

record mock_config =
  welcome_code :: nat
  welcome_message :: bytes
  auth_required :: bool
  valid_credentials :: "(bytes \<times> bytes) option"
  fail_auth :: bool
  service_unavailable :: bool
  groups :: "(bytes \<times> nat \<times> nat \<times> nat) list"
  articles :: "(bytes \<times> bytes) list"
  heads :: "(nat \<times> bytes) list"
  xover_entries :: "bytes list"
  xover_entries_by_range :: "(bytes \<times> bytes list) list"
  xover_raw_entries :: "bytes list"
  xover_423_outside_group :: bool
  xhdr_entries :: "bytes list"
  xpat_entries :: "bytes list"
  xpat_entries_by_request :: "(bytes \<times> bytes list) list"
  xpat_unsupported :: bool
  list_active_entries :: "bytes list"
  overview_format_entries :: "bytes list"
  post_not_permitted :: bool
  silent_close_after_bytes :: "nat option"
  hang_after_command :: "bytes option"
  close_after_n_commands :: "nat option"
  response_delay :: "nat option"
  article_response_overrides :: "(bytes \<times> nat) list"
  capabilities_unsupported :: bool
  capabilities_mode_reader :: bool

text \<open>What the connections of one server share: the mutable parts of \<open>MockConfig\<close>.\<close>

record mock_shared =
  posted_articles :: "bytes list option"
  article_response_sequences :: "(bytes \<times> (nat \<times> bytes) list) list option"
  rate_limit :: "auth_rate_limit option"

definition mock_default :: mock_config where
  "mock_default =
     \<lparr>welcome_code = 200, welcome_message = ''Mock NNTP Ready'', auth_required = False,
      valid_credentials = None, fail_auth = False, service_unavailable = False, groups = [],
      articles = [], heads = [], xover_entries = [], xover_entries_by_range = [],
      xover_raw_entries = [], xover_423_outside_group = False, xhdr_entries = [],
      xpat_entries = [], xpat_entries_by_request = [], xpat_unsupported = False,
      list_active_entries = [],
      overview_format_entries =
        [''Subject:'', ''From:'', ''Date:'', ''Message-ID:'', ''References:'', '':bytes'', '':lines''],
      post_not_permitted = False, silent_close_after_bytes = None, hang_after_command = None,
      close_after_n_commands = None, response_delay = None, article_response_overrides = [],
      capabilities_unsupported = False, capabilities_mode_reader = False\<rparr>"

definition shared_default :: mock_shared where
  "shared_default = \<lparr>posted_articles = None, article_response_sequences = None, rate_limit = None\<rparr>"

text \<open>A connection: its stream, \<open>ConnState\<close>, and the local variables of the handler.\<close>

record mock_conn =
  inp :: bytes
  outp :: "rx_item list"
  peer :: "bool list"
  clock :: nat
  bytes_written :: nat
  hung :: bool
  authenticated :: bool
  selected_group :: "bytes option"
  commands_processed :: nat
  shared :: mock_shared

definition mock_conn_new :: "mock_shared \<Rightarrow> bool list \<Rightarrow> nat \<Rightarrow> bytes \<Rightarrow> mock_conn" where
  "mock_conn_new sh ok t sent =
     \<lparr>inp = sent, outp = [], peer = ok, clock = t, bytes_written = 0, hung = False,
      authenticated = False, selected_group = None, commands_processed = 0, shared = sh\<rparr>"

definition test_config :: "nat \<Rightarrow> server_config" where
  "test_config p =
     \<lparr>cfg_id = ''test-server'', cfg_name = ''Test Server'', host = ''127.0.0.1'', port = p,
      ssl = False, ssl_verify = False, username = None, password = None, connections = 4,
      priority = 0, enabled = True, retention = 0, pipelining = 1, optional = False,
      compress = False, ramp_up_delay_ms = 0, recv_buffer_size = 0, proxy_url = None,
      trusted_fingerprint = None, connect_timeout_secs = 30\<rparr>"

definition test_config_with_auth :: "nat \<Rightarrow> bytes \<Rightarrow> bytes \<Rightarrow> server_config" where
  "test_config_with_auth p user pass =
     (test_config p)\<lparr>username := Some user, password := Some pass\<rparr>"

section \<open>Writing\<close>

definition socket_write :: "bytes \<Rightarrow> mock_conn \<Rightarrow> bool \<times> mock_conn" where
  "socket_write d s =
     (case peer s of
        [] \<Rightarrow> (True, s\<lparr>outp := outp s @ map RxByte d\<rparr>)
      | ok # oks \<Rightarrow>
          (ok, s\<lparr>peer := oks, outp := (if ok then outp s @ map RxByte d else outp s)\<rparr>))"

text \<open>The sleep before a write.\<close>

definition delay_write :: "mock_config \<Rightarrow> mock_conn \<Rightarrow> mock_conn" where
  "delay_write cfg s =
     (case response_delay cfg of
        None \<Rightarrow> s
      | Some d \<Rightarrow> s\<lparr>outp := outp s @ [RxWait d], clock := clock s + d\<rparr>)"

text \<open>\<open>ConnState::write\<close>: \<open>False\<close> when the connection is to be closed.\<close>

definition mock_write :: "mock_config \<Rightarrow> bytes \<Rightarrow> mock_conn \<Rightarrow> bool \<times> mock_conn" where
  "mock_write cfg d s0 =
     (if hung s0 then (True, s0)
      else let s = delay_write cfg s0;
               full = (let (ok, s') = socket_write d s
                       in if ok then (True, s'\<lparr>bytes_written := bytes_written s + length d\<rparr>)
                          else (False, s'))
           in case silent_close_after_bytes cfg of
                None \<Rightarrow> full
              | Some limit \<Rightarrow>
                  if limit \<le> bytes_written s then (False, s)
                  else if limit < bytes_written s + length d then
                    (let n = limit - bytes_written s;
                         s' = snd (socket_write (take n d) s)
                     in (False, s'\<lparr>bytes_written := bytes_written s + n\<rparr>))
                  else full)"

text \<open>A run of \<open>mwrite!\<close>s: the first refused write ends the handler.\<close>

fun mwrites :: "mock_config \<Rightarrow> bytes list \<Rightarrow> mock_conn \<Rightarrow> bool \<times> mock_conn" where
  "mwrites cfg [] s = (True, s)"
| "mwrites cfg (d # ds) s =
     (let (ok, s') = mock_write cfg d s in if ok then mwrites cfg ds s' else (False, s'))"

definition reply :: "mock_config \<Rightarrow> bytes \<Rightarrow> mock_conn \<Rightarrow> bool \<times> mock_conn" where
  "reply cfg line s = mwrites cfg [line @ crlf] s"

text \<open>A multi-line answer: its status line, each entry and its line end, and the final dot.\<close>

definition entry_writes :: "bytes list \<Rightarrow> bytes list" where
  "entry_writes es = concat (map (\<lambda>e. [e, crlf]) es)"

definition reply_lines :: "mock_config \<Rightarrow> bytes \<Rightarrow> bytes list \<Rightarrow> mock_conn \<Rightarrow> bool \<times> mock_conn" where
  "reply_lines cfg status es s = mwrites cfg ([status @ crlf] @ entry_writes es @ [terminator]) s"

text \<open>\<open>write_multiline_body\<close>; its scan of the data is the one of \<open>post_article_bytes\<close>.\<close>

definition body_writes :: "bytes \<Rightarrow> bytes list" where
  "body_writes d =
     concat (map byte_line_chunks (byte_lines d)) @ (if d = [] then [crlf] else []) @ [terminator]"

definition write_multiline_body :: "mock_config \<Rightarrow> bytes \<Rightarrow> mock_conn \<Rightarrow> bool \<times> mock_conn" where
  "write_multiline_body cfg d s = mwrites cfg (body_writes d) s"

section \<open>Reading\<close>

text \<open>\<open>read_line\<close> and \<open>read_until\<close>: up to and with the next line feed, or to the end.\<close>

definition take_line :: "bytes \<Rightarrow> bytes \<times> bytes" where
  "take_line s =
     (let l = takeWhile (\<lambda>b. b \<noteq> LF) s; r = dropWhile (\<lambda>b. b \<noteq> LF) s
      in (l @ take 1 r, drop 1 r))"

definition strip_lf :: "bytes \<Rightarrow> bytes" where
  "strip_lf s = (if s \<noteq> [] \<and> last s = LF then butlast s else s)"

lemma take_line_shorter: "take_line s = (l, r) \<Longrightarrow> s \<noteq> [] \<Longrightarrow> length r < length s"
proof -
  assume a: "take_line s = (l, r)" and "s \<noteq> []"
  then obtain b t where s: "s = b # t" by (cases s) auto
  have "length (dropWhile (\<lambda>b. b \<noteq> LF) t) \<le> length t" by (rule length_dropWhile_le)
  with a show ?thesis by (auto simp: take_line_def s Let_def)
qed

text \<open>\<open>read_posted_article\<close>: the article and what follows it, \<open>None\<close> when the stream ends first.\<close>

function read_posted :: "bytes \<Rightarrow> bytes \<Rightarrow> (bytes \<times> bytes) option" where
  "read_posted art s =
     (if s = [] then None
      else let (l, r) = take_line s; line = strip_cr (strip_lf l)
           in if line = [DOT] then Some (art, r)
              else read_posted
                     (art @ (if starts_with [DOT, DOT] line then tl line else line) @ crlf) r)"
  by pat_completeness auto
termination
  by (relation "measure (\<lambda>(art, s). length s)") (auto dest: take_line_shorter [OF sym])

declare read_posted.simps [simp del]

section \<open>The commands\<close>

text \<open>
  Each handler gets the pieces of the command line and says whether the connection goes on.  Those
  behind the login share the first test.
\<close>

definition arg :: "bytes list \<Rightarrow> nat \<Rightarrow> bytes" where
  "arg parts k = (case nth_opt parts k of None \<Rightarrow> [] | Some a \<Rightarrow> a)"

definition behind_login ::
  "mock_config \<Rightarrow> (mock_conn \<Rightarrow> bool \<times> mock_conn) \<Rightarrow> mock_conn \<Rightarrow> bool \<times> mock_conn" where
  "behind_login cfg h s =
     (if \<not> authenticated s then reply cfg ''480 Authentication required'' s else h s)"

definition handle_quit :: "mock_config \<Rightarrow> mock_conn \<Rightarrow> bool \<times> mock_conn" where
  "handle_quit cfg s = (let (ok, s') = reply cfg ''205 Goodbye'' s in (False, s'))"

definition handle_capabilities :: "mock_config \<Rightarrow> mock_conn \<Rightarrow> bool \<times> mock_conn" where
  "handle_capabilities cfg s =
     (if capabilities_unsupported cfg then reply cfg ''500 Unknown command'' s
      else mwrites cfg
        ([''101 Capability list:'' @ crlf, ''VERSION 2'' @ crlf]
         @ (if capabilities_mode_reader cfg then [''MODE-READER'' @ crlf, ''IHAVE'' @ crlf]
            else [''READER'' @ crlf, ''POST'' @ crlf, ''HDR'' @ crlf, ''OVER MSGID'' @ crlf,
                  ''LIST ACTIVE NEWSGROUPS OVERVIEW.FMT'' @ crlf])
         @ [''IMPLEMENTATION nzb-nntp-testutil 1.0'' @ crlf, terminator]) s)"

definition handle_mode ::
  "(bytes \<Rightarrow> bytes) \<Rightarrow> mock_config \<Rightarrow> bytes list \<Rightarrow> mock_conn \<Rightarrow> bool \<times> mock_conn" where
  "handle_mode upper cfg parts s =
     (let sub = (case nth_opt parts 1 of None \<Rightarrow> [] | Some a \<Rightarrow> upper a)
      in if sub = ''READER'' then reply cfg ''200 Reader mode, posting allowed'' s
         else reply cfg (''501 Unknown MODE subcommand: '' @ sub) s)"

text \<open>The attempt is recorded before anything else is looked at.\<close>

definition record_attempt :: "mock_conn \<Rightarrow> bool \<times> mock_conn" where
  "record_attempt s =
     (case rate_limit (shared s) of
        None \<Rightarrow> (False, s)
      | Some r \<Rightarrow>
          (let (limited, r') = check_and_record (clock s) r
           in (limited, s\<lparr>shared := (shared s)\<lparr>rate_limit := Some r'\<rparr>\<rparr>)))"

definition handle_pass :: "mock_config \<Rightarrow> bytes list \<Rightarrow> mock_conn \<Rightarrow> bool \<times> mock_conn" where
  "handle_pass cfg parts s0 =
     (let (limited, s) = record_attempt s0
      in if limited then reply cfg ''481 Authentication rate-limited'' s
         else if fail_auth cfg then reply cfg ''481 Authentication failed'' s
         else case valid_credentials cfg of
           Some (user, pass) \<Rightarrow>
             (if arg parts 2 = pass
              then reply cfg ''281 Authentication accepted'' (s\<lparr>authenticated := True\<rparr>)
              else reply cfg ''481 Authentication failed'' s)
         | None \<Rightarrow> reply cfg ''281 Authentication accepted'' (s\<lparr>authenticated := True\<rparr>))"

definition handle_authinfo ::
  "(bytes \<Rightarrow> bytes) \<Rightarrow> mock_config \<Rightarrow> bytes list \<Rightarrow> mock_conn \<Rightarrow> bool \<times> mock_conn" where
  "handle_authinfo upper cfg parts s =
     (let sub = (case nth_opt parts 1 of None \<Rightarrow> [] | Some a \<Rightarrow> upper a)
      in if sub = ''USER'' then
           (if fail_auth cfg then reply cfg ''482 Authentication rejected'' s
            else reply cfg ''381 Password required'' s)
         else if sub = ''PASS'' then handle_pass cfg parts s
         else reply cfg ''500 Unknown AUTHINFO subcommand'' s)"

definition handle_group :: "mock_config \<Rightarrow> bytes list \<Rightarrow> mock_conn \<Rightarrow> bool \<times> mock_conn" where
  "handle_group cfg parts =
     behind_login cfg (\<lambda>s.
       let nm = arg parts 1
       in case map_of (groups cfg) nm of
            Some (count, first, lst) \<Rightarrow>
              reply cfg (''211 '' @ show_nat count @ '' '' @ show_nat first @ '' '' @ show_nat lst
                @ '' '' @ nm) (s\<lparr>selected_group := Some nm\<rparr>)
          | None \<Rightarrow> reply cfg ''411 No such group'' s)"

text \<open>A map keyed by request, with the default used while it is empty or has no entry.\<close>

definition keyed_entries ::
  "(bytes \<times> bytes list) list \<Rightarrow> bytes option \<Rightarrow> bytes list \<Rightarrow> bytes list" where
  "keyed_entries m key dflt =
     (if m = [] then dflt
      else case key of
        None \<Rightarrow> dflt
      | Some k \<Rightarrow> (case map_of m k of None \<Rightarrow> dflt | Some es \<Rightarrow> es))"

definition xover_range_outside_group :: "bytes option \<Rightarrow> (nat \<times> nat \<times> nat) option \<Rightarrow> bool" where
  "xover_range_outside_group rng grp =
     (case (rng, grp) of
        (Some rg, Some (count, first, lst)) \<Rightarrow>
          (let bounds = splitn 2 (CHR ''-'') rg;
               a = Option.bind (nth_opt bounds 0) parse_u64;
               b = Option.bind (nth_opt bounds 1) parse_u64
           in case (a, b) of
                (Some a, Some b) \<Rightarrow> b < first \<or> lst < a
              | _ \<Rightarrow> False)
      | _ \<Rightarrow> False)"

definition handle_xover :: "mock_config \<Rightarrow> bytes list \<Rightarrow> mock_conn \<Rightarrow> bool \<times> mock_conn" where
  "handle_xover cfg parts =
     behind_login cfg (\<lambda>s.
       let es = keyed_entries (xover_entries_by_range cfg) (nth_opt parts 1) (xover_entries cfg)
       in if selected_group s = None then reply cfg ''412 No newsgroup selected'' s
          else if xover_423_outside_group cfg
                  \<and> xover_range_outside_group (nth_opt parts 1)
                      (Option.bind (selected_group s) (map_of (groups cfg)))
          then reply cfg ''423 No articles in that range'' s
          else if es = [] \<and> xover_raw_entries cfg = [] then reply cfg ''420 No articles in range'' s
          else reply_lines cfg ''224 Overview data follows'' (xover_raw_entries cfg @ es) s)"

definition handle_head :: "mock_config \<Rightarrow> bytes list \<Rightarrow> mock_conn \<Rightarrow> bool \<times> mock_conn" where
  "handle_head cfg parts =
     behind_login cfg (\<lambda>s.
       if selected_group s = None then reply cfg ''412 No newsgroup selected'' s
       else case Option.bind (nth_opt parts 1) parse_u64 of
         None \<Rightarrow> reply cfg ''423 No article with that number'' s
       | Some n \<Rightarrow>
           (case map_of (heads cfg) n of
              None \<Rightarrow> reply cfg ''423 No article with that number'' s
            | Some hs \<Rightarrow>
                mwrites cfg
                  ([''221 '' @ show_nat n @ '' article headers follow'' @ crlf, hs]
                   @ (if ends_with [LF] hs then [] else [crlf]) @ [terminator]) s))"

definition handle_xhdr :: "mock_config \<Rightarrow> mock_conn \<Rightarrow> bool \<times> mock_conn" where
  "handle_xhdr cfg =
     behind_login cfg (\<lambda>s.
       if xhdr_entries cfg = [] then reply cfg ''420 No articles in range'' s
       else reply_lines cfg ''221 Header data follows'' (xhdr_entries cfg) s)"

definition handle_xpat :: "mock_config \<Rightarrow> bytes list \<Rightarrow> mock_conn \<Rightarrow> bool \<times> mock_conn" where
  "handle_xpat cfg parts =
     behind_login cfg (\<lambda>s.
       let es = keyed_entries (xpat_entries_by_request cfg) (nth_opt parts 2) (xpat_entries cfg)
       in if xpat_unsupported cfg then reply cfg ''500 XPAT unsupported'' s
          else if es = [] then reply cfg ''420 No articles matched'' s
          else reply_lines cfg ''221 Header data follows'' es s)"

definition handle_list :: "mock_config \<Rightarrow> bytes list \<Rightarrow> mock_conn \<Rightarrow> bool \<times> mock_conn" where
  "handle_list cfg parts =
     behind_login cfg (\<lambda>s.
       if (case nth_opt parts 1 of None \<Rightarrow> False | Some a \<Rightarrow> eq_ignore_ascii_case a ''OVERVIEW.FMT'')
       then reply_lines cfg ''215 Order of fields in overview database''
              (overview_format_entries cfg) s
       else reply_lines cfg ''215 List of newsgroups follows'' (list_active_entries cfg) s)"

section \<open>Articles\<close>

definition mid_bracket :: "byte \<Rightarrow> bool" where "mid_bracket b \<longleftrightarrow> b = CHR ''<'' \<or> b = CHR ''>''"

definition arg_mid :: "bytes list \<Rightarrow> bytes" where
  "arg_mid parts = trim_matches mid_bracket (arg parts 1)"

definition bracketed :: "nat \<Rightarrow> bytes \<Rightarrow> bytes" where
  "bracketed n mid = show_nat n @ '' <'' @ mid @ ''>''"

text \<open>The one-shot answers: the next one for the id is taken from the shared queue.\<close>

definition pop_sequenced :: "bytes \<Rightarrow> mock_conn \<Rightarrow> (nat \<times> bytes) option \<times> mock_conn" where
  "pop_sequenced mid s =
     (case article_response_sequences (shared s) of
        None \<Rightarrow> (None, s)
      | Some m \<Rightarrow>
          (case map_of m mid of
             Some (r # rs) \<Rightarrow>
               (Some r, s\<lparr>shared := (shared s)
                  \<lparr>article_response_sequences := Some (AList.update mid rs m)\<rparr>\<rparr>)
           | _ \<Rightarrow> (None, s)))"

text \<open>What the override and the article map say of an id, around the success branch \<open>found\<close>.\<close>

definition article_lookup ::
  "mock_config \<Rightarrow> bytes \<Rightarrow> (bytes \<Rightarrow> mock_conn \<Rightarrow> bool \<times> mock_conn) \<Rightarrow> mock_conn
     \<Rightarrow> bool \<times> mock_conn" where
  "article_lookup cfg mid found s =
     (case map_of (article_response_overrides cfg) mid of
        Some n \<Rightarrow> reply cfg (bracketed n mid) s
      | None \<Rightarrow>
          (case map_of (articles cfg) mid of
             Some d \<Rightarrow> found d s
           | None \<Rightarrow> reply cfg (''430 No article: <'' @ mid @ ''>'') s))"

definition send_article ::
  "mock_config \<Rightarrow> bytes \<Rightarrow> bytes \<Rightarrow> bytes \<Rightarrow> mock_conn \<Rightarrow> bool \<times> mock_conn" where
  "send_article cfg status mid d s =
     (let (ok, s') = reply cfg (status @ '' 0 <'' @ mid @ ''>'') s
      in if ok then write_multiline_body cfg d s' else (False, s'))"

definition handle_article :: "mock_config \<Rightarrow> bytes list \<Rightarrow> mock_conn \<Rightarrow> bool \<times> mock_conn" where
  "handle_article cfg parts =
     behind_login cfg (\<lambda>s0.
       let mid = arg_mid parts; (sequenced, s) = pop_sequenced mid s0
       in case sequenced of
            Some (n, msg) \<Rightarrow> reply cfg (show_nat n @ '' '' @ msg) s
          | None \<Rightarrow> article_lookup cfg mid (send_article cfg ''220'' mid) s)"

definition handle_body :: "mock_config \<Rightarrow> bytes list \<Rightarrow> mock_conn \<Rightarrow> bool \<times> mock_conn" where
  "handle_body cfg parts =
     behind_login cfg (\<lambda>s.
       let mid = arg_mid parts in article_lookup cfg mid (send_article cfg ''222'' mid) s)"

definition handle_stat :: "mock_config \<Rightarrow> bytes list \<Rightarrow> mock_conn \<Rightarrow> bool \<times> mock_conn" where
  "handle_stat cfg parts =
     behind_login cfg (\<lambda>s.
       let mid = arg_mid parts
       in article_lookup cfg mid (\<lambda>d. reply cfg (''223 0 <'' @ mid @ ''>'')) s)"

definition handle_post :: "mock_config \<Rightarrow> mock_conn \<Rightarrow> bool \<times> mock_conn" where
  "handle_post cfg =
     behind_login cfg (\<lambda>s.
       if post_not_permitted cfg then reply cfg ''440 Posting not permitted'' s
       else (let (ok, s') = reply cfg ''340 Send article to be posted'' s
             in if \<not> ok then (False, s')
                else case read_posted [] (inp s') of
                  None \<Rightarrow> (False, s'\<lparr>inp := []\<rparr>)
                | Some (art, rest) \<Rightarrow>
                    reply cfg ''240 Article received OK''
                      (s'\<lparr>inp := rest,
                          shared := (shared s')\<lparr>posted_articles :=
                            map_option (\<lambda>as. as @ [art]) (posted_articles (shared s'))\<rparr>\<rparr>)))"

section \<open>The connection handler\<close>

definition mock_dispatch ::
  "(bytes \<Rightarrow> bytes) \<Rightarrow> mock_config \<Rightarrow> bytes \<Rightarrow> bytes list \<Rightarrow> mock_conn \<Rightarrow> bool \<times> mock_conn" where
  "mock_dispatch upper cfg cmd parts s =
     (if cmd = ''QUIT'' then handle_quit cfg s
      else if cmd = ''CAPABILITIES'' then handle_capabilities cfg s
      else if cmd = ''MODE'' then handle_mode upper cfg parts s
      else if cmd = ''AUTHINFO'' then handle_authinfo upper cfg parts s
      else if cmd = ''GROUP'' then handle_group cfg parts s
      else if cmd = ''XOVER'' then handle_xover cfg parts s
      else if cmd = ''HEAD'' then handle_head cfg parts s
      else if cmd = ''XHDR'' then handle_xhdr cfg s
      else if cmd = ''XPAT'' then handle_xpat cfg parts s
      else if cmd = ''LIST'' then handle_list cfg parts s
      else if cmd = ''ARTICLE'' then handle_article cfg parts s
      else if cmd = ''BODY'' then handle_body cfg parts s
      else if cmd = ''STAT'' then handle_stat cfg parts s
      else if cmd = ''POST'' then handle_post cfg s
      else reply cfg (''500 Unknown command: '' @ cmd) s)"

text \<open>The hang fault, which sets in with its command.\<close>

definition mark_hung ::
  "(bytes \<Rightarrow> bytes) \<Rightarrow> mock_config \<Rightarrow> bytes \<Rightarrow> mock_conn \<Rightarrow> mock_conn" where
  "mark_hung upper cfg cmd s =
     (case hang_after_command cfg of
        Some hang_cmd \<Rightarrow> (if \<not> hung s \<and> cmd = upper hang_cmd then s\<lparr>hung := True\<rparr> else s)
      | None \<Rightarrow> s)"

text \<open>One trimmed, non-empty line, up to the test of the command counter.\<close>

definition mock_command ::
  "(bytes \<Rightarrow> bytes) \<Rightarrow> mock_config \<Rightarrow> bytes \<Rightarrow> mock_conn \<Rightarrow> bool \<times> mock_conn" where
  "mock_command upper cfg trimmed s0 =
     (let parts = splitn 3 (CHR '' '') trimmed;
          cmd = upper (arg parts 0);
          (ok, s) = mock_dispatch upper cfg cmd parts (mark_hung upper cfg cmd s0)
      in if \<not> ok then (False, s)
         else (let s' = s\<lparr>commands_processed := commands_processed s + 1\<rparr>
               in (case close_after_n_commands cfg of
                     Some limit \<Rightarrow> commands_processed s' < limit | None \<Rightarrow> True, s')))"

lemma read_posted_shorter: "read_posted art s = Some (a, r) \<Longrightarrow> length r < length s"
proof (induction art s rule: read_posted.induct)
  case (1 art s)
  obtain l t where t: "take_line s = (l, t)" by force
  show ?case
  proof (cases "s = []")
    case False
    then have "strip_cr (strip_lf l) = [DOT] \<and> r = t
        \<or> (\<exists>art'. read_posted art' t = Some (a, r) \<and> length r < length t)"
      using 1 t by (auto simp: read_posted.simps [of art s] Let_def split: if_splits)
    with take_line_shorter [OF t False] show ?thesis by auto
  qed (use 1(2) in \<open>simp add: read_posted.simps\<close>)
qed

text \<open>
  What every part of the handler does to a connection: it writes, sets the login, the group, the
  shared state, the hang flag and the counter, and reads on.  A predicate kept by these is kept by
  every command.
\<close>

locale mock_invariant =
  fixes cfg :: mock_config and P :: "mock_conn \<Rightarrow> bool"
  assumes kept_write: "P s \<Longrightarrow> P (snd (mock_write cfg d s))"
    and kept_login: "P s \<Longrightarrow> P (s\<lparr>authenticated := b\<rparr>)"
    and kept_group: "P s \<Longrightarrow> P (s\<lparr>selected_group := g\<rparr>)"
    and kept_shared: "P s \<Longrightarrow> P (s\<lparr>shared := sh\<rparr>)"
    and kept_hang: "P s \<Longrightarrow> P (s\<lparr>hung := True\<rparr>)"
    and kept_count: "P s \<Longrightarrow> P (s\<lparr>commands_processed := n\<rparr>)"
    and kept_input: "P s \<Longrightarrow> length r \<le> length (inp s) \<Longrightarrow> P (s\<lparr>inp := r\<rparr>)"
begin

lemma kept_writes: "P s \<Longrightarrow> P (snd (mwrites cfg ds s))"
proof (induction ds arbitrary: s)
  case (Cons d ds)
  obtain ok s' where w: "mock_write cfg d s = (ok, s')" by force
  with Cons kept_write [OF Cons.prems, of d] show ?case by simp
qed simp

lemma kept_reply: "P s \<Longrightarrow> P (snd (reply cfg l s))" "P s \<Longrightarrow> P (snd (reply_lines cfg l es s))"
  by (simp_all add: reply_def reply_lines_def kept_writes del: mwrites.simps)

lemma kept_behind: "P s \<Longrightarrow> (P s \<Longrightarrow> P (snd (h s))) \<Longrightarrow> P (snd (behind_login cfg h s))"
  by (simp add: behind_login_def kept_reply)

lemma kept_attempt: "P s \<Longrightarrow> P (snd (record_attempt s))"
  by (simp add: record_attempt_def kept_shared split: option.split prod.split)

lemma kept_pass: "P s \<Longrightarrow> P (snd (handle_pass cfg parts s))"
  using kept_attempt [of s]
  by (auto simp: handle_pass_def kept_reply kept_login split: option.split prod.splits)

lemma kept_authinfo: "P s \<Longrightarrow> P (snd (handle_authinfo upper cfg parts s))"
  by (simp add: handle_authinfo_def kept_reply kept_pass Let_def)

lemma kept_pop: "P s \<Longrightarrow> P (snd (pop_sequenced mid s))"
  by (simp add: pop_sequenced_def kept_shared split: option.split list.split)

lemma kept_lookup:
  "P s \<Longrightarrow> (\<And>d s. P s \<Longrightarrow> P (snd (found d s))) \<Longrightarrow> P (snd (article_lookup cfg mid found s))"
  by (simp add: article_lookup_def kept_reply split: option.split)

lemma kept_send: "P s \<Longrightarrow> P (snd (send_article cfg st mid d s))"
  using kept_reply(1) [of s "st @ '' 0 <'' @ mid @ ''>''"]
  by (auto simp: send_article_def write_multiline_body_def kept_writes split: prod.split simp del: mwrites.simps)

lemma kept_article: "P s \<Longrightarrow> P (snd (handle_article cfg parts s))"
  unfolding handle_article_def
proof (intro kept_behind, goal_cases)
  case 2
  obtain q s' where q: "pop_sequenced (arg_mid parts) s = (q, s')" by force
  with kept_pop [OF 2(1), of "arg_mid parts"] have "P s'" by simp
  then show ?case
    by (cases q) (auto simp: q Let_def intro!: kept_reply kept_lookup kept_send)
qed

lemma kept_post: "P s \<Longrightarrow> P (snd (handle_post cfg s))"
  unfolding handle_post_def
proof (intro kept_behind, goal_cases)
  case 2
  obtain ok s' where r: "reply cfg ''340 Send article to be posted'' s = (ok, s')" by force
  have "P s'" using kept_reply(1) [OF 2(1), of "''340 Send article to be posted''"] r by simp
  moreover have "P (snd (reply cfg l (s'\<lparr>inp := rest, shared := sh\<rparr>)))"
    if "read_posted [] (inp s') = Some (art, rest)" for art rest l sh
    using read_posted_shorter [OF that] calculation kept_shared [OF kept_input, of s' rest sh]
    by (intro kept_reply) simp
  ultimately show ?case
    using kept_reply(1) [OF 2(1), of "''440 Posting not permitted''"]
    by (auto simp: r Let_def intro: kept_input split: option.split)
qed

lemma kept_simple:
  "P s \<Longrightarrow> P (snd (handle_quit cfg s))" "P s \<Longrightarrow> P (snd (handle_capabilities cfg s))"
  "P s \<Longrightarrow> P (snd (handle_mode upper cfg parts s))"
  using kept_reply(1) [of s "''205 Goodbye''"]
  by (auto simp: handle_quit_def handle_capabilities_def handle_mode_def Let_def
      intro!: kept_reply kept_writes split: prod.split simp del: mwrites.simps)

lemma kept_listings:
  "P s \<Longrightarrow> P (snd (handle_xover cfg parts s))" "P s \<Longrightarrow> P (snd (handle_xhdr cfg s))"
  "P s \<Longrightarrow> P (snd (handle_xpat cfg parts s))" "P s \<Longrightarrow> P (snd (handle_list cfg parts s))"
  unfolding handle_xover_def handle_xhdr_def handle_xpat_def handle_list_def Let_def
  by (rule kept_behind; simp add: kept_reply)+

lemma kept_group_head:
  "P s \<Longrightarrow> P (snd (handle_group cfg parts s))" "P s \<Longrightarrow> P (snd (handle_head cfg parts s))"
  unfolding handle_group_def handle_head_def Let_def
  by (rule kept_behind; auto intro!: kept_reply kept_writes kept_group split: option.split
      simp del: mwrites.simps)+

lemma kept_body_stat:
  "P s \<Longrightarrow> P (snd (handle_body cfg parts s))" "P s \<Longrightarrow> P (snd (handle_stat cfg parts s))"
  unfolding handle_body_def handle_stat_def Let_def
  by (rule kept_behind; auto intro!: kept_lookup kept_send kept_reply)+

lemmas kept_handlers =
  kept_simple kept_authinfo kept_group_head kept_listings kept_article kept_body_stat kept_post kept_reply(1)

lemma kept_dispatch: "P s \<Longrightarrow> P (snd (mock_dispatch upper cfg cmd parts s))"
  by (simp add: mock_dispatch_def kept_handlers)

lemma kept_mark: "P s \<Longrightarrow> P (mark_hung upper cfg cmd s)"
  by (simp add: mark_hung_def kept_hang split: option.split)

lemma kept_command: "P s \<Longrightarrow> P (snd (mock_command upper cfg l s))"
proof -
  assume "P s"
  define parts cmd where "parts = splitn 3 (CHR '' '') l" and "cmd = upper (arg parts 0)"
  obtain ok s' where d: "mock_dispatch upper cfg cmd parts (mark_hung upper cfg cmd s) = (ok, s')" by force
  with kept_dispatch [OF kept_mark [OF \<open>P s\<close>], of upper cmd parts upper cmd] have "P s'" by simp
  with d show ?thesis by (auto simp: mock_command_def Let_def parts_def cmd_def intro: kept_count)
qed

end

lemma mock_write_inp [simp]: "inp (snd (mock_write cfg d s)) = inp s"
  by (auto simp: mock_write_def delay_write_def socket_write_def Let_def
      split: option.split list.split prod.split if_splits)

interpretation unread: mock_invariant cfg "\<lambda>s. length (inp s) \<le> n" for cfg n
  by unfold_locales simp_all

function mock_loop :: "(bytes \<Rightarrow> bytes) \<Rightarrow> mock_config \<Rightarrow> mock_conn \<Rightarrow> mock_conn" where
  "mock_loop upper cfg s =
     (if inp s = [] then s
      else let (line, r) = take_line (inp s); s = s\<lparr>inp := r\<rparr>
           in if \<not> utf8_valid line then s
              else if trim line = [] then mock_loop upper cfg s
              else let (ok, s') = mock_command upper cfg (trim line) s
                   in if ok then mock_loop upper cfg s' else s')"
  by pat_completeness auto
termination
proof (relation "measure (\<lambda>(upper, cfg, s). length (inp s))", goal_cases)
  case (2 upper cfg s x line r s1)
  then show ?case using take_line_shorter [OF sym] by auto
next
  case (3 upper cfg s x line r s1 y ok s')
  have "length r < length (inp s)" using take_line_shorter [OF sym] 3 by auto
  moreover have "length (inp s') \<le> length r"
    using unread.kept_command [of s1 "length r" upper cfg "trim line"] 3 by (auto dest: sym)
  ultimately show ?case by simp
qed simp

declare mock_loop.simps [simp del]

text \<open>\<open>handle_connection\<close>.\<close>

definition mock_connection :: "(bytes \<Rightarrow> bytes) \<Rightarrow> mock_config \<Rightarrow> mock_conn \<Rightarrow> mock_conn" where
  "mock_connection upper cfg s0 =
     (if service_unavailable cfg then snd (socket_write (''502 Service unavailable'' @ crlf) s0)
      else let (ok, s) = reply cfg (show_nat (welcome_code cfg) @ '' '' @ welcome_message cfg) s0
           in if \<not> ok then s
              else mock_loop upper cfg
                     (s\<lparr>authenticated := \<not> auth_required cfg, selected_group := None,
                        commands_processed := 0\<rparr>))"

end
