(* ===== verification/Runs.thy ===== *)
theory Runs
  imports Listings Posting Pipeline Downloader Mock_Server
begin

text \<open>
  Running the model.  The unit tests of the source are runs of its code on concrete values; here
  are the rules by which the simplifier runs the model the same way: the definitions it unfolds, the
  congruences that make it evaluate the first step of a sequence before the rest, and a short cut
  for the opening of a session with a mock server that behaves as usual.
\<close>

named_theorems run \<open>definitions and evaluation rules that a run unfolds\<close>
named_theorems run_cong \<open>what a run evaluates first\<close>

lemma rbind_run [run_cong]: "p = q \<Longrightarrow> rbind p k = rbind q k"
  and Let_run [run_cong]: "x = y \<Longrightarrow> Let x f = Let y f"
  by simp_all

section \<open>Definitions\<close>

lemmas run_rust_str [run] =
  starts_with_def ends_with_def strip_cr_def nth_opt_def rsplit_once_def str_lines_def
  trim_end_crlf_def trim_matches_def ws1_def ws2_def ws3_def trim_end_def trim_def
  split_whitespace_def remove_whitespace_def is_ascii_def is_digit_def ascii_lower_def
  ascii_upper_def to_ascii_lowercase_def to_ascii_uppercase_def eq_ignore_ascii_case_def
  utf8_cont_def utf8_two_def utf8_three_def utf8_four_def utf8_step_def digit_val_def
  decimal_def parse_u64_def parse_u64_or_0_def hex_digit_def debug_byte_def debug_str_def
  show_nat.simps

lemmas run_nntp_error [run] =
  expired_session_def unexpected_article_response_def

lemmas run_config [run] =
  default_port_def default_true_def default_connections_def default_recv_buffer_size_def
  default_ramp_up_delay_ms_def default_connect_timeout_secs_def default_pipelining_def
  new_config_def or_default_def deserialize_config_def serialize_config_def

lemmas run_capabilities [run] =
  caps_default_def default_assumed_def set_content_flags_def caps_line_def derive_flags_def
  caps_parse_def

lemmas run_overview [run] =
  REQUIRED_HEADER_FIELDS_def MAX_OVERVIEW_FIELDS_def MAX_FIELD_DESCRIPTOR_BYTES_def
  wire_lines_def parse_ascii_u64_def metadata_fields_valid_def parse_overview_format_def
  classify_line_def lefts_def rights_def parse_lossless_overview_rows_def

lemmas run_wire [run] =
  is_success_def needs_auth_def skip_char_def parse_response_line_def normalize_message_id_def
  parse_xover_line_def parse_xover_data_def split_at_blank_def parse_header_line_def
  parse_header_data_def parse_list_active_line_def parse_list_active_data_def
  parse_group_message_def parse_socks5_url_def hex_val_def parse_hex_byte_def
  parse_fingerprint_def hex_encode_short_def build_tls_config_def verify_server_cert_def

lemmas run_transport [run] =
  next_write_def with_write_timeout_def raw_write_def transport_write_all_def delivers_def

lemmas run_conn [run] =
  READ_LINE_TIMEOUT_def READ_BODY_LINE_TIMEOUT_def WRITE_TIMEOUT_def BODY_BUFFER_CAPACITY_def
  BODY_BUFFER_MAX_RETAINED_CAPACITY_def BODY_POOL_MAX_IDLE_def tick_def 
  is_compress_enabled_def disable_compression_def set_io_heartbeat_def tick_io_heartbeat_def
  is_connected_def checkout_body_buffer_def release_body_buffer_def not_connected_def
  conn_write_def send_command_no_flush_def flush_def send_command_def read_response_line_def
  is_terminator_def unstuff_def exceeds_def read_multiline_body_into_bounded_def
  read_multiline_body_def read_multiline_body_bounded_def PREFIX_LINE_MAX_def
  read_multiline_body_prefix_def looks_gzipped_def read_multiline_body_maybe_decompress_def
  read_multiline_body_maybe_decompress_bounded_def body_loop.simps prefix_loop.simps

lemmas run_commands [run] =
  mark_error_def finish_def exchange_def wrong_state_def rejected_def unexpected_def
  no_newsgroup_def fetch_article_def fetch_head_number_def fetch_body_command_def fetch_body_def
  fetch_body_prefix_def stat_article_def ping_def group_command_def

lemmas run_listings [run] =
  read_limited_def get_overview_format_def MAX_RESPONSE_BOUND_def xover_lossless_with_limit_def
  map_result_def xover_lossless_def xover_lossless_bounded_def xover_def xhdr_def
  xpat_with_limit_def xpat_def xpat_bounded_def list_active_def

lemmas run_posting [run] =
  write_chunk_def terminator_def post_chunks_def text_line_chunk_def post_article_def
  byte_line_chunks_def post_article_bytes_def

lemmas run_session [run] =
  addr_of_def fail_error_def dial_def install_transport_def check_welcome_def auth_password_def
  authenticate_def enter_reader_mode_def supports_compress_def
  negotiate_compression_def probe_server_def connect_inner_def quit_def

lemmas run_pipeline [run] =
  pipeline_new_def submit_def in_flight_count_def pending_count_def pipeline_is_empty_def
  pipeline_mid_def flush_sends_def article_outcome_def receive_one_def aborted_def
  process_all_def STAT_BATCH_SIZE_def stat_new_def stat_add_def stat_outcome_def stat_batch_def
  stat_execute_def send_loop.simps process_loop.simps stat_batches.simps

lemmas run_pool [run] =
  IDLE_TIMEOUT_def ACQUIRE_TIMEOUT_def unmanaged_def pool_new_def drop_pooled_def add_permit_def
  healthy_def release_def discard_def wait_for_ramp_up_def elapsed_in_def create_connection_def
  take_permit_def try_idle_def acquire_def idle_count_def close_idle_def

lemmas run_server [run] =
  PENALTY_UNKNOWN_def PENALTY_TIMEOUT_def PENALTY_AUTH_def speed_new_def speed_record_def
  bytes_per_second_def server_new_def is_available_def penalize_def penalty_for_def
  penalize_for_def clear_penalty_def record_success_def record_failure_def failure_ratio_def
  speed_bps_def acquire_connection_def release_connection_def discard_connection_def
  close_idle_connections_def idle_connection_count_def server_wait_for_ramp_up_def

lemmas run_downloader [run] =
  downloader_new_def pause_def resume_def is_paused_def shutdown_def start_round_def
  server_id_of_def pick_server_def after_fetch_error_def attempt_on_def served_def exhausted_def
  download_def wait_while_paused.simps download_loop.simps

lemmas run_mock_server [run] =
  auth_rate_limit_new_def check_and_record_def mock_default_def shared_default_def
  test_config_with_auth_def socket_write_def delay_write_def
  mock_write_def reply_def entry_writes_def reply_lines_def body_writes_def
  write_multiline_body_def take_line_def strip_lf_def arg_def behind_login_def handle_quit_def
  handle_mode_def record_attempt_def handle_pass_def handle_authinfo_def
  keyed_entries_def xover_range_outside_group_def mid_bracket_def arg_mid_def
  bracketed_def pop_sequenced_def article_lookup_def send_article_def mock_dispatch_def mark_hung_def
  mock_command_def read_posted.simps mock_loop.simps

text \<open>The handlers behind the login test run on a state, and their bodies not before it.\<close>

lemmas run_handlers [run] =
  handle_group_def [THEN fun_cong] handle_xover_def [THEN fun_cong] handle_head_def [THEN fun_cong]
  handle_xhdr_def [THEN fun_cong] handle_xpat_def [THEN fun_cong] handle_list_def [THEN fun_cong]
  handle_article_def [THEN fun_cong] handle_body_def [THEN fun_cong] handle_stat_def [THEN fun_cong]
  handle_post_def [THEN fun_cong]

lemma behind_login_run [run_cong]: "s = t \<Longrightarrow> behind_login cfg h s = behind_login cfg h t"
  and article_lookup_run [run_cong]:
    "mid = mid' \<Longrightarrow> s = t \<Longrightarrow> article_lookup cfg mid found s = article_lookup cfg mid' found t"
  by simp_all

declare Let_def [run]

section \<open>Bytes\<close>

lemma char_of_run [run]:
  "char_of (numeral k :: nat) =
     Char (bit (numeral k :: nat) 0) (bit (numeral k :: nat) 1) (bit (numeral k :: nat) 2)
       (bit (numeral k :: nat) 3) (bit (numeral k :: nat) 4) (bit (numeral k :: nat) 5)
       (bit (numeral k :: nat) 6) (bit (numeral k :: nat) 7)"
  by (rule char_of_def)

declare bit_Suc_0_iff [run]

lemma ascii_char: "is_ascii (Char b0 b1 b2 b3 b4 b5 b6 False)"
proof -
  have b: "(of_bool b :: nat) \<le> 1" for b by simp
  show ?thesis
    using b [of b0] b [of b1] b [of b2] b [of b3] b [of b4] b [of b5] b [of b6]
    unfolding is_ascii_def of_char_def by (simp del: of_bool_less_eq_one)
qed

lemma ascii_run [run]:
  "utf8_valid (Char b0 b1 b2 b3 b4 b5 b6 False # r) = utf8_valid r"
  "from_utf8_lossy (Char b0 b1 b2 b3 b4 b5 b6 False # r) = Char b0 b1 b2 b3 b4 b5 b6 False # from_utf8_lossy r"
  by (simp_all add: utf8_step_ascii ascii_char)

lemma splitn_run [run]:
  "splitn 3 d s =
     (case split_once d s of
        None \<Rightarrow> [s]
      | Some (a, r) \<Rightarrow> a # (case split_once d r of None \<Rightarrow> [r] | Some (b, t) \<Rightarrow> [b, t]))"
  by (simp add: numeral_3_eq_3 split: option.split)

lemma repeat_run [run]:
  "replicate (numeral k) x = x # replicate (pred_numeral k) x"
  "f ^^ numeral k = f \<circ> f ^^ pred_numeral k"
  by (simp_all add: numeral_eq_Suc)

section \<open>A client and a mock server\<close>

text \<open>A network behind every address of which the same stream is found.\<close>

definition net_with :: "rx_item list \<Rightarrow> net_env" where
  "net_with r =
     \<lparr>tcp_connect = (\<lambda>_. Inr \<lparr>rx = r, wr = [], tx = [], tls = False\<rparr>),
      socks_connect = (\<lambda>_ _ _. Inl ''no proxy''), server_name_error = (\<lambda>_. None),
      tls_handshake = (\<lambda>_ _ t. Inr t)\<rparr>"

text \<open>
  A mock server, given what the client is going to send.  That the client has sent exactly this is
  part of every test below, so the two sides have talked to one another.
\<close>

definition mock_net :: "mock_config \<Rightarrow> bytes \<Rightarrow> net_env" where
  "mock_net cfg sent =
     net_with (outp (mock_connection to_ascii_uppercase cfg (mock_conn_new shared_default [] 0 sent)))"

declare mock_net_def [run]

text \<open>The capabilities of the server, as it lists them and as the client keeps them.\<close>

definition caps_answer :: "rx_item list" where
  "caps_answer = map RxByte
     (''101 Capability list:'' @ crlf @ ''VERSION 2'' @ crlf @ ''READER'' @ crlf @ ''POST'' @ crlf
      @ ''HDR'' @ crlf @ ''OVER MSGID'' @ crlf @ ''LIST ACTIVE NEWSGROUPS OVERVIEW.FMT'' @ crlf
      @ ''IMPLEMENTATION nzb-nntp-testutil 1.0'' @ crlf @ ''.'' @ crlf)"

definition usual_caps :: nntp_capabilities where
  "usual_caps = caps_default
     \<lparr>version := Some ''2'', implementation := Some ''nzb-nntp-testutil 1.0'', reader := True,
      post := True, hdr := True, over := True, over_msgid := True,
      list_keywords := [''ACTIVE'', ''NEWSGROUPS'', ''OVERVIEW.FMT''], have_body := True,
      have_stat := True, have_article := True, have_head := True, probed := True\<rparr>"

lemma server_lists_caps [run]:
  assumes "\<not> capabilities_unsupported cfg" and "\<not> capabilities_mode_reader cfg"
    and "silent_close_after_bytes cfg = None" and "response_delay cfg = None" and "\<not> hung s" and "peer s = []"
  shows "handle_capabilities cfg s =
    (True, s\<lparr>outp := outp s @ caps_answer, bytes_written := bytes_written s + length caps_answer\<rparr>)"
  using assms by (simp add: run handle_capabilities_def caps_answer_def cong: run_cong)

lemma client_learns_caps [run]:
  "query_capabilities
     \<lparr>server_id = i, state = Ready, transport = Some \<lparr>rx = caps_answer @ r, wr = [], tx = x, tls = b\<rparr>,
      compress_enabled = z, io_heartbeat = None, capabilities = k, body_pool = [], write_timeout = w, now = n\<rparr> =
   (Inr (),
     \<lparr>server_id = i, state = Ready,
      transport = Some \<lparr>rx = r, wr = [], tx = x @ ''CAPABILITIES'' @ crlf, tls = b\<rparr>,
      compress_enabled = z, io_heartbeat = None, capabilities = usual_caps, body_pool = [],
      write_timeout = w, now = n\<rparr>)"
  by (simp add: run query_capabilities_def caps_answer_def usual_caps_def cong: run_cong)

lemma usual_caps_fields [run]:
  "mode_reader_required usual_caps = False" "reader usual_caps = True" "have_body usual_caps = True"
  "have_stat usual_caps = True" "have_article usual_caps = True" "have_head usual_caps = True"
  by (simp_all add: usual_caps_def caps_default_def)

text \<open>The opening of a session: what a client without a login says, and the answers to it.\<close>

definition hello :: bytes where "hello = ''CAPABILITIES'' @ crlf"

definition greeting :: "rx_item list" where
  "greeting = map RxByte (''200 Mock NNTP Ready'' @ crlf) @ caps_answer"

definition usual :: "mock_config \<Rightarrow> bool" where
  "usual cfg \<longleftrightarrow>
     welcome_code cfg = 200 \<and> welcome_message cfg = ''Mock NNTP Ready'' \<and> \<not> auth_required cfg
     \<and> \<not> service_unavailable cfg \<and> \<not> capabilities_unsupported cfg \<and> \<not> capabilities_mode_reader cfg
     \<and> silent_close_after_bytes cfg = None \<and> hang_after_command cfg = None
     \<and> close_after_n_commands cfg = None \<and> response_delay cfg = None"

lemma server_greets:
  assumes "usual cfg"
  shows "mock_connection to_ascii_uppercase cfg (mock_conn_new sh [] t (hello @ s)) =
     mock_loop to_ascii_uppercase cfg
       \<lparr>inp = s, outp = greeting, peer = [], clock = t, bytes_written = length greeting, hung = False,
        authenticated = True, selected_group = None, commands_processed = 1, shared = sh\<rparr>"
  using assms
  by (simp add: run mock_connection_def mock_conn_new_def usual_def hello_def greeting_def
      cong: run_cong split del: if_split)

definition greeted :: "bytes \<Rightarrow> rx_item list \<Rightarrow> nntp_connection" where
  "greeted i r = (new_connection i)
     \<lparr>state := Ready, transport := Some \<lparr>rx = r, wr = [], tx = hello, tls = False\<rparr>,
      capabilities := usual_caps\<rparr>"

lemma client_greeted:
  "connect (net_with (greeting @ r)) None (test_config p) (new_connection i) = (Inr (), greeted i r)"
  by (simp add: run connect_def net_with_def test_config_def new_connection_def hello_def greeting_def
      greeted_def cong: run_cong)

lemma greeted_fields [run]:
  "state (greeted i r) = Ready" "transport (greeted i r) = Some \<lparr>rx = r, wr = [], tx = hello, tls = False\<rparr>"
  "server_id (greeted i r) = i" "compress_enabled (greeted i r) = False" "io_heartbeat (greeted i r) = None"
  "have_body (capabilities (greeted i r)) = True" "have_stat (capabilities (greeted i r)) = True"
  "have_article (capabilities (greeted i r)) = True" "have_head (capabilities (greeted i r)) = True"
  "body_pool (greeted i r) = []" "write_timeout (greeted i r) = WRITE_TIMEOUT" "now (greeted i r) = 0"
  by (simp_all add: greeted_def usual_caps_def caps_default_def new_connection_def)

declare server_greets [run] client_greeted [run] usual_def [run]

text \<open>The same when nothing follows.\<close>

lemmas nothing_follows [run] =
  client_learns_caps [where r = "[]", unfolded append_Nil2]
  server_greets [where s = "[]", unfolded append_Nil2]
  client_greeted [where r = "[]", unfolded append_Nil2]

section \<open>Tests\<close>

text \<open>
  A test of a connection: connect to the mock server, run the body, whose \<open>unwrap\<close>s must succeed, and
  look at its assertions.  As long as the connection is there, it must have sent just what the server
  was given.
\<close>

definition talks ::
  "mock_config \<Rightarrow> server_config \<Rightarrow> bytes \<Rightarrow> (nntp_connection \<Rightarrow> bool nntp_result \<times> nntp_connection) \<Rightarrow> bool" where
  "talks cfg sc sent body \<longleftrightarrow>
     (case rbind (connect (mock_net cfg sent) None sc (new_connection ''test'')) (\<lambda>_. body) of
        (Inl _, _) \<Rightarrow> False
      | (Inr passed, c) \<Rightarrow> passed \<and> (case transport c of None \<Rightarrow> True | Some t \<Rightarrow> tx t = sent))"

definition passes ::
  "mock_config \<Rightarrow> bytes list \<Rightarrow> (nntp_connection \<Rightarrow> bool nntp_result \<times> nntp_connection) \<Rightarrow> bool" where
  "passes cfg cmds body \<longleftrightarrow> talks cfg (test_config 119) (hello @ crlf_lines cmds) body"

text \<open>The assertions at the end, an assertion on the way, and the assertion that a call fails.\<close>

definition check :: "bool \<Rightarrow> nntp_connection \<Rightarrow> bool nntp_result \<times> nntp_connection" where
  "check b c = (Inr b, c)"

definition check_first ::
  "bool \<Rightarrow> bool nntp_result \<times> nntp_connection \<Rightarrow> bool nntp_result \<times> nntp_connection" where
  "check_first b p = (if b then p else (Inr False, snd p))"

definition fails_with ::
  "'a nntp_result \<times> nntp_connection \<Rightarrow> (nntp_error \<Rightarrow> bool) \<Rightarrow> unit nntp_result \<times> nntp_connection" where
  "fails_with p P =
     (case p of (Inl e, c) \<Rightarrow> if P e then (Inr (), c) else (Inl e, c)
      | (Inr _, c) \<Rightarrow> (Inl (Protocol ''expected an error''), c))"

lemma fails_with_run [run_cong]: "p = q \<Longrightarrow> fails_with p P = fails_with q P"
  and check_first_run [run_cong]: "b = d \<Longrightarrow> check_first b r = check_first d r"
  by simp_all

declare talks_def [run] passes_def [run] check_def [run] check_first_def [run] fails_with_def [run]

end
