(* ===== verification/Timeout_Laws.thy ===== *)
theory Timeout_Laws
  imports Downloader_Laws Runs
begin

text \<open>
  The penalty of a server whose connection timed out: the error texts the connection itself builds
  for a read, a body read and a write that timed out, and what the downloader makes of them.
\<close>

section \<open>The texts of the connection's timeouts\<close>

inductive own_timeout :: "bytes \<Rightarrow> bool" where
  line: "own_timeout (''read_response_line timed out after '' @ show_nat n @ ''s'')"
| body: "own_timeout (''read_multiline_body timed out after '' @ show_nat n @ ''s (received ''
           @ show_nat k @ '' bytes so far)'')"
| writing: "own_timeout (''write timed out after '' @ show_nat n @ ''s'')"

text \<open>A network that reports no timeout of its own.\<close>

definition quiet_rx :: "rx_item list \<Rightarrow> bool" where
  "quiet_rx r \<longleftrightarrow> list_all (\<lambda>i. case i of RxErr (IoError k _) \<Rightarrow> k \<noteq> TimedOut | _ \<Rightarrow> True) r"

definition quiet_wr :: "wr_item list \<Rightarrow> bool" where
  "quiet_wr ws \<longleftrightarrow> list_all (\<lambda>i. case i of WrErr (IoError k _) \<Rightarrow> k \<noteq> TimedOut | _ \<Rightarrow> True) ws"

definition quiet :: "nntp_connection \<Rightarrow> bool" where
  "quiet c \<longleftrightarrow> (case transport c of None \<Rightarrow> True | Some t \<Rightarrow> quiet_rx (rx t) \<and> quiet_wr (wr t))"

lemma quiet_simps [simp]:
  "quiet_rx []" "quiet_rx (RxByte b # r) = quiet_rx r" "quiet_rx (RxWait d # r) = quiet_rx r"
  "quiet_rx (RxErr (IoError k m) # r) = (k \<noteq> TimedOut \<and> quiet_rx r)"
  "quiet_wr []" "quiet_wr (WrOk # ws) = quiet_wr ws" "quiet_wr (WrStall # ws) = quiet_wr ws"
  "quiet_wr (WrErr (IoError k m) # ws) = (k \<noteq> TimedOut \<and> quiet_wr ws)"
  "quiet (c\<lparr>state := s\<rparr>) = quiet c"
  by (simp_all add: quiet_rx_def quiet_wr_def quiet_def)

text \<open>A step after which the network is still quiet and whose timeouts are the connection's own.\<close>

definition timely :: "nntp_connection \<Rightarrow> 'a nntp_result \<times> nntp_connection \<Rightarrow> bool" where
  "timely c p \<longleftrightarrow>
     (quiet c \<longrightarrow> quiet (snd p) \<and> (\<forall>m. fst p = Inl (Io (IoError TimedOut m)) \<longrightarrow> own_timeout m))"

named_theorems timely_intro \<open>rules for the timeouts of a step\<close>

lemma timely_bind [timely_intro]:
  assumes "timely c p" and "\<And>a c'. timely c' (k a c')"
  shows "timely c (rbind p k)"
proof (cases p)
  case (Pair r c')
  with assms show ?thesis by (cases r) (auto simp: timely_def)
qed

lemma timely_mark [timely_intro]: "timely c p \<Longrightarrow> timely c (mark_error p)"
  by (auto simp: timely_def mark_error_def split: prod.splits sum.splits)

lemma timely_if [timely_intro]: "timely c p \<Longrightarrow> timely c q \<Longrightarrow> timely c (if b then p else q)"
  by simp

lemma timely_finish [timely_intro]:
  "timely c (finish s (Inr a) c)" "(\<And>x. e \<noteq> Io x) \<Longrightarrow> timely c (finish s (Inl e) c)"
  "timely c (Inr a, c)" "(\<And>x. e \<noteq> Io x) \<Longrightarrow> timely c (Inl e, c)"
  by (simp_all add: timely_def finish_def)

lemma raw_write_quiet:
  assumes "quiet_wr (wr t)" and "raw_write limit d t = (r, t')"
  shows "quiet_wr (wr t') \<and> rx t' = rx t \<and> (\<forall>m. r = Inl (IoError TimedOut m) \<longrightarrow> own_timeout m)"
proof (cases "wr t")
  case (Cons x ws)
  with assms own_timeout.writing [of "limit div 1000"] show ?thesis
    by (cases x) (auto simp: raw_write_def next_write_def with_write_timeout_def quiet_wr_def split: if_splits)
qed (use assms in \<open>auto simp: raw_write_def next_write_def with_write_timeout_def\<close>)

lemma timely_write [timely_intro]: "timely c (conn_write (\<lambda>n. raw_write n d) c)"
proof (cases "transport c")
  case (Some t)
  obtain r t' where w: "raw_write (write_timeout c) d t = (r, t')" by force
  with Some raw_write_quiet [OF _ w] show ?thesis
    by (cases r) (auto simp: timely_def conn_write_def quiet_def)
qed (simp add: timely_def conn_write_def not_connected_def)

lemma read_until_quiet:
  "read_until limit w r = (out, r', w') \<Longrightarrow> quiet_rx r \<Longrightarrow>
     quiet_rx r' \<and> (\<forall>m. out \<noteq> ReadErr (IoError TimedOut m))"
proof (induction limit w r arbitrary: out r' w' rule: read_until.induct)
  case (4 limit w e r)
  then show ?case by (cases e) auto
qed (auto split: if_splits prod.splits read_outcome.splits)

lemma timely_read [timely_intro]: "timely c (read_response_line c)"
proof (cases "transport c")
  case (Some t)
  obtain out r' w where u: "read_until READ_LINE_TIMEOUT 0 (rx t) = (out, r', w)" by (metis surj_pair)
  have p: "parse_response_line l \<noteq> Inl (Io e)" for l e
    by (auto simp: parse_response_line_def Let_def split: option.splits)
  from Some u read_until_quiet [OF u] p own_timeout.line [of "READ_LINE_TIMEOUT div 1000"] show ?thesis
    by (auto simp: timely_def read_response_line_def quiet_def tick_io_heartbeat_def Let_def
        split: read_outcome.split)
qed (simp add: timely_def read_response_line_def not_connected_def)

lemma body_loop_quiet:
  "body_loop mx out r t hb = (res, r', t', hb') \<Longrightarrow> quiet_rx r \<Longrightarrow>
     quiet_rx r' \<and> (\<forall>m. res = Inl (Io (IoError TimedOut m)) \<longrightarrow> own_timeout m)"
proof (induction mx out r t hb rule: body_loop.induct)
  case (1 mx out r t hb)
  obtain o1 r1 w where u: "read_until READ_BODY_LINE_TIMEOUT 0 r = (o1, r1, w)" by (metis surj_pair)
  note q = read_until_quiet [OF u 1(3)]
  show ?case
  proof (cases o1)
    case (ReadOk l)
    with 1 u q show ?thesis by (auto simp: body_loop.simps [of mx out r] split: if_splits)
  next
    case ReadTimeout
    with 1(2) u q own_timeout.body [of "READ_BODY_LINE_TIMEOUT div 1000" "length out"] show ?thesis by (auto simp: body_loop.simps [of mx out r])
  next
    case (ReadErr e)
    with 1(2) u q show ?thesis by (auto simp: body_loop.simps [of mx out r])
  qed
qed

lemma timely_body [timely_intro]: "timely c (read_multiline_body c)"
proof -
  obtain b c1 where c1: "checkout_body_buffer c = (b, c1)" by force
  then have t: "transport c1 = transport c" by (auto simp: checkout_body_buffer_def split: list.splits)
  show ?thesis
  proof (cases "transport c")
    case (Some tr)
    obtain res r' t' hb' where l: "body_loop None [] (rx tr) (now c1) (io_heartbeat c1) = (res, r', t', hb')"
      by (metis surj_pair)
    from Some t c1 l body_loop_quiet [OF l] show ?thesis
      by (auto simp: timely_def read_multiline_body_def read_multiline_body_into_bounded_def quiet_def)
  qed (use c1 t in \<open>simp add: timely_def read_multiline_body_def read_multiline_body_into_bounded_def
      quiet_def not_connected_def\<close>)
qed

lemma timely_exchange [timely_intro]: "timely c (exchange cmd c)"
  unfolding exchange_def send_command_def send_command_no_flush_def flush_def
  by (intro timely_intro)

lemma timely_exchange_busy [timely_intro]: "timely c (exchange cmd (c\<lparr>state := s\<rparr>))"
  using timely_exchange [of "c\<lparr>state := s\<rparr>" cmd] by (simp add: timely_def)

lemma timely_fetch: "timely c (fetch_article gz mid c)"
proof -
  have d: "timely c (read_multiline_body_maybe_decompress gz c)" for c
    unfolding read_multiline_body_maybe_decompress_def
    by (auto intro!: timely_intro split: prod.split option.split)
  show ?thesis
    unfolding fetch_article_def Let_def
    by (intro timely_intro d; simp add: wrong_state_def rejected_def unexpected_article_response_def)
qed

section \<open>What the search for a cause finds in them\<close>

lemma contains_skip:
  assumes "d \<notin> set p" and "p \<noteq> []"
  shows "contains p (x @ d # y) \<longleftrightarrow> contains p x \<or> contains p y"
proof (induction x)
  case Nil
  with assms show ?case by (cases p) (auto simp: starts_with_def)
next
  case (Cons a x)
  have "starts_with p (a # x @ d # y) \<longleftrightarrow> starts_with p (a # x)"
  proof
    assume "starts_with p (a # x @ d # y)"
    then obtain s where s: "(a # x) @ d # y = p @ s" by (auto simp: starts_with_iff)
    with assms(1) show "starts_with p (a # x)"
      by (auto simp: append_eq_append_conv2 starts_with_iff Cons_eq_append_conv)
  qed (metis append.assoc append_Cons starts_with_iff)
  with Cons show ?case by simp
qed

lemma contains_show_nat:
  assumes "list_all (\<lambda>b. \<not> is_digit b) p" and "p \<noteq> []"
  shows "contains p (x @ show_nat n @ y) \<longleftrightarrow> contains p x \<or> contains p y"
proof -
  have "contains p (x @ ds @ y) \<longleftrightarrow> contains p x \<or> contains p y" if "list_all is_digit ds" "ds \<noteq> []" for ds x
    using that
  proof (induction ds arbitrary: x)
    case (Cons d ds)
    then have "d \<notin> set p" using assms(1) by (auto simp: list_all_iff)
    from contains_skip [OF this assms(2), of x "ds @ y"] Cons.prems Cons.IH [of "[]"] assms(2) show ?case
      by (cases "ds = []") auto
  qed simp
  with show_nat_digits [of n] show ?thesis by blast
qed

definition causes :: "bytes list" where
  "causes = [''auth'', ''Auth'', ''timeout'', ''Timeout'']"

definition no_cause :: "bytes \<Rightarrow> bool" where
  "no_cause x \<longleftrightarrow> list_all (\<lambda>p. \<not> contains p x) causes"

lemma no_cause_show_nat: "no_cause (x @ show_nat n @ y) \<longleftrightarrow> no_cause x \<and> no_cause y"
proof -
  have "list_all (\<lambda>p. list_all (\<lambda>b. \<not> is_digit b) p \<and> p \<noteq> []) causes"
    by (simp add: causes_def is_digit_def)
  then show ?thesis
    unfolding no_cause_def by (auto simp: list_all_iff contains_show_nat)
qed

lemma no_cause_texts:
  "no_cause (''I/O error: '' @ ''read_response_line timed out after '')" "no_cause ''s''"
  "no_cause (''I/O error: '' @ ''read_multiline_body timed out after '')" "no_cause ''s (received ''"
  "no_cause '' bytes so far)''" "no_cause (''I/O error: '' @ ''write timed out after '')"
  by code_simp+

lemma own_timeout_no_cause: "own_timeout m \<Longrightarrow> no_cause (''I/O error: '' @ m)"
proof (induction rule: own_timeout.induct)
  case (line n)
  show ?case using no_cause_texts(1,2)
    no_cause_show_nat [of "''I/O error: '' @ ''read_response_line timed out after ''" n "''s''"]
    by (simp only: append.assoc)
next
  case (body n k)
  show ?case using no_cause_texts(3-5) no_cause_show_nat [of "''s (received ''" k "'' bytes so far)''"]
    no_cause_show_nat [of "''I/O error: '' @ ''read_multiline_body timed out after ''" n
      "''s (received '' @ show_nat k @ '' bytes so far)''"]
    by (simp only: append.assoc)
next
  case (writing n)
  show ?case using no_cause_texts(2,6)
    no_cause_show_nat [of "''I/O error: '' @ ''write timed out after ''" n "''s''"]
    by (simp only: append.assoc)
qed

lemma own_timeout_unknown:
  "own_timeout m \<Longrightarrow> penalty_for (error_to_string (Io (IoError TimedOut m))) = PENALTY_UNKNOWN"
  using own_timeout_no_cause [of m] by (simp add: penalty_for_def no_cause_def causes_def)

lemma pool_timeout_known: "penalty_for (error_to_string (Timeout m)) = PENALTY_TIMEOUT"
  by (simp add: penalty_for_def starts_with_def PENALTY_AUTH_def PENALTY_TIMEOUT_def)

section \<open>The property\<close>

text \<open>
  C40: A read or write that times out is punished as an unknown error.  When a download attempt fetches
  an article from a server whose network reports no timeout of its own and the fetch fails with a
  \<open>TimedOut\<close> I/O error, in the status line, anywhere in the body, or on a write, the server is
  set aside for three minutes, whatever limit and number of bytes the message shows: it says
  \<open>timed out\<close>, which the search for \<open>timeout\<close> in the error text does not find.  When instead the
  pool reports \<open>Timeout\<close>, with any message, the server is set aside for ten minutes.
\<close>

theorem read_timeout_is_unknown:
  assumes "attempt_on gz env mid s t = (x, s', t')"
  shows "(\<forall>pc p t1 m c'. acquire env (srv_pool s) t = (Inr pc, p, t1) \<and> quiet (pc_conn pc)
            \<and> fetch_article gz mid (pc_conn pc) = (Inl (Io (IoError TimedOut m)), c')
          \<longrightarrow> penalty_until s' = Some (t' + 3 * 60 * 1000))
    \<and> (\<forall>m p t1. acquire env (srv_pool s) t = (Inl (Timeout m), p, t1)
          \<longrightarrow> penalty_until s' = Some (t' + 10 * 60 * 1000))"
proof (intro conjI allI impI)
  fix pc p t1 m c'
  assume "acquire env (srv_pool s) t = (Inr pc, p, t1) \<and> quiet (pc_conn pc)
      \<and> fetch_article gz mid (pc_conn pc) = (Inl (Io (IoError TimedOut m)), c')"
  then have a: "acquire env (srv_pool s) t = (Inr pc, p, t1)" and q: "quiet (pc_conn pc)"
    and f: "fetch_article gz mid (pc_conn pc) = (Inl (Io (IoError TimedOut m)), c')"
    by blast+
  from timely_fetch [of "pc_conn pc" gz mid] q f have "own_timeout m" by (simp add: timely_def)
  note own_timeout_unknown [OF this]
  with assms a f show "penalty_until s' = Some (t' + 3 * 60 * 1000)"
    by (auto simp: attempt_on_def Let_def after_fetch_error_def discard_connection_def penalize_for_def
        penalize_def PENALTY_UNKNOWN_def)
next
  fix m p t1
  assume a: "acquire env (srv_pool s) t = (Inl (Timeout m), p, t1)"
  with assms pool_timeout_known [of m] show "penalty_until s' = Some (t' + 10 * 60 * 1000)"
    by (auto simp: attempt_on_def penalize_for_def penalize_def PENALTY_TIMEOUT_def)
qed

text \<open>A server whose parked connection falls silent: at once, or inside the body.\<close>

definition silent_server :: "rx_item list \<Rightarrow> server_state" where
  "silent_server r =
     (server_new plain_config 0)\<lparr>srv_pool := (pool_new plain_config 0)\<lparr>idle :=
        [\<lparr>pc_conn = sample_connection r, last_used = 0, armed = False\<rparr>]\<rparr>\<rparr>"

lemma silent_acquire:
  "acquire sample_env (srv_pool (silent_server r)) 0
     = (Inr \<lparr>pc_conn = sample_connection r, last_used = 0, armed = True\<rparr>,
        (pool_new plain_config 0)\<lparr>permits := 7\<rparr>, 0)"
proof -
  have "connections plain_config = 8"
    by (simp add: plain_config_def new_config_def default_config_def default_connections_def)
  then show ?thesis
    by (simp add: silent_server_def acquire_def take_permit_def try_idle_def healthy_def is_connected_def
        IDLE_TIMEOUT_def sample_connection_def sample_transport_def pool_new_def)
qed

definition silent_body :: "rx_item list" where
  "silent_body = map RxByte (''220 0'' @ crlf @ ''abc'' @ crlf @ ''d'') @ [RxWait 30000]"

lemma silent_fetches:
  "fst (fetch_article gz ''a'' (sample_connection [RxWait 60000]))
     = Inl (Io (IoError TimedOut ''read_response_line timed out after 60s''))"
  "fst (fetch_article gz ''a'' (sample_connection silent_body))
     = Inl (Io (IoError TimedOut ''read_multiline_body timed out after 20s (received 5 bytes so far)''))"
  by (simp add: run silent_body_def sample_connection_def sample_transport_def new_connection_def cong: run_cong)+

lemma read_timeout_is_unknown_witness:
  "(\<exists>x s' t'. attempt_on sample_gunzip sample_env ''a'' (silent_server [RxWait 60000]) 0 = (x, s', t')
     \<and> penalty_until s' = Some (t' + 3 * 60 * 1000))
   \<and> (\<exists>x s' t'. attempt_on sample_gunzip sample_env ''a'' (silent_server silent_body) 0 = (x, s', t')
     \<and> penalty_until s' = Some (t' + 3 * 60 * 1000))"
proof -
  have "\<exists>x s' t'. attempt_on sample_gunzip sample_env ''a'' (silent_server r) 0 = (x, s', t')
      \<and> penalty_until s' = Some (t' + 3 * 60 * 1000)"
    if f: "fst (fetch_article sample_gunzip ''a'' (sample_connection r)) = Inl (Io (IoError TimedOut m))"
      and q: "quiet_rx r" for r m
  proof -
    obtain x s' t' where a: "attempt_on sample_gunzip sample_env ''a'' (silent_server r) 0 = (x, s', t')"
      by (metis surj_pair)
    obtain c' where "fetch_article sample_gunzip ''a'' (sample_connection r) = (Inl (Io (IoError TimedOut m)), c')"
      using f by (metis prod.collapse)
    moreover have "quiet (sample_connection r)"
      using q by (simp add: quiet_def sample_connection_def sample_transport_def)
    ultimately show ?thesis
      using read_timeout_is_unknown [OF a] silent_acquire [of r] a by fastforce
  qed
  from this [OF silent_fetches(1)] this [OF silent_fetches(2)] show ?thesis
    by (simp add: silent_body_def)
qed

end
