(* ===== verification/Mock_Laws.thy ===== *)
theory Mock_Laws
  imports Mock_Server Protocol_Properties
begin

text \<open>
  The mock server on its own: what a run without faults writes, what its faults do, and the login
  that guards every command behind it.
\<close>

section \<open>Every run of the handler\<close>

context mock_invariant
begin

lemma kept_loop: "P s \<Longrightarrow> P (mock_loop upper cfg s)"
proof (induction "length (inp s)" arbitrary: s rule: less_induct)
  case less
  show ?case
  proof (cases "inp s = []")
    case False
    obtain l r where t: "take_line (inp s) = (l, r)" by force
    let ?s = "s\<lparr>inp := r\<rparr>"
    have r: "length r < length (inp s)" using take_line_shorter [OF t False] .
    then have p: "P ?s" using less(2) by (simp add: kept_input)
    obtain ok s' where c: "mock_command upper cfg (trim l) ?s = (ok, s')" by force
    have "P s'" "length (inp s') < length (inp s)"
      using kept_command [OF p, of upper "trim l"] unread.kept_command [of ?s "length r" upper cfg "trim l"] c r
      by auto
    with less(1) [of ?s] less(1) [of s'] p r t c False show ?thesis
      by (simp add: mock_loop.simps [of upper cfg s] Let_def)
  qed (use less in \<open>simp add: mock_loop.simps\<close>)
qed

lemma kept_connection:
  assumes "P s" and "\<not> service_unavailable cfg"
  shows "P (mock_connection upper cfg s)"
proof -
  obtain ok s' where r: "reply cfg (show_nat (welcome_code cfg) @ '' '' @ welcome_message cfg) s = (ok, s')"
    by force
  with kept_reply(1) [OF assms(1), of "show_nat (welcome_code cfg) @ '' '' @ welcome_message cfg"]
  have "P s'" by simp
  then have "P (s'\<lparr>authenticated := \<not> auth_required cfg, selected_group := None, commands_processed := 0\<rparr>)"
    by (intro kept_count kept_group kept_login)
  with \<open>P s'\<close> show ?thesis
    unfolding mock_connection_def r using assms(2) by (simp add: kept_loop)
qed

end

section \<open>The byte limit\<close>

definition within :: "nat \<Rightarrow> mock_conn \<Rightarrow> bool" where
  "within n s \<longleftrightarrow> length (item_bytes (outp s)) \<le> bytes_written s \<and> bytes_written s \<le> n"

lemma socket_write_length:
  "socket_write d s = (ok, s') \<Longrightarrow>
     bytes_written s' = bytes_written s \<and> length (item_bytes (outp s')) \<le> length (item_bytes (outp s)) + (if ok then length d else 0)"
  by (auto simp: socket_write_def split: list.splits if_splits)

lemma delay_write_length [simp]:
  "bytes_written (delay_write cfg s) = bytes_written s" "item_bytes (outp (delay_write cfg s)) = item_bytes (outp s)"
  by (simp_all add: delay_write_def split: option.split)

lemma within_write:
  assumes "silent_close_after_bytes cfg = Some n" and "within n s"
  shows "within n (snd (mock_write cfg d s))"
proof -
  let ?s = "delay_write cfg s"
  obtain ok s1 where 1: "socket_write d ?s = (ok, s1)" by force
  obtain ok' s2 where 2: "socket_write (take (n - bytes_written ?s) d) ?s = (ok', s2)" by force
  show ?thesis
    using assms socket_write_length [OF 1] socket_write_length [OF 2] 1 2
    by (auto simp: mock_write_def Let_def within_def split: if_splits)
qed

interpretation limited: mock_invariant "cfg\<lparr>silent_close_after_bytes := Some n\<rparr>" "within n" for cfg n
  by unfold_locales (simp_all add: within_write, simp_all add: within_def)

text \<open>
  With \<open>silent_close_after_bytes\<close> set, a connection never writes more than that many bytes,
  whatever the client sends and whichever writes the socket refuses.
\<close>

theorem silent_close_bound:
  assumes "silent_close_after_bytes cfg = Some n" and "\<not> service_unavailable cfg"
  shows "length (item_bytes (outp (mock_connection upper cfg (mock_conn_new sh ok t sent)))) \<le> n"
proof -
  have "within n (mock_conn_new sh ok t sent)" by (simp add: within_def mock_conn_new_def)
  moreover have "cfg\<lparr>silent_close_after_bytes := Some n\<rparr> = cfg" using assms(1) by simp
  ultimately have "within n (mock_connection upper cfg (mock_conn_new sh ok t sent))"
    using limited.kept_connection [of n "mock_conn_new sh ok t sent" cfg upper] assms(2) by simp
  then show ?thesis by (simp add: within_def)
qed

lemma silent_close_bound_witness:
  "length (item_bytes (outp (mock_connection to_ascii_uppercase
      (mock_default\<lparr>silent_close_after_bytes := Some 5\<rparr>)
      (mock_conn_new shared_default [] 0 (''QUIT'' @ crlf))))) \<le> 5"
  by (rule silent_close_bound) (simp_all add: mock_default_def)

section \<open>The hang\<close>

definition silent_at :: "rx_item list \<Rightarrow> mock_conn \<Rightarrow> bool" where
  "silent_at o0 s \<longleftrightarrow> hung s \<and> outp s = o0"

interpretation hanging: mock_invariant cfg "silent_at o0" for cfg o0
  by unfold_locales (simp_all add: silent_at_def mock_write_def)

section \<open>Runs without faults\<close>

definition sound_run :: "mock_config \<Rightarrow> mock_conn \<Rightarrow> bool" where
  "sound_run cfg s \<longleftrightarrow>
     silent_close_after_bytes cfg = None \<and> hang_after_command cfg = None
     \<and> close_after_n_commands cfg = None \<and> peer s = [] \<and> \<not> hung s"

definition pause_before :: "mock_config \<Rightarrow> rx_item list" where
  "pause_before cfg = (case response_delay cfg of None \<Rightarrow> [] | Some d \<Rightarrow> [RxWait d])"

definition delay_of :: "mock_config \<Rightarrow> nat" where
  "delay_of cfg = (case response_delay cfg of None \<Rightarrow> 0 | Some d \<Rightarrow> d)"

text \<open>What a sequence of writes looks like to the client.\<close>

definition emit :: "mock_config \<Rightarrow> bytes list \<Rightarrow> rx_item list" where
  "emit cfg ws = concat (map (\<lambda>w. pause_before cfg @ map RxByte w) ws)"

lemma emit_simps [simp]:
  "emit cfg [] = []" "emit cfg (w # ws) = pause_before cfg @ map RxByte w @ emit cfg ws"
  "emit cfg (ws @ vs) = emit cfg ws @ emit cfg vs"
  by (simp_all add: emit_def)

definition wrote :: "mock_config \<Rightarrow> bytes list \<Rightarrow> mock_conn \<Rightarrow> mock_conn" where
  "wrote cfg ws s =
     s\<lparr>outp := outp s @ emit cfg ws, bytes_written := bytes_written s + length (concat ws),
       clock := clock s + delay_of cfg * length ws\<rparr>"

lemma wrote_simps [simp]:
  "inp (wrote cfg ws s) = inp s" "outp (wrote cfg ws s) = outp s @ emit cfg ws"
  "shared (wrote cfg ws s) = shared s" "authenticated (wrote cfg ws s) = authenticated s"
  "selected_group (wrote cfg ws s) = selected_group s" "sound_run cfg (wrote cfg' ws s) = sound_run cfg s"
  by (simp_all add: wrote_def sound_run_def)

lemma wrote_Nil [simp]: "wrote cfg [] s = s"
  by (simp add: wrote_def)

lemma wrote_append [simp]: "wrote cfg vs (wrote cfg ws s) = wrote cfg (ws @ vs) s"
  by (simp add: wrote_def ac_simps distrib_left)

lemma mock_write_sound: "sound_run cfg s \<Longrightarrow> mock_write cfg d s = (True, wrote cfg [d] s)"
  by (simp add: mock_write_def sound_run_def delay_write_def socket_write_def wrote_def
      pause_before_def delay_of_def split: option.split)

lemma mwrites_sound: "sound_run cfg s \<Longrightarrow> mwrites cfg ds s = (True, wrote cfg ds s)"
  by (induction ds arbitrary: s) (simp_all add: mock_write_sound)

lemma reply_sound:
  "sound_run cfg s \<Longrightarrow> reply cfg l s = (True, wrote cfg [l @ crlf] s)"
  "sound_run cfg s \<Longrightarrow>
     reply_lines cfg l es s = (True, wrote cfg ([l @ crlf] @ entry_writes es @ [terminator]) s)"
  by (simp_all add: reply_def reply_lines_def mwrites_sound del: mwrites.simps)

lemma mock_command_sound:
  assumes "sound_run cfg s"
    and "mock_dispatch upper cfg (upper (arg (splitn 3 (CHR '' '') l) 0)) (splitn 3 (CHR '' '') l) s = (True, s')"
  shows "mock_command upper cfg l s = (True, s'\<lparr>commands_processed := commands_processed s' + 1\<rparr>)"
  using assms by (simp add: mock_command_def mark_hung_def sound_run_def)

section \<open>The login\<close>

text \<open>
  Before the login no command gives anything away: without faults, each of the commands behind
  it is answered by one 480 line, and nothing else of the connection changes.
\<close>

theorem login_required:
  assumes "\<not> authenticated s" and "sound_run cfg s"
    and "cmd \<in> {''GROUP'', ''XOVER'', ''HEAD'', ''XHDR'', ''XPAT'', ''LIST'', ''ARTICLE'', ''BODY'', ''STAT'', ''POST''}"
  shows "mock_dispatch upper cfg cmd parts s = (True, wrote cfg [''480 Authentication required'' @ crlf] s)"
proof -
  have b: "behind_login cfg h s = (True, wrote cfg [''480 Authentication required'' @ crlf] s)" for h
    using assms(1) reply_sound(1) [OF assms(2)] by (simp add: behind_login_def)
  show ?thesis
    using assms(3)
    by (auto simp: mock_dispatch_def handle_group_def handle_xover_def handle_head_def handle_xhdr_def
        handle_xpat_def handle_list_def handle_article_def handle_body_def handle_stat_def handle_post_def b)
qed

lemma login_required_witness:
  "mock_dispatch to_ascii_uppercase mock_default ''BODY'' [] (mock_conn_new shared_default [] 0 [])
     = (True, wrote mock_default [''480 Authentication required'' @ crlf] (mock_conn_new shared_default [] 0 []))"
  by (rule login_required) (simp_all add: mock_conn_new_def sound_run_def mock_default_def)

end
