(* ===== verification/Mock_Answers.thy ===== *)
theory Mock_Answers
  imports Mock_Laws Wire_Laws
begin

text \<open>
  A conversation with the mock server: the lines a client sends, the writes that answer each, and
  the form in which they arrive.  The server may be slow, as long as it stays below the client's
  time limits.
\<close>

section \<open>A line from the client\<close>

text \<open>\<open>str::to_uppercase\<close> on ASCII strings.\<close>

definition ascii_case :: "(bytes \<Rightarrow> bytes) \<Rightarrow> bool" where
  "ascii_case upper \<longleftrightarrow> (\<forall>w. list_all is_ascii w \<longrightarrow> upper w = to_ascii_uppercase w)"

lemma ascii_case_refl: "ascii_case to_ascii_uppercase"
  by (simp add: ascii_case_def)

text \<open>A command line as the server sees it: one line, valid, without whitespace at its ends.\<close>

definition tidy :: "bytes \<Rightarrow> bool" where
  "tidy l \<longleftrightarrow> l \<noteq> [] \<and> LF \<notin> set l \<and> utf8_valid l \<and> \<not> ws_lead (hd l) \<and> \<not> ws_trail (last l)"

lemma take_line_crlf: "LF \<notin> set l \<Longrightarrow> take_line (l @ CR # LF # r) = (l @ crlf, r)"
proof -
  assume "LF \<notin> set l"
  then have l: "LF \<notin> set (l @ [CR])" by simp
  then show ?thesis
    using takeWhile_LF [OF l, of r] dropWhile_LF [OF l, of r] by (simp add: take_line_def)
qed

lemma trim_start_no_lead: "a # s = x \<Longrightarrow> \<not> ws_lead a \<Longrightarrow> trim_start x = x"
  using trim_start_id [of x] by auto

lemma trim_end_crlf_ws: "trim_end (s @ crlf) = trim_end s"
proof -
  have "ws_len_rev (c # t) = 1" if "c = CR \<or> c = LF" for c t
    using that by (cases "c # t" rule: ws_len_rev.cases) (auto simp: ws1_def)
  then have "trim_start_rev (LF # CR # rev s) = trim_start_rev (rev s)" by simp
  then show ?thesis by (simp add: trim_end_def)
qed

lemma trim_tidy: "tidy l \<Longrightarrow> trim (l @ crlf) = l"
proof -
  assume l: "tidy l"
  then obtain a s where a: "l = a # s" "\<not> ws_lead a" by (cases l) (auto simp: tidy_def)
  have "trim_start (l @ crlf) = l @ crlf" using trim_start_no_lead [of a "s @ crlf" "l @ crlf"] a by simp
  moreover have "trim_end l = l" using l by (intro trim_end_id) (simp add: tidy_def)
  ultimately show ?thesis by (simp add: trim_def trim_end_crlf_ws del: append_Cons)
qed

lemma utf8_valid_crlf: "utf8_valid l \<Longrightarrow> utf8_valid (l @ crlf)"
proof -
  assume "utf8_valid l"
  moreover have "utf8_valid crlf" by (rule utf8_valid_ascii) (simp add: is_ascii_def)
  ultimately show ?thesis by (simp add: utf8_valid_append del: utf8_valid.simps)
qed

lemma mock_loop_line:
  assumes "tidy l" and "inp s = l @ crlf @ rst"
  shows "mock_loop upper cfg s =
    (let (ok, s') = mock_command upper cfg l (s\<lparr>inp := rst\<rparr>) in if ok then mock_loop upper cfg s' else s')"
proof -
  have "take_line (inp s) = (l @ crlf, rst)" "inp s \<noteq> []"
    using assms take_line_crlf [of l rst] by (auto simp: tidy_def)
  then show ?thesis
    using trim_tidy [OF assms(1)] utf8_valid_crlf [of l] assms(1)
    by (subst mock_loop.simps) (simp add: tidy_def del: utf8_valid.simps)
qed

lemma mock_loop_end: "inp s = [] \<Longrightarrow> mock_loop upper cfg s = s"
  by (simp add: mock_loop.simps)

section \<open>A conversation\<close>

text \<open>
  A server that keeps a property \<open>P\<close>, and requests it answers each by a fixed sequence of writes
  without losing that property.
\<close>

definition counted :: "mock_conn \<Rightarrow> mock_conn" where
  "counted s = s\<lparr>commands_processed := commands_processed s + 1\<rparr>"

lemma counted_simps [simp]:
  "inp (counted s) = inp s" "outp (counted s) = outp s" "shared (counted s) = shared s"
  "authenticated (counted s) = authenticated s" "sound_run cfg (counted s) = sound_run cfg s"
  by (simp_all add: counted_def sound_run_def)

locale conversation =
  fixes upper :: "bytes \<Rightarrow> bytes" and cfg :: mock_config and P :: "mock_conn \<Rightarrow> bool"
    and good :: "'q \<Rightarrow> bool" and request :: "'q \<Rightarrow> bytes" and answer :: "'q \<Rightarrow> bytes list"
  assumes request_tidy: "good q \<Longrightarrow> tidy (request q)"
    and answered: "good q \<Longrightarrow> P s \<Longrightarrow>
      mock_command upper cfg (request q) s = (True, counted (wrote cfg (answer q) s))"
    and stays: "P s \<Longrightarrow> P (counted (wrote cfg ws s))" "P s \<Longrightarrow> P (s\<lparr>inp := i\<rparr>)"
begin

definition sent :: "'q list \<Rightarrow> bytes" where
  "sent qs = concat (map (\<lambda>q. request q @ crlf) qs)"

lemma served_step:
  assumes "good q" and "P s" and "inp s = sent (q # qs) @ rst"
  shows "mock_loop upper cfg s = mock_loop upper cfg (counted (wrote cfg (answer q) (s\<lparr>inp := sent qs @ rst\<rparr>)))"
proof -
  have "inp s = request q @ crlf @ sent qs @ rst" using assms(3) by (simp add: sent_def)
  from mock_loop_line [OF request_tidy [OF assms(1)] this]
  show ?thesis using answered [OF assms(1) stays(2) [OF assms(2)]] by simp
qed

lemma served_then:
  "list_all good qs \<Longrightarrow> P s \<Longrightarrow> inp s = sent qs @ rst \<Longrightarrow>
     \<exists>s'. mock_loop upper cfg s = mock_loop upper cfg s' \<and> inp s' = rst
       \<and> outp s' = outp s @ emit cfg (concat (map answer qs)) \<and> P s'
       \<and> shared s' = shared s \<and> authenticated s' = authenticated s"
proof (induction qs arbitrary: s)
  case Nil
  then show ?case by (intro exI [of _ s]) (simp add: sent_def)
next
  case (Cons q qs)
  let ?s = "counted (wrote cfg (answer q) (s\<lparr>inp := sent qs @ rst\<rparr>))"
  have "P ?s" using Cons.prems(2) by (simp add: stays)
  with Cons.IH [of ?s] Cons.prems show ?case using served_step [of q s qs rst] by auto
qed

lemma served:
  "list_all good qs \<Longrightarrow> P s \<Longrightarrow> inp s = sent qs \<Longrightarrow>
     outp (mock_loop upper cfg s) = outp s @ emit cfg (concat (map answer qs))"
  using served_then [of qs s "[]"] by (auto simp: mock_loop_end)

end

section \<open>Asking for articles\<close>

text \<open>An id that the wire can carry.\<close>

definition clean_id :: "bytes \<Rightarrow> bool" where
  "clean_id x \<longleftrightarrow> x \<noteq> [] \<and> utf8_valid x \<and> (\<forall>b \<in> set x. b \<noteq> CHR '' '' \<and> b \<noteq> LF \<and> \<not> mid_bracket b)"

definition in_angles :: "bytes \<Rightarrow> bytes" where
  "in_angles x = ''<'' @ x @ ''>''"

text \<open>A server without scripted answers for ids, behind the login.\<close>

definition plain_server :: "mock_config \<Rightarrow> mock_conn \<Rightarrow> bool" where
  "plain_server cfg s \<longleftrightarrow>
     sound_run cfg s \<and> authenticated s \<and> article_response_overrides cfg = []
     \<and> article_response_sequences (shared s) = None"

text \<open>What it writes for an id, given the status code of a hit and the writes that follow its line.\<close>

definition lookup_writes :: "mock_config \<Rightarrow> bytes \<Rightarrow> (bytes \<Rightarrow> bytes list) \<Rightarrow> bytes \<Rightarrow> bytes list" where
  "lookup_writes cfg status rest x =
     (case map_of (articles cfg) x of
        Some d \<Rightarrow> [status @ '' 0 '' @ in_angles x @ crlf] @ rest d
      | None \<Rightarrow> [''430 No article: '' @ in_angles x @ crlf])"

lemma split_once_at: "d \<notin> set a \<Longrightarrow> split_once d (a @ d # s) = Some (a, s)"
  by (induction a) auto

lemma split_once_none: "d \<notin> set a \<Longrightarrow> split_once d a = None"
  by (induction a) auto

lemma trim_in_angles: "clean_id x \<Longrightarrow> trim_matches mid_bracket (in_angles x) = x"
proof -
  assume x: "clean_id x"
  then have "hd x \<in> set x" "last x \<in> set x" by (simp_all add: clean_id_def)
  with x have "\<not> mid_bracket (hd x)" "\<not> mid_bracket (last x)" "x \<noteq> []" by (simp_all add: clean_id_def)
  then show ?thesis
    using trim_matches_angle [of x mid_bracket "CHR ''<''" "CHR ''>''"]
    by (simp add: in_angles_def mid_bracket_def)
qed

definition verb_line :: "bytes \<Rightarrow> bytes \<Rightarrow> bytes" where
  "verb_line verb x = verb @ '' '' @ in_angles x"

definition is_verb :: "bytes \<Rightarrow> bool" where
  "is_verb v \<longleftrightarrow> v \<noteq> [] \<and> (\<forall>b \<in> set v. 65 \<le> byte_val b \<and> byte_val b \<le> 90)"

lemma is_verb_ascii: "is_verb v \<Longrightarrow> list_all is_ascii v"
  by (auto simp: is_verb_def list_all_iff is_ascii_def)

lemma is_verb_plain: "is_verb v \<Longrightarrow> CHR '' '' \<notin> set v \<and> LF \<notin> set v"
  by (auto simp: is_verb_def)

lemma is_verb_upper: "is_verb v \<Longrightarrow> to_ascii_uppercase v = v"
  unfolding to_ascii_uppercase_def by (rule map_idI) (auto simp: is_verb_def ascii_upper_def)

lemma verb_line_parts:
  assumes "is_verb v" and "clean_id x"
  shows "splitn 3 (CHR '' '') (verb_line v x) = [v, in_angles x]"
proof -
  have "CHR '' '' \<notin> set (in_angles x)" using assms(2) by (auto simp: clean_id_def in_angles_def)
  moreover have "CHR '' '' \<notin> set v" using is_verb_plain [OF assms(1)] ..
  ultimately show ?thesis
    using split_once_at [of "CHR '' ''" v "in_angles x"] split_once_none [of "CHR '' ''" "in_angles x"]
    by (simp add: numeral_3_eq_3 verb_line_def)
qed

lemma verb_line_tidy:
  assumes "is_verb v" and "clean_id x"
  shows "tidy (verb_line v x)"
proof -
  have "utf8_valid v" by (rule utf8_valid_ascii) (rule is_verb_ascii [OF assms(1)])
  moreover have "utf8_valid '' <''" "utf8_valid ''>''"
    by (rule utf8_valid_ascii, simp add: is_ascii_def)+
  ultimately have "utf8_valid (v @ '' <'' @ x @ ''>'')"
    using assms(2) by (simp add: clean_id_def utf8_valid_append del: utf8_valid.simps append_Cons)
  moreover have "\<not> ws_lead (hd v)" using assms(1) by (cases v) (auto simp: is_verb_def ws_lead_def ws1_def)
  moreover have "\<not> ws_trail (CHR ''>'')" by (simp add: ws_trail_def ws1_def)
  ultimately show ?thesis
    using assms is_verb_plain [OF assms(1)]
    by (auto simp: tidy_def verb_line_def in_angles_def clean_id_def is_verb_def)
qed

lemma upper_verb: "ascii_case upper \<Longrightarrow> is_verb v \<Longrightarrow> upper v = v"
  by (simp add: ascii_case_def is_verb_ascii is_verb_upper)

lemma sound_lookup:
  assumes "sound_run cfg s" and "article_response_overrides cfg = []"
    and "\<And>d. found d s = (True, wrote cfg ([st @ '' 0 '' @ in_angles x @ crlf] @ rest d) s)"
  shows "article_lookup cfg x found s = (True, wrote cfg (lookup_writes cfg st rest x) s)"
  using assms(2,3) reply_sound(1) [OF assms(1)]
  by (simp add: article_lookup_def lookup_writes_def in_angles_def split: option.split)

lemma send_article_sound:
  "sound_run cfg s \<Longrightarrow>
     send_article cfg st x d s = (True, wrote cfg ([st @ '' 0 '' @ in_angles x @ crlf] @ body_writes d) s)"
  by (simp add: send_article_def reply_sound write_multiline_body_def mwrites_sound in_angles_def
      del: mwrites.simps)

text \<open>The answers to the three commands that look an article up.\<close>

definition article_writes :: "mock_config \<Rightarrow> bytes \<Rightarrow> bytes list" where
  "article_writes cfg = lookup_writes cfg ''220'' body_writes"

definition bare_body_writes :: "mock_config \<Rightarrow> bytes \<Rightarrow> bytes list" where
  "bare_body_writes cfg = lookup_writes cfg ''222'' body_writes"

definition stat_writes :: "mock_config \<Rightarrow> bytes \<Rightarrow> bytes list" where
  "stat_writes cfg = lookup_writes cfg ''223'' (\<lambda>d. [])"

lemma handle_lookups:
  assumes "plain_server cfg s" and "clean_id x"
  shows "handle_article cfg [v, in_angles x] s = (True, wrote cfg (article_writes cfg x) s)"
    and "handle_body cfg [v, in_angles x] s = (True, wrote cfg (bare_body_writes cfg x) s)"
    and "handle_stat cfg [v, in_angles x] s = (True, wrote cfg (stat_writes cfg x) s)"
proof -
  have x: "arg_mid [v, in_angles x] = x"
    using trim_in_angles [OF assms(2)] by (simp add: arg_mid_def arg_def nth_opt_def)
  have s: "sound_run cfg s" "authenticated s" "article_response_overrides cfg = []"
    "pop_sequenced x s = (None, s)" using assms(1) by (simp_all add: plain_server_def pop_sequenced_def)
  have l: "article_lookup cfg x (send_article cfg st x) s = (True, wrote cfg (lookup_writes cfg st body_writes x) s)"
    for st by (rule sound_lookup [OF s(1,3)]) (rule send_article_sound [OF s(1)])
  have m: "article_lookup cfg x (\<lambda>d. reply cfg (''223 0 <'' @ x @ ''>'')) s = (True, wrote cfg (stat_writes cfg x) s)"
    unfolding stat_writes_def
    by (rule sound_lookup [OF s(1,3)]) (simp add: reply_sound(1) [OF s(1)] in_angles_def)
  show "handle_article cfg [v, in_angles x] s = (True, wrote cfg (article_writes cfg x) s)"
    "handle_body cfg [v, in_angles x] s = (True, wrote cfg (bare_body_writes cfg x) s)"
    "handle_stat cfg [v, in_angles x] s = (True, wrote cfg (stat_writes cfg x) s)"
    using s(2,4) l m
    by (simp_all only: handle_article_def handle_body_def handle_stat_def behind_login_def x Let_def
        article_writes_def bare_body_writes_def prod.case option.case if_False not_True_eq_False)
qed

definition id_request :: "(bytes \<Rightarrow> bytes) \<Rightarrow> bytes \<Rightarrow> bool" where
  "id_request upper x \<longleftrightarrow> ascii_case upper \<and> clean_id x"

lemma plain_server_stays:
  "plain_server cfg s \<Longrightarrow> plain_server cfg (counted (wrote cfg ws s))"
  "plain_server cfg s \<Longrightarrow> plain_server cfg (s\<lparr>inp := i\<rparr>)"
  by (simp add: plain_server_def, simp add: plain_server_def sound_run_def)

lemma lookup_command:
  assumes "id_request upper x" and "is_verb v" and "plain_server cfg s"
    and "mock_dispatch upper cfg v [v, in_angles x] s = (True, wrote cfg ws s)"
  shows "mock_command upper cfg (verb_line v x) s = (True, counted (wrote cfg ws s))"
proof -
  have p: "splitn 3 (CHR '' '') (verb_line v x) = [v, in_angles x]" "upper v = v"
    using assms(1,2) verb_line_parts upper_verb by (auto simp: id_request_def)
  from mock_command_sound [of cfg s upper "verb_line v x"] show ?thesis
    using assms(3,4) by (simp add: p arg_def nth_opt_def counted_def plain_server_def)
qed

lemma verbs: "is_verb ''ARTICLE''" "is_verb ''BODY''" "is_verb ''STAT''"
  by (simp_all add: is_verb_def)

interpretation by_article: conversation upper cfg "plain_server cfg" "id_request upper"
    "verb_line ''ARTICLE''" "article_writes cfg" for upper cfg
  by unfold_locales
    (auto simp: id_request_def verb_line_tidy verbs plain_server_stays mock_dispatch_def handle_lookups
      intro!: lookup_command)

interpretation by_body: conversation upper cfg "plain_server cfg" "id_request upper"
    "verb_line ''BODY''" "bare_body_writes cfg" for upper cfg
  by unfold_locales
    (auto simp: id_request_def verb_line_tidy verbs plain_server_stays mock_dispatch_def handle_lookups
      intro!: lookup_command)

interpretation by_stat: conversation upper cfg "plain_server cfg" "id_request upper"
    "verb_line ''STAT''" "stat_writes cfg" for upper cfg
  by unfold_locales
    (auto simp: id_request_def verb_line_tidy verbs plain_server_stays mock_dispatch_def handle_lookups
      intro!: lookup_command)

section \<open>What arrives at the client\<close>

lemma emit_sums [simp]:
  "item_bytes (emit cfg ws) = concat ws" "pause_of (emit cfg ws) = delay_of cfg * length ws"
  "error_free (emit cfg ws)"
  by (induction ws) (simp_all add: pause_before_def delay_of_def split: option.split)

lemma emit_last: "ws \<noteq> [] \<Longrightarrow> last ws \<noteq> [] \<Longrightarrow> last (emit cfg ws) = RxByte (last (last ws)) \<and> emit cfg ws \<noteq> []"
  by (cases ws rule: rev_cases) (simp_all add: last_map)

lemma emit_delivers:
  assumes "is_line (concat ws)" and "last ws \<noteq> []" and "delay_of cfg * length ws < limit"
  shows "delivers limit (emit cfg ws) (concat ws)"
proof -
  have "ws \<noteq> []" using assms(1) by (auto simp: is_line_def)
  moreover from this have "last (concat ws) = last (last ws)"
    using assms(2) by (cases ws rule: rev_cases) simp_all
  ultimately show ?thesis
    using assms emit_last [of ws cfg] by (simp add: delivers_def is_line_def)
qed

text \<open>An article as the client gets it: its lines, each with a full line end.\<close>

definition served_lines :: "bytes \<Rightarrow> bytes list" where
  "served_lines d = (if d = [] then [[]] else byte_lines d)"

definition served_body :: "bytes \<Rightarrow> bytes" where
  "served_body d = concat (canonical_lines (served_lines d))"

lemma served_body_crlf:
  assumes "ls \<noteq> []" and "\<forall>l \<in> set ls. LF \<notin> set l"
  shows "served_body (crlf_lines ls) = crlf_lines ls"
proof -
  have "crlf_lines ls \<noteq> []" using assms(1) by (cases ls) (simp_all add: crlf_lines_def)
  then show ?thesis
    by (simp add: served_body_def served_lines_def byte_lines_crlf_lines [OF assms(2)] canonical_lines_concat)
qed

lemma strip_cr_set: "set (strip_cr l) \<subseteq> set l"
  by (auto simp: strip_cr_def dest: in_set_butlastD)

lemma byte_lines_no_LF: "l \<in> set (byte_lines d) \<Longrightarrow> LF \<notin> set l"
proof (induction d rule: byte_lines.induct)
  case (2 a s)
  have "LF \<notin> set (takeWhile (\<lambda>b. b \<noteq> LF) (a # s))" by (auto dest: set_takeWhileD)
  with 2 strip_cr_set [of "takeWhile (\<lambda>b. b \<noteq> LF) (a # s)"] show ?case
    by (auto simp del: takeWhile.simps dropWhile.simps)
qed simp

lemma served_lines_no_LF: "\<forall>l \<in> set (served_lines d). LF \<notin> set l"
  using byte_lines_no_LF [of _ d] by (simp add: served_lines_def)

text \<open>How long the server may wait before each write: a line of a body takes up to three.\<close>

definition quick :: "mock_config \<Rightarrow> bool" where
  "quick cfg \<longleftrightarrow> 3 * delay_of cfg < READ_BODY_LINE_TIMEOUT"

lemma quick_line: "quick cfg \<Longrightarrow> delay_of cfg < READ_LINE_TIMEOUT"
  by (simp add: quick_def READ_BODY_LINE_TIMEOUT_def READ_LINE_TIMEOUT_def)

lemma crlf_line: "LF \<notin> set l \<Longrightarrow> is_line (stuff_line (l @ crlf))"
  unfolding is_line_stuff_line by (simp add: is_line_def butlast_append)

lemma chunks_deliver:
  assumes "quick cfg" and "LF \<notin> set l"
  shows "delivers READ_BODY_LINE_TIMEOUT (emit cfg (byte_line_chunks l)) (stuff_line (l @ crlf))"
proof -
  have "length (byte_line_chunks l) \<le> 3" by (simp add: byte_line_chunks_def)
  then have "delay_of cfg * length (byte_line_chunks l) \<le> delay_of cfg * 3" by (rule mult_le_mono2)
  also have "\<dots> < READ_BODY_LINE_TIMEOUT" using assms(1) by (simp add: quick_def mult.commute)
  finally have "delay_of cfg * length (byte_line_chunks l) < READ_BODY_LINE_TIMEOUT" .
  moreover have "last (byte_line_chunks l) \<noteq> []" by (simp add: byte_line_chunks_def)
  ultimately show ?thesis
    using emit_delivers [of "byte_line_chunks l" cfg] crlf_line [OF assms(2)]
    by (simp add: byte_line_chunks_stuffed)
qed

lemma dot_line_neq: "dot_line \<noteq> []"
  by (simp add: dot_line_def)

lemma terminator_delivers: "quick cfg \<Longrightarrow> delivers READ_BODY_LINE_TIMEOUT (emit cfg [terminator]) dot_line"
  using emit_delivers [of "[terminator]" cfg READ_BODY_LINE_TIMEOUT] dot_line_neq
  by (simp add: quick_def terminator_dot_line)

lemma lines_deliver:
  assumes "quick cfg" and "\<forall>l \<in> set ls. LF \<notin> set l"
  shows "delivers_body (map (\<lambda>l. emit cfg (byte_line_chunks l)) ls @ [emit cfg [terminator]]) (canonical_lines ls)"
  using assms canonical_is_line [OF assms(2)] terminator_delivers [OF assms(1)]
  by (auto simp: delivers_body_def canonical_lines_def list_all2_map1 list_all2_map2 comp_def
      intro!: list_all2_appendI list_all2_same [THEN iffD2] chunks_deliver)

lemma emit_concat: "emit cfg (concat (map f xs)) = concat (map (\<lambda>x. emit cfg (f x)) xs)"
  by (induction xs) (simp_all del: emit_simps(2))

lemma body_delivered:
  assumes "quick cfg"
  shows "\<exists>ss. emit cfg (body_writes d) = concat ss \<and> delivers_body ss (canonical_lines (served_lines d))"
proof (cases "d = []")
  case True
  have "delivers READ_BODY_LINE_TIMEOUT (emit cfg [crlf]) crlf"
    using emit_delivers [of "[crlf]" cfg READ_BODY_LINE_TIMEOUT] crlf_line [of "[]"] assms
    by (simp add: quick_def stuff_line_def)
  with terminator_delivers [OF assms] True show ?thesis
    by (intro exI [of _ "[emit cfg [crlf], emit cfg [terminator]]"])
       (simp add: body_writes_def delivers_body_def served_lines_def canonical_lines_def stuff_line_def is_line_def)
next
  case False
  have "emit cfg (body_writes d)
      = concat (map (\<lambda>l. emit cfg (byte_line_chunks l)) (byte_lines d) @ [emit cfg [terminator]])"
    using False by (simp add: body_writes_def emit_concat del: emit_simps(2))
  with lines_deliver [OF assms served_lines_no_LF, of d] False show ?thesis
    by (intro exI) (auto simp: served_lines_def simp del: emit_simps(2) concat.simps)
qed

end
