(* ===== verification/Pipeline_Laws.thy ===== *)
theory Pipeline_Laws
  imports Pipeline Protocol_Properties
begin

text \<open>
  What pipelining promises: however many requests are in flight, the results are those of asking for
  one article after the other on the same connection, one result per request and in order.
\<close>

section \<open>Receiving does not look at what was sent\<close>

definition erase_tx :: "nntp_connection \<Rightarrow> nntp_connection" where
  "erase_tx c = c\<lparr>transport := map_option (\<lambda>t. t\<lparr>tx := []\<rparr>) (transport c)\<rparr>"

lemma erase_tx_simps [simp]:
  "state (erase_tx c) = state c" "erase_tx (c\<lparr>state := s\<rparr>) = (erase_tx c)\<lparr>state := s\<rparr>"
  "erase_tx (erase_tx c) = erase_tx c" "now (erase_tx c) = now c"
  "io_heartbeat (erase_tx c) = io_heartbeat c" "body_pool (erase_tx c) = body_pool c"
  "transport (erase_tx c) = map_option (\<lambda>t. t\<lparr>tx := []\<rparr>) (transport c)"
  by (simp_all add: erase_tx_def option.map_comp comp_def)

text \<open>An operation that neither looks at nor depends on what \<open>f\<close> changes.\<close>

locale blind =
  fixes f :: "nntp_connection \<Rightarrow> nntp_connection"
    and step :: "nntp_connection \<Rightarrow> 'a \<times> nntp_connection"
  assumes commutes: "step (f c) = (fst (step c), f (snd (step c)))"
begin

lemma same_result: "f c = f c' \<Longrightarrow> fst (step c) = fst (step c')"
  using commutes [of c] commutes [of c'] by simp

lemma same_state: "f c = f c' \<Longrightarrow> f (snd (step c)) = f (snd (step c'))"
  using commutes [of c] commutes [of c'] by simp

lemma same_step:
  assumes "f c = f c'" and "step c = (r, c1)"
  obtains c2 where "step c' = (r, c2)" "f c1 = f c2"
  using same_result [OF assms(1)] same_state [OF assms(1)] assms(2)
  by (cases "step c'") auto

end

text \<open>The receiving operations: blind for the bytes written, and silent on the writing side.\<close>

locale receiver = blind erase_tx step for step :: "nntp_connection \<Rightarrow> 'a \<times> nntp_connection" +
  assumes keeps_wr: "transport c = Some t \<Longrightarrow> \<exists>t'. transport (snd (step c)) = Some t' \<and> wr t' = wr t"
begin

lemma writes_still_succeed:
  "transport c = Some t \<Longrightarrow> wr t = [] \<Longrightarrow> step c = (r, c') \<Longrightarrow> \<exists>t'. transport c' = Some t' \<and> wr t' = []"
  using keeps_wr [of c t] by auto

end

lemma receiver_mark: "receiver step \<Longrightarrow> receiver (\<lambda>c. mark_error (step c))"
proof (unfold_locales, goal_cases)
  case (1 c)
  show ?case using blind.commutes [OF receiver.axioms(1) [OF 1], of c]
    by (cases "step c"; cases "fst (step c)") auto
next
  case (2 c t)
  show ?case using receiver.keeps_wr [OF 2]
    by (cases "step c"; cases "fst (step c)") auto
qed

interpretation read_line: receiver read_response_line
proof (unfold_locales, goal_cases)
  case (1 c)
  show ?case
    by (auto simp: read_response_line_def Let_def tick_io_heartbeat_def erase_tx_def
        split: option.split prod.split read_outcome.split)
next
  case (2 c t)
  then show ?case
    by (auto simp: read_response_line_def Let_def tick_io_heartbeat_def
        split: option.split prod.split read_outcome.split)
qed

interpretation read_body: receiver read_multiline_body
proof (unfold_locales, goal_cases)
  case (1 c)
  show ?case
    by (auto simp: read_multiline_body_def checkout_body_buffer_def read_multiline_body_into_bounded_def
        erase_tx_def split: option.split prod.split list.split)
next
  case (2 c t)
  then show ?case
    by (auto simp: read_multiline_body_def checkout_body_buffer_def read_multiline_body_into_bounded_def
        split: option.split prod.split list.split)
qed

interpretation read_marked: receiver "\<lambda>c. mark_error (read_response_line c)"
  by (rule receiver_mark) (rule read_line.receiver_axioms)

interpretation outcome: receiver "article_outcome req st" for req st
proof (unfold_locales, goal_cases)
  case (1 c)
  show ?case
    using read_body.commutes [of c]
    by (cases "read_multiline_body c"; cases "fst (read_multiline_body c)")
       (auto simp: article_outcome_def finish_def)
next
  case (2 c t)
  then show ?case
    using read_body.keeps_wr [of c t]
    by (cases "read_multiline_body c"; cases "fst (read_multiline_body c)")
       (auto simp: article_outcome_def finish_def)
qed

section \<open>The reference: one request after the other\<close>

fun serve ::
  "pipeline_request list \<Rightarrow> nntp_connection \<Rightarrow> pipeline_result list nntp_result \<times> nntp_connection" where
  "serve [] c = (Inr [], c)"
| "serve (q # qs) c =
     rbind (mark_error (read_response_line c)) (\<lambda>st c.
       (let (r, c) = article_outcome q st c; res = \<lparr>res_request = q, res_result = r\<rparr>
        in if is_fatal r then (Inr (res # map aborted qs), c)
           else rbind (serve qs c) (\<lambda>rs c. (Inr (res # rs), c))))"

definition pipe_wf :: "pipeline \<Rightarrow> bool" where
  "pipe_wf p \<longleftrightarrow> 1 \<le> depth p \<and> length (in_flight p) \<le> depth p"

text \<open>The queue of a pipeline: what is still to be answered, in order.\<close>

definition queue :: "pipeline \<Rightarrow> pipeline_request list" where
  "queue p = in_flight p @ pending p"

lemma send_loop_frame:
  "send_loop n p c = (r, p', c') \<Longrightarrow> pipe_wf p \<Longrightarrow> pipe_wf p' \<and> depth p' = depth p"
proof (induction n p c arbitrary: r p' c' rule: send_loop.induct)
  case (1 n p c)
  show ?case
  proof (cases "length (in_flight p) < depth p \<and> pending p \<noteq> []")
    case True
    then obtain q qs where q: "length (in_flight p) < depth p" "pending p = q # qs"
      by (cases "pending p") auto
    obtain x c1 where m: "mark_error (send_command_no_flush (''ARTICLE '' @ pipeline_mid (req_message_id q)) c)
        = (x, c1)" by force
    show ?thesis
    proof (cases x)
      case (Inl e)
      with 1(2,3) q m show ?thesis by (auto simp: send_loop.simps [of n p c] pipe_wf_def)
    next
      case (Inr u)
      with 1(2) q m have "send_loop (Suc n) (p\<lparr>pending := qs, in_flight := in_flight p @ [q]\<rparr>) c1 = (r, p', c')"
        by (simp add: send_loop.simps [of n p c])
      from 1(1) [OF q m [symmetric] Inr this] 1(3) q show ?thesis by (simp add: pipe_wf_def)
    qed
  next
    case False
    with 1(2,3) show ?thesis by (auto simp: send_loop.simps [of n p c] split: list.splits if_splits)
  qed
qed

lemma flush_sends_frame:
  "flush_sends p c = (r, p', c') \<Longrightarrow> pipe_wf p \<Longrightarrow> pipe_wf p' \<and> depth p' = depth p"
  by (auto simp: flush_sends_def split: prod.splits sum.splits if_splits dest: send_loop_frame)

lemma send_loop_ok:
  "transport c = Some t \<Longrightarrow> wr t = [] \<Longrightarrow>
     \<exists>m p' c' t'. send_loop n p c = (Inr m, p', c') \<and> queue p' = queue p \<and> depth p' = depth p
        \<and> (in_flight p' = [] \<and> 1 \<le> depth p \<longrightarrow> pending p' = [])
        \<and> erase_tx c' = erase_tx c \<and> transport c' = Some t' \<and> wr t' = []"
proof (induction n p c arbitrary: t rule: send_loop.induct)
  case (1 n p c)
  show ?case
  proof (cases "length (in_flight p) < depth p \<and> pending p \<noteq> []")
    case True
    then obtain q qs where q: "length (in_flight p) < depth p" "pending p = q # qs"
      by (cases "pending p") auto
    let ?cmd = "''ARTICLE '' @ pipeline_mid (req_message_id q)"
    let ?t = "t\<lparr>tx := tx t @ ?cmd @ crlf\<rparr>"
    have m: "mark_error (send_command_no_flush ?cmd c) = (Inr (), c\<lparr>transport := Some ?t\<rparr>)"
      using 1(2,3) by (simp add: send_command_no_flush_def conn_write_def)
    from 1(1) [OF q m [symmetric] refl, of ?t] 1(2,3) q m show ?thesis
      by (simp add: send_loop.simps [of n p c] queue_def erase_tx_def)
  next
    case False
    with 1(2,3) show ?thesis
      by (auto simp: send_loop.simps [of n p c] split: list.splits)
  qed
qed

lemma flush_sends_ok:
  assumes "transport c = Some t" and "wr t = []"
  shows "\<exists>p' c' t'. flush_sends p c = (Inr (), p', c') \<and> queue p' = queue p \<and> depth p' = depth p
        \<and> (in_flight p' = [] \<and> 1 \<le> depth p \<longrightarrow> pending p' = [])
        \<and> erase_tx c' = erase_tx c \<and> transport c' = Some t' \<and> wr t' = []"
proof -
  from send_loop_ok [OF assms, of 0 p] obtain m p' c' t' where
    s: "send_loop 0 p c = (Inr m, p', c')" "queue p' = queue p" "depth p' = depth p"
      "in_flight p' = [] \<and> 1 \<le> depth p \<longrightarrow> pending p' = []"
      "erase_tx c' = erase_tx c" "transport c' = Some t'" "wr t' = []" by blast
  have "flush c' = (Inr (), c')" using s(6,7) by (simp add: flush_def conn_write_def)
  with s show ?thesis by (simp add: flush_sends_def)
qed

lemma process_loop_serve:
  assumes "transport c = Some t" and "wr t = []" and "1 \<le> depth p" and "erase_tx c = erase_tx c0"
  shows "fst (process_loop rs p c) = map_sum id (\<lambda>xs. rs @ xs) (fst (serve (queue p) c0))
    \<and> erase_tx (snd (snd (process_loop rs p c))) = erase_tx (snd (serve (queue p) c0))"
  using assms
proof (induction "length (queue p)" arbitrary: rs p c c0 t rule: less_induct)
  case less
  from flush_sends_ok [OF less(2,3), of p] obtain p1 c1 t1 where
    f: "flush_sends p c = (Inr (), p1, c1)" "queue p1 = queue p" "depth p1 = depth p"
      "in_flight p1 = [] \<longrightarrow> pending p1 = []" "erase_tx c1 = erase_tx c0"
      "transport c1 = Some t1" "wr t1 = []" using less(4,5) by auto
  show ?case
  proof (cases "in_flight p1")
    case Nil
    with f show ?thesis by (simp add: process_loop.simps [of rs p c] queue_def)
  next
    case (Cons q qs)
    let ?p2 = "p1\<lparr>in_flight := qs\<rparr>"
    have qp: "queue p = q # queue ?p2" using f(2) Cons by (simp add: queue_def)
    obtain x c2 where x: "mark_error (read_response_line c1) = (x, c2)" by force
    from read_marked.same_step [OF f(5) x] obtain d2 where
      y: "mark_error (read_response_line c0) = (x, d2)" "erase_tx c2 = erase_tx d2" .
    show ?thesis
    proof (cases x)
      case (Inl e)
      with f Cons x y qp show ?thesis
        by (simp add: process_loop.simps [of rs p c] receive_one_def)
    next
      case (Inr st)
      obtain r c3 where o1: "article_outcome q st c2 = (r, c3)" by force
      from outcome.same_step [OF y(2) o1] obtain d3 where
        o2: "article_outcome q st d2 = (r, d3)" "erase_tx c3 = erase_tx d3" .
      have r1: "receive_one p1 c1 = (Inr (Some \<lparr>res_request = q, res_result = r\<rparr>), ?p2, c3)"
        using Cons x Inr o1 by (simp add: receive_one_def)
      show ?thesis
      proof (cases "is_fatal r")
        case True
        with f Cons r1 y Inr o2 qp show ?thesis
          by (simp add: process_loop.simps [of rs p c]) (simp add: queue_def)
      next
        case False
        obtain t2 where t2: "transport c2 = Some t2" "wr t2 = []"
          using read_marked.writes_still_succeed [OF f(6,7) x] by blast
        obtain t3 where t3: "transport c3 = Some t3" "wr t3 = []"
          using outcome.writes_still_succeed [OF t2 o1] by blast
        have "length (queue ?p2) < length (queue p)" using qp by simp
        note ih = less(1) [OF this t3 _ o2(2), of "rs @ [\<lparr>res_request = q, res_result = r\<rparr>]"]
        have "process_loop rs p c = process_loop (rs @ [\<lparr>res_request = q, res_result = r\<rparr>]) ?p2 c3"
          using f Cons r1 False by (simp add: process_loop.simps [of rs p c])
        with ih less(4) f(3) y Inr o2 qp False show ?thesis
          by (cases "serve (queue ?p2) d3"; cases "fst (serve (queue ?p2) d3)") simp_all
      qed
    qed
  qed
qed

text \<open>
  C5: Pipelining is a refinement of asking one by one: as long as the writes succeed, a pipeline of
  any depth gives the results of reading one response per request in order, an abort or an I/O error
  included, and leaves the connection in the same state up to the bytes sent.
\<close>

theorem pipeline_refines_serve:
  assumes "transport c = Some t" and "wr t = []" and "1 \<le> depth p"
  shows "fst (process_all p c) = fst (serve (in_flight p @ pending p) c)
    \<and> erase_tx (snd (snd (process_all p c))) = erase_tx (snd (serve (in_flight p @ pending p) c))"
  using process_loop_serve [OF assms refl, of "[]"]
  by (cases "fst (serve (queue p) c)") (simp_all add: process_all_def queue_def)

definition sample_pipeline :: "nat \<Rightarrow> pipeline" where
  "sample_pipeline d = submit ''<c>'' 1 (submit ''<b>'' 0 (pipeline_new d))"

lemma pipeline_refines_serve_witness:
  "fst (process_all (sample_pipeline 2) (sample_connection []))
     = fst (serve (in_flight (sample_pipeline 2) @ pending (sample_pipeline 2)) (sample_connection []))"
  using pipeline_refines_serve [of "sample_connection []" "sample_transport []" "sample_pipeline 2"]
  by (simp add: sample_connection_def sample_transport_def sample_pipeline_def submit_def pipeline_new_def)

text \<open>
The depth of a pipeline is only a matter of speed: two pipelines with the same requests and
  different depths return the same results on the same connection.
\<close>

theorem pipeline_depth_irrelevant:
  assumes "transport c = Some t" and "wr t = []" and "1 \<le> depth p" and "1 \<le> d"
  shows "fst (process_all (p\<lparr>depth := d\<rparr>) c) = fst (process_all p c)"
  using process_loop_serve [OF assms(1-3) refl, of "[]"]
    process_loop_serve [OF assms(1,2) _ refl, of "p\<lparr>depth := d\<rparr>" "[]"] assms(4)
  by (simp add: process_all_def queue_def)

lemma pipeline_depth_irrelevant_witness:
  "fst (process_all ((sample_pipeline 1)\<lparr>depth := 50\<rparr>) (sample_connection []))
     = fst (process_all (sample_pipeline 1) (sample_connection []))"
  by (rule pipeline_depth_irrelevant [where t = "sample_transport []"])
     (simp_all add: sample_connection_def sample_transport_def sample_pipeline_def submit_def pipeline_new_def)

section \<open>Order and completeness of the results\<close>

lemma map_aborted [simp]: "map (res_request \<circ> aborted) qs = qs"
  by (induction qs) (simp_all add: aborted_def)

lemma send_loop_queue:
  "send_loop n p c = (Inr m, p', c') \<Longrightarrow> 1 \<le> depth p \<Longrightarrow>
     queue p' = queue p \<and> depth p' = depth p \<and> (in_flight p' = [] \<longrightarrow> pending p' = [])"
proof (induction n p c arbitrary: m p' c' rule: send_loop.induct)
  case (1 n p c)
  show ?case
  proof (cases "length (in_flight p) < depth p \<and> pending p \<noteq> []")
    case True
    then obtain q qs where q: "length (in_flight p) < depth p" "pending p = q # qs"
      by (cases "pending p") auto
    obtain x c1 where m: "mark_error (send_command_no_flush (''ARTICLE '' @ pipeline_mid (req_message_id q)) c)
        = (x, c1)" by force
    with 1(2) q obtain u where x: "x = Inr u"
      and s: "send_loop (Suc n) (p\<lparr>pending := qs, in_flight := in_flight p @ [q]\<rparr>) c1 = (Inr m, p', c')"
      by (cases x) (simp_all add: send_loop.simps [of n p c])
    from 1(1) [OF q m [symmetric] x s] 1(3) q show ?thesis by (simp add: queue_def)
  next
    case False
    with 1(2,3) show ?thesis by (auto simp: send_loop.simps [of n p c] split: list.splits if_splits)
  qed
qed

lemma flush_sends_queue:
  "flush_sends p c = (Inr u, p', c') \<Longrightarrow> 1 \<le> depth p \<Longrightarrow>
     queue p' = queue p \<and> depth p' = depth p \<and> (in_flight p' = [] \<longrightarrow> pending p' = [])"
  by (auto simp: flush_sends_def split: prod.splits sum.splits if_splits dest!: send_loop_queue)

lemma process_loop_order:
  assumes "process_loop rs p c = (Inr rs', p', c')" and "1 \<le> depth p"
  shows "map res_request rs' = map res_request rs @ queue p \<and> queue p' = [] \<and> depth p' = depth p"
  using assms
proof (induction "length (queue p)" arbitrary: rs p c rule: less_induct)
  case less
  from less(2) obtain u p1 c1 where f: "flush_sends p c = (Inr u, p1, c1)"
    by (subst (asm) process_loop.simps) (auto split: prod.splits sum.splits)
  note fq = flush_sends_queue [OF f less(3)]
  show ?case
  proof (cases "in_flight p1 = []")
    case True
    with less(2) f fq show ?thesis by (auto simp: process_loop.simps [of rs p c] queue_def)
  next
    case False
    with less(2) f obtain y p2 c2 where r: "receive_one p1 c1 = (Inr y, p2, c2)"
      by (subst (asm) process_loop.simps) (auto split: prod.splits sum.splits)
    with False obtain res where y: "y = Some res"
      by (auto simp: receive_one_def Let_def split: list.splits prod.splits sum.splits)
    note ro = receive_one_Some [OF r [unfolded y]]
    have qp: "queue p = res_request res # queue p2" using fq ro by (simp add: queue_def)
    show ?thesis
    proof (cases "is_fatal (res_result res)")
      case True
      with less(2) f False r y qp fq ro show ?thesis
        by (auto simp: process_loop.simps [of rs p c] queue_def)
    next
      case F: False
      with less(2) f False r y have "process_loop (rs @ [res]) p2 c2 = (Inr rs', p', c')"
        by (simp add: process_loop.simps [of rs p c])
      from less(1) [OF _ this] qp ro fq less(3) show ?thesis by simp
    qed
  qed
qed

text \<open>
  C25: When \<open>process_all\<close> returns, it has one result for each submitted request, in the order of
  submission, an abort included, and nothing is left in either queue.
\<close>

theorem pipeline_one_result_each:
  assumes "process_all p c = (Inr rs, p', c')" and "1 \<le> depth p"
  shows "map res_request rs = in_flight p @ pending p \<and> pipeline_is_empty p'"
  using process_loop_order [of "[]" p c rs p' c'] assms
  by (simp add: process_all_def queue_def pipeline_is_empty_def)

definition sample_430 :: "rx_item list" where
  "sample_430 = map RxByte (status_line 430 ''No such article'')"

lemma sample_430_read:
  assumes "transport c = Some tr" and "rx tr = sample_430 @ r"
  shows "\<exists>c'. read_response_line c = (Inr \<lparr>code = 430, message = ''No such article'', data = None\<rparr>, c')
     \<and> transport c' = Some (tr\<lparr>rx := r\<rparr>)"
proof -
  have "utf8_valid ''No such article''" by (rule utf8_valid_ascii) (simp add: is_ascii_def)
  then show ?thesis
    using read_response_line_ok [OF assms [unfolded sample_430_def] status_line_delivers utf8_valid_status_line]
      parse_status_line [of 430 "''No such article''"] by simp
qed

lemma pipeline_one_result_each_witness:
  "\<exists>rs. map res_request rs = [\<lparr>req_message_id = ''<b>'', req_tag = 0\<rparr>]
     \<and> fst (process_all (submit ''<b>'' 0 (pipeline_new 1)) (sample_connection sample_430)) = Inr rs"
proof -
  let ?c = "sample_connection sample_430" and ?p = "submit ''<b>'' 0 (pipeline_new 1)"
  have t: "transport ?c = Some (sample_transport sample_430)" "rx (sample_transport sample_430) = sample_430 @ []"
    by (simp_all add: sample_connection_def sample_transport_def)
  obtain c' where c': "read_response_line ?c
      = (Inr \<lparr>code = 430, message = ''No such article'', data = None\<rparr>, c')"
    using sample_430_read [OF t] by blast
  have "\<not> isl (fst (serve (queue ?p) ?c))"
    by (simp add: queue_def submit_def pipeline_new_def c' article_outcome_def)
  moreover have "fst (process_all ?p ?c) = map_sum id (\<lambda>xs. xs) (fst (serve (queue ?p) ?c))"
    using process_loop_serve [OF t(1) _ _ refl, of ?p "[]"]
    by (simp add: process_all_def sample_transport_def submit_def pipeline_new_def)
  ultimately obtain rs p' c1 where r: "process_all ?p ?c = (Inr rs, p', c1)"
    by (cases "process_all ?p ?c"; cases "fst (serve (queue ?p) ?c)") auto
  from pipeline_one_result_each [OF r] r show ?thesis
    by (simp add: submit_def pipeline_new_def)
qed

section \<open>The depth bound\<close>

text \<open>The states a pipeline and its connection go through under the operations of the module.\<close>

inductive pipe_reach :: "nat \<Rightarrow> pipeline \<Rightarrow> nntp_connection \<Rightarrow> bool" for d where
  new: "pipe_reach d (pipeline_new d) c"
| submit: "pipe_reach d p c \<Longrightarrow> pipe_reach d (submit mid tag p) c"
| flush: "pipe_reach d p c \<Longrightarrow> flush_sends p c = (r, p', c') \<Longrightarrow> pipe_reach d p' c'"
| receive: "pipe_reach d p c \<Longrightarrow> receive_one p c = (r', p', c') \<Longrightarrow> pipe_reach d p' c'"
| process: "pipe_reach d p c \<Longrightarrow> process_all p c = (r'', p', c') \<Longrightarrow> pipe_reach d p' c'"

lemma receive_one_frame:
  "receive_one p c = (r, p', c') \<Longrightarrow> pipe_wf p \<Longrightarrow> pipe_wf p' \<and> depth p' = depth p"
  by (auto simp: receive_one_def Let_def pipe_wf_def split: list.splits prod.splits sum.splits)

lemma process_loop_frame:
  "process_loop rs p c = (r, p', c') \<Longrightarrow> pipe_wf p \<Longrightarrow> pipe_wf p' \<and> depth p' = depth p"
proof (induction "length (queue p)" arbitrary: rs p c rule: less_induct)
  case less
  obtain x p1 c1 where f: "flush_sends p c = (x, p1, c1)" by (metis surj_pair)
  note ff = flush_sends_frame [OF f less(3)]
  obtain y p2 c2 where r: "receive_one p1 c1 = (y, p2, c2)" by (metis surj_pair)
  have rf: "pipe_wf p2 \<and> depth p2 = depth p" using receive_one_frame [OF r] ff by simp
  show ?case
  proof (cases "\<exists>u res. x = Inr u \<and> in_flight p1 \<noteq> [] \<and> y = Inr (Some res) \<and> \<not> is_fatal (res_result res)")
    case True
    then obtain u res where t: "x = Inr u" "in_flight p1 \<noteq> []" "y = Inr (Some res)" "\<not> is_fatal (res_result res)"
      by blast
    with less(2) f r have "process_loop (rs @ [res]) p2 c2 = (r, p', c')"
      by (simp add: process_loop.simps [of rs p c])
    moreover have "length (queue p2) < length (queue p)"
      using flush_sends_count [OF f] receive_one_Some [OF r [unfolded t(3)]] by (simp add: queue_def)
    ultimately show ?thesis using less(1) rf by metis
  next
    case False
    with less(2) f r ff rf show ?thesis
      by (auto simp: process_loop.simps [of rs p c] pipe_wf_def split: sum.splits if_splits option.splits)
  qed
qed

text \<open>
  Whatever is submitted, sent, received or processed, never more requests are in flight than the
  pipeline's depth, which stays what it was created with, at least one.
\<close>

theorem pipeline_depth_invariant:
  "pipe_reach d p c \<Longrightarrow> length (in_flight p) \<le> depth p \<and> depth p = max d 1"
proof -
  have "pipe_wf p \<and> depth p = max d 1" if "pipe_reach d p c" for p c
    using that
  proof (induction rule: pipe_reach.induct)
    case (new c)
    show ?case by (simp add: pipe_wf_def pipeline_new_def)
  next
    case (submit p c mid tag)
    then show ?case by (simp add: pipe_wf_def submit_def)
  next
    case (process p c r p' c')
    then show ?case using process_loop_frame [of "[]" p c r p' c'] by (simp add: process_all_def)
  qed (auto dest: flush_sends_frame receive_one_frame)
  then show "pipe_reach d p c \<Longrightarrow> length (in_flight p) \<le> depth p \<and> depth p = max d 1"
    unfolding pipe_wf_def by blast
qed

lemma pipeline_depth_invariant_witness:
  "length (in_flight (submit ''b'' 0 (pipeline_new 0))) \<le> depth (submit ''b'' 0 (pipeline_new 0))
   \<and> depth (submit ''b'' 0 (pipeline_new 0)) = max 0 1"
  by (rule pipeline_depth_invariant [OF pipe_reach.submit [OF pipe_reach.new [of 0 "sample_connection []"]]])

section \<open>A pipeline of one request is a fetch\<close>

text \<open>None of the operations a command is made of looks at the connection state.\<close>

interpretation send_blind: blind "\<lambda>c. c\<lparr>state := s\<rparr>" "send_command cmd" for s cmd
proof (unfold_locales, goal_cases)
  case (1 c)
  show ?case
    by (cases "transport c")
       (auto simp: send_command_def send_command_no_flush_def flush_def conn_write_def rbind_def
         split: prod.split sum.split)
qed

interpretation read_blind: blind "\<lambda>c. c\<lparr>state := s\<rparr>" read_response_line for s
proof (unfold_locales, goal_cases)
  case (1 c)
  show ?case
    by (auto simp: read_response_line_def Let_def tick_io_heartbeat_def
        split: option.split prod.split read_outcome.split)
qed

interpretation body_blind: blind "\<lambda>c. c\<lparr>state := s\<rparr>" read_multiline_body for s
proof (unfold_locales, goal_cases)
  case (1 c)
  show ?case
    by (auto simp: read_multiline_body_def checkout_body_buffer_def read_multiline_body_into_bounded_def
        split: option.split prod.split list.split)
qed

lemma exchange_unfold:
  "exchange cmd c = rbind (mark_error (send_command_no_flush cmd c)) (\<lambda>_ c.
     rbind (mark_error (flush c)) (\<lambda>_ c. mark_error (read_response_line c)))"
  unfolding exchange_def send_command_def
  by (cases "send_command_no_flush cmd c"; cases "fst (send_command_no_flush cmd c)") auto

lemma process_loop_empty [simp]:
  "in_flight p = [] \<Longrightarrow> pending p = [] \<Longrightarrow> process_loop rs p c = (Inr rs, p, c)"
  by (simp add: process_loop.simps [of rs p c] flush_sends_def send_loop.simps [of 0 p c])

definition single :: "bytes \<Rightarrow> nat \<Rightarrow> nat \<Rightarrow> pipeline" where
  "single mid tag d = submit mid tag (pipeline_new d)"

lemma single_simps [simp]:
  "in_flight (single mid tag d) = []" "pending (single mid tag d) = [\<lparr>req_message_id = mid, req_tag = tag\<rparr>]"
  "depth (single mid tag d) = max d 1"
  by (simp_all add: single_def submit_def pipeline_new_def)

lemma flush_single:
  assumes "q = \<lparr>req_message_id = mid, req_tag = tag\<rparr>"
  shows "flush_sends (single mid tag d) c =
     (case mark_error (send_command_no_flush (''ARTICLE '' @ pipeline_mid mid) c) of
        (Inl e, c') \<Rightarrow> (Inl e, (single mid tag d)\<lparr>pending := []\<rparr>, c')
      | (Inr _, c') \<Rightarrow> (let (r, c'') = mark_error (flush c')
                        in (r, (single mid tag d)\<lparr>pending := [], in_flight := [q]\<rparr>, c'')))"
proof -
  have e: "send_loop 1 ((single mid tag d)\<lparr>pending := [], in_flight := [q]\<rparr>) c'
      = (Inr 1, (single mid tag d)\<lparr>pending := [], in_flight := [q]\<rparr>, c')" for c'
    by (simp add: send_loop.simps [of "Suc 0"])
  show ?thesis
    using assms e
    by (simp add: flush_sends_def send_loop.simps [of 0 "single mid tag d"] split: prod.splits sum.splits)
qed

lemma process_single:
  "process_all (single mid tag d) c = (x, p', c') \<Longrightarrow>
     (x, c') = rbind (exchange (''ARTICLE '' @ pipeline_mid mid) c) (\<lambda>st c.
       (let (r, c) = article_outcome \<lparr>req_message_id = mid, req_tag = tag\<rparr> st c
        in (Inr [\<lparr>res_request = \<lparr>req_message_id = mid, req_tag = tag\<rparr>, res_result = r\<rparr>], c)))"
proof -
  assume p: "process_all (single mid tag d) c = (x, p', c')"
  define q where "q = \<lparr>req_message_id = mid, req_tag = tag\<rparr>"
  define cmd where "cmd = ''ARTICLE '' @ pipeline_mid mid"
  obtain r1 c1 where 1: "mark_error (send_command_no_flush cmd c) = (r1, c1)" by force
  obtain r2 c2 where 2: "mark_error (flush c1) = (r2, c2)" by force
  obtain r3 c3 where 3: "mark_error (read_response_line c2) = (r3, c3)" by force
  note f = flush_single [OF q_def, of d c, folded cmd_def, unfolded 1]
  have "(x, c') = rbind (exchange cmd c) (\<lambda>st c.
       (let (r, c) = article_outcome q st c in (Inr [\<lparr>res_request = q, res_result = r\<rparr>], c)))"
    unfolding exchange_unfold 1 using p f 2 3
    by (cases r1; cases r2; cases r3)
       (auto simp: process_all_def process_loop.simps [of "[]" "single mid tag d"] receive_one_def Let_def
         split: prod.splits if_splits)
  then show ?thesis by (simp add: q_def cmd_def)
qed

lemma exchange_state: "exchange cmd (c\<lparr>state := s\<rparr>)
    = (fst (exchange cmd c), (if isl (fst (exchange cmd c)) then (snd (exchange cmd c))
         else (snd (exchange cmd c))\<lparr>state := s\<rparr>))"
proof -
  have a: "send_command cmd (c\<lparr>state := s\<rparr>)
      = (fst (send_command cmd c), (snd (send_command cmd c))\<lparr>state := s\<rparr>)"
    by (rule send_blind.commutes)
  obtain r1 c1 where 1: "send_command cmd c = (r1, c1)" by force
  have b: "read_response_line (c1\<lparr>state := s\<rparr>)
      = (fst (read_response_line c1), (snd (read_response_line c1))\<lparr>state := s\<rparr>)"
    by (rule read_blind.commutes)
  obtain r2 c2 where 2: "read_response_line c1 = (r2, c2)" by force
  from a b 1 2 show ?thesis by (cases r1; cases r2) (simp_all add: exchange_def)
qed

lemma pipeline_mid_bracketed: "pipeline_mid (''<'' @ m @ ''>'') = ''<'' @ m @ ''>''"
  by (simp add: pipeline_mid_def starts_with_iff)

lemma exchange_ok_state: "exchange cmd c = (Inr st, c') \<Longrightarrow> state c' = state c"
proof -
  assume "exchange cmd c = (Inr st, c')"
  moreover have "exchange cmd (c\<lparr>state := state c\<rparr>) = exchange cmd c" by simp
  ultimately have "c' = c'\<lparr>state := state c\<rparr>"
    unfolding exchange_state [of cmd "state c" c] by simp
  then show ?thesis by (metis nntp_connection.select_convs(2) nntp_connection.surjective nntp_connection.update_convs(2))
qed

lemma read_body_state: "read_multiline_body c = (r, c') \<Longrightarrow> state c' = state c"
  by (auto simp: read_multiline_body_def checkout_body_buffer_def read_multiline_body_into_bounded_def
      split: option.splits prod.splits list.splits)

text \<open>The branch of \<open>fetch_article\<close> behind its status line, without compression.\<close>

lemma fetch_article_outcome:
  assumes "state c = Ready" and "\<not> compress_enabled c" and "mid = ''<'' @ m @ ''>''"
  shows "fetch_article gz mid c = rbind (exchange (''ARTICLE '' @ mid) c) (\<lambda>st c.
     article_outcome \<lparr>req_message_id = mid, req_tag = tag\<rparr> st c)"
proof -
  have n: "normalize_message_id mid = mid"
    using ends_with_gt [of "''<'' @ m"] assms(3) by (simp add: normalize_message_id_def starts_with_iff)
  obtain r1 c1 where 1: "exchange (''ARTICLE '' @ mid) c = (r1, c1)" by force
  note e = exchange_state [of "''ARTICLE '' @ mid" Busy c, unfolded 1]
  have comp: "\<not> compress_enabled c1"
    using frames_exchange [of c "''ARTICLE '' @ mid"] 1 assms(2) by (auto simp: frames_def same_session_def)
  show ?thesis
  proof (cases r1)
    case (Inl x)
    with 1 e assms(1) show ?thesis by (simp add: fetch_article_def n)
  next
    case (Inr st)
    have s1: "state c1 = Ready" using exchange_ok_state [OF 1 [unfolded Inr]] assms(1) by simp
    have fin: "finish Ready r (c1\<lparr>state := Busy\<rparr>) = (r, c1)" for r :: "nntp_response nntp_result"
      using s1 by (simp add: finish_def)
    obtain r2 c2 where 2: "read_multiline_body c1 = (r2, c2)" by force
    have s2: "state c2 = Ready" using read_body_state [OF 2] s1 by simp
    have c2: "\<not> compress_enabled c2"
      using frames_read_multiline(1) [of c1] 2 comp by (auto simp: frames_def same_session_def)
    have "read_multiline_body (c1\<lparr>state := Busy\<rparr>)
        = (fst (read_multiline_body c1), (snd (read_multiline_body c1))\<lparr>state := Busy\<rparr>)"
      by (rule body_blind.commutes)
    then have b: "read_multiline_body (c1\<lparr>state := Busy\<rparr>) = (r2, c2\<lparr>state := Busy\<rparr>)"
      using 2 by simp
    have d: "read_multiline_body_maybe_decompress gz (c1\<lparr>state := Busy\<rparr>) = (r2, c2\<lparr>state := Busy\<rparr>)"
      using c2 by (cases r2) (simp_all add: read_multiline_body_maybe_decompress_def b looks_gzipped_def)
    have fe: "finish Error r (c1\<lparr>state := Busy\<rparr>) = finish Error r c1" for r :: "nntp_response nntp_result"
      by (simp add: finish_def)
    have c2r: "c2\<lparr>state := Ready\<rparr> = c2" using s2 by simp
    show ?thesis
      using 1 e Inr assms(1) s2
      by (simp add: fetch_article_def article_outcome_def n d 2 fin fe)
         (cases r2; simp add: finish_def c2r)
  qed
qed

text \<open>
  A pipeline with one request does exactly what \<open>fetch_article\<close> does: the same result and the
  same connection afterwards, when the connection is ready and uncompressed and the id is written
  with its angle brackets.
\<close>

theorem pipeline_single_is_fetch:
  assumes "state c = Ready" and "\<not> compress_enabled c"
    and "process_all (submit (''<'' @ m @ ''>'') tag (pipeline_new d)) c = (x, p', c')"
  shows "case x of
      Inl e \<Rightarrow> fetch_article gz (''<'' @ m @ ''>'') c = (Inl e, c')
    | Inr rs \<Rightarrow> \<exists>res. rs = [res] \<and> fetch_article gz (''<'' @ m @ ''>'') c = (res_result res, c')"
proof -
  let ?mid = "''<'' @ m @ ''>''"
  let ?q = "\<lparr>req_message_id = ?mid, req_tag = tag\<rparr>"
  note f = fetch_article_outcome [OF assms(1,2) refl, of gz m tag]
  note p = process_single [OF assms(3) [folded single_def], unfolded pipeline_mid_bracketed]
  obtain r1 c1 where 1: "exchange (''ARTICLE '' @ ?mid) c = (r1, c1)" by force
  show ?thesis
  proof (cases r1)
    case (Inl e)
    with f p 1 show ?thesis by simp
  next
    case (Inr st)
    obtain r2 c2 where "article_outcome ?q st c1 = (r2, c2)" by force
    with f p 1 Inr show ?thesis by simp
  qed
qed

lemma pipeline_single_is_fetch_witness:
  "case fst (process_all (submit (''<'' @ ''b'' @ ''>'') 0 (pipeline_new 5)) (sample_connection sample_430)) of
      Inl e \<Rightarrow> fst (fetch_article sample_gunzip (''<'' @ ''b'' @ ''>'') (sample_connection sample_430)) = Inl e
    | Inr rs \<Rightarrow> \<exists>res. rs = [res]
        \<and> fst (fetch_article sample_gunzip (''<'' @ ''b'' @ ''>'') (sample_connection sample_430)) = res_result res"
proof -
  obtain x p' c' where x: "process_all (submit (''<'' @ ''b'' @ ''>'') 0 (pipeline_new 5)) (sample_connection sample_430)
      = (x, p', c')" by (metis surj_pair)
  have "state (sample_connection sample_430) = Ready" "\<not> compress_enabled (sample_connection sample_430)"
    by (simp_all add: sample_connection_def new_connection_def)
  from pipeline_single_is_fetch [OF this x, of sample_gunzip] show ?thesis
    unfolding x by (cases x) auto
qed

end
