(* ===== verification/Stat_Laws.thy ===== *)
theory Stat_Laws
  imports Pipeline_Laws
begin

text \<open>
  The batched \<open>STAT\<close> checker: it answers for every id, in order, or poisons the connection.
\<close>

lemma fails_closed_send_stats: "fails_closed (send_stats mids c)"
  by (induction mids arbitrary: c)
     (auto intro!: fails_closed_bind fails_closed_mark simp: fails_closed_def [of "(Inr _, _)"])

lemma fails_closed_stat_outcome: "fails_closed (stat_outcome mid st c)"
  by (simp add: stat_outcome_def fails_closed_def finish_def)

lemma fails_closed_ok: "fails_closed (Inr a, c)"
  by (simp add: fails_closed_def)

lemma fails_closed_read_stats: "fails_closed (read_stats mids c)"
  by (induction mids arbitrary: c)
     (auto intro!: fails_closed_bind fails_closed_mark fails_closed_stat_outcome fails_closed_ok)

lemma fails_closed_stat_batch: "fails_closed (stat_batch mids c)"
  unfolding stat_batch_def
  by (intro fails_closed_bind fails_closed_send_stats fails_closed_mark fails_closed_read_stats)
     (simp add: finish_def fails_closed_ok)

lemma fails_closed_stat_batches: "fails_closed (stat_batches ids c)"
proof (induction "length ids" arbitrary: ids c rule: less_induct)
  case less
  show ?case
  proof (cases "ids = []")
    case False
    then have "length (drop STAT_BATCH_SIZE ids) < length ids" by (cases ids) (simp_all add: STAT_BATCH_SIZE_def)
    with less False show ?thesis
      by (simp add: stat_batches.simps [of ids])
         (intro fails_closed_bind fails_closed_stat_batch fails_closed_ok, simp)
  qed (simp add: stat_batches.simps fails_closed_ok)
qed

lemma read_stats_ids: "read_stats mids c = (Inr rs, c') \<Longrightarrow> map sr_message_id rs = mids"
proof (induction mids arbitrary: c rs c')
  case (Cons mid mids)
  from Cons.prems obtain st c1 where
    k: "rbind (stat_outcome mid st c1) (\<lambda>r c. rbind (read_stats mids c) (\<lambda>rs c. (Inr (r # rs), c))) = (Inr rs, c')"
    by (auto elim: rbind_okE)
  then obtain r c2 where r: "stat_outcome mid st c1 = (Inr r, c2)"
    and k2: "rbind (read_stats mids c2) (\<lambda>rs c. (Inr (r # rs), c)) = (Inr rs, c')" by (rule rbind_okE)
  from k2 obtain rs' c3 where "read_stats mids c2 = (Inr rs', c3)" "rs = r # rs'" by (auto elim: rbind_okE)
  moreover from r have "sr_message_id r = mid"
    by (auto simp: stat_outcome_def finish_def split: if_splits)
  ultimately show ?case using Cons.IH by simp
qed simp

lemma stat_batch_ids:
  "stat_batch mids c = (Inr rs, c') \<Longrightarrow> map sr_message_id rs = mids \<and> state c' = Ready"
  unfolding stat_batch_def
  by (auto elim!: rbind_okE simp: finish_def dest: read_stats_ids)

lemma stat_batches_ids:
  "stat_batches ids c = (Inr rs, c') \<Longrightarrow>
     map sr_message_id rs = ids \<and> (ids \<noteq> [] \<longrightarrow> state c' = Ready)"
proof (induction "length ids" arbitrary: ids c rs c' rule: less_induct)
  case less
  show ?case
  proof (cases "ids = []")
    case True
    with less(2) show ?thesis by (simp add: stat_batches.simps)
  next
    case False
    with less(2) have "rbind (stat_batch (take STAT_BATCH_SIZE ids) c) (\<lambda>rs c.
        rbind (stat_batches (drop STAT_BATCH_SIZE ids) c) (\<lambda>rs' c. (Inr (rs @ rs'), c))) = (Inr rs, c')"
      by (simp add: stat_batches.simps [of ids])
    then obtain r1 c1 where 1: "stat_batch (take STAT_BATCH_SIZE ids) c = (Inr r1, c1)"
      and k: "rbind (stat_batches (drop STAT_BATCH_SIZE ids) c1) (\<lambda>rs' c. (Inr (r1 @ rs'), c)) = (Inr rs, c')"
      by (rule rbind_okE)
    from k obtain r2 c2 where 2: "stat_batches (drop STAT_BATCH_SIZE ids) c1 = (Inr r2, c2)"
      and e: "rs = r1 @ r2" "c' = c2" by (auto elim: rbind_okE)
    have "length (drop STAT_BATCH_SIZE ids) < length ids"
      using False by (cases ids) (simp_all add: STAT_BATCH_SIZE_def)
    note ih = less(1) [OF this 2] and b = stat_batch_ids [OF 1]
    have "map sr_message_id rs = take STAT_BATCH_SIZE ids @ drop STAT_BATCH_SIZE ids"
      using ih b e by (simp del: append_take_drop_id)
    moreover have "state c' = Ready"
      using ih b e 2 by (cases "drop STAT_BATCH_SIZE ids = []") (auto simp: stat_batches.simps)
    ultimately show ?thesis by simp
  qed
qed

text \<open>
  C20: A batched STAT check that succeeds answers for exactly the queued ids, in order, and leaves
  the connection \<open>Ready\<close>; one that fails leaves it in \<open>Error\<close>, so it cannot be reused while
  responses are outstanding.  The queue is empty afterwards in both cases.
\<close>

theorem stat_all_or_error:
  assumes "stat_execute s c = (r, s', c')"
  shows "stat_pending s' = []
    \<and> (case r of
         Inr rs \<Rightarrow> map sr_message_id rs = stat_pending s \<and> (stat_pending s = [] \<or> state c' = Ready)
       | Inl e \<Rightarrow> state c' = Error)"
  using assms fails_closed_stat_batches [of "stat_pending s" c]
    stat_batches_ids [of "stat_pending s" c]
  by (cases r) (auto simp: stat_execute_def fails_closed_def split: prod.splits)

text \<open>What the answers say: 223 for an article that is there, 430 for one that is not.\<close>

definition stat_reply :: "rx_item list \<Rightarrow> bool \<Rightarrow> bool" where
  "stat_reply s there \<longleftrightarrow>
     (\<exists>l st. delivers READ_LINE_TIMEOUT s l \<and> utf8_valid l \<and> parse_response_line l = Inr st
             \<and> code st = (if there then 223 else 430))"

definition stat_results :: "bytes list \<Rightarrow> bool list \<Rightarrow> stat_result list" where
  "stat_results ids bs = map2 (\<lambda>i b. \<lparr>sr_message_id = i, sr_exists = b\<rparr>) ids bs"

lemma stat_read_one:
  assumes "transport c = Some tr" and "rx tr = s @ r" and "stat_reply s b"
  shows "\<exists>st c'. mark_error (read_response_line c) = (Inr st, c')
      \<and> stat_outcome mid st c' = (Inr \<lparr>sr_message_id = mid, sr_exists = b\<rparr>, c')
      \<and> transport c' = Some (tr\<lparr>rx := r\<rparr>)"
proof -
  from assms(3) obtain l st where l: "delivers READ_LINE_TIMEOUT s l" "utf8_valid l"
    "parse_response_line l = Inr st" "code st = (if b then 223 else 430)" by (auto simp: stat_reply_def)
  with read_response_line_ok [OF assms(1,2) l(1,2)] show ?thesis
    by (cases b) (auto simp: stat_outcome_def)
qed

lemma read_stats_ok:
  "transport c = Some tr \<Longrightarrow> rx tr = concat ss @ r \<Longrightarrow> list_all2 stat_reply ss bs \<Longrightarrow>
     length mids = length bs \<Longrightarrow>
     \<exists>c'. read_stats mids c = (Inr (stat_results mids bs), c') \<and> transport c' = Some (tr\<lparr>rx := r\<rparr>)"
proof (induction mids arbitrary: c tr ss bs)
  case (Cons mid mids)
  then obtain s ss' b bs' where sb: "ss = s # ss'" "bs = b # bs'" "stat_reply s b" "list_all2 stat_reply ss' bs'"
    "length mids = length bs'" by (cases bs) (auto simp: list_all2_Cons2)
  from Cons.prems(2) sb have "rx tr = s @ concat ss' @ r" by simp
  from stat_read_one [OF Cons.prems(1) this sb(3), of mid] obtain st c1 where
    c1: "mark_error (read_response_line c) = (Inr st, c1)"
      "stat_outcome mid st c1 = (Inr \<lparr>sr_message_id = mid, sr_exists = b\<rparr>, c1)"
      "transport c1 = Some (tr\<lparr>rx := concat ss' @ r\<rparr>)" by blast
  from Cons.IH [OF c1(3) _ sb(4,5)] obtain c2 where
    "read_stats mids c1 = (Inr (stat_results mids bs'), c2)" "transport c2 = Some (tr\<lparr>rx := r\<rparr>)" by auto
  with c1 sb show ?case by (simp add: stat_results_def)
qed (auto simp: stat_results_def)

text \<open>The commands that go out for a list of ids.\<close>

definition stat_lines :: "bytes list \<Rightarrow> bytes" where
  "stat_lines mids = concat (map (\<lambda>m. (''STAT '' @ normalize_message_id m) @ crlf) mids)"

lemma stat_lines_append: "stat_lines (ms @ ns) = stat_lines ms @ stat_lines ns"
  by (simp add: stat_lines_def)

lemma send_stats_ok:
  "transport c = Some tr \<Longrightarrow> wr tr = [] \<Longrightarrow>
     send_stats mids c = (Inr (), c\<lparr>transport := Some (tr\<lparr>tx := tx tr @ stat_lines mids\<rparr>)\<rparr>)"
proof (induction mids arbitrary: c tr)
  case Nil
  then show ?case by (cases c) (simp add: stat_lines_def)
next
  case (Cons mid mids)
  let ?t = "tr\<lparr>tx := tx tr @ (''STAT '' @ normalize_message_id mid) @ crlf\<rparr>"
  have "mark_error (send_command_no_flush (''STAT '' @ normalize_message_id mid) c)
      = (Inr (), c\<lparr>transport := Some ?t\<rparr>)"
    using Cons.prems by (simp add: send_command_no_flush_def conn_write_def)
  then show ?case
    using Cons.IH [of "c\<lparr>transport := Some ?t\<rparr>" ?t] Cons.prems(2) by (simp add: stat_lines_def)
qed

lemma stat_batch_ok:
  assumes "transport c = Some tr" and "wr tr = []" and "rx tr = concat ss @ r"
    and "list_all2 stat_reply ss bs" and "length mids = length bs"
  shows "\<exists>c'. stat_batch mids c = (Inr (stat_results mids bs), c')
            \<and> transport c' = Some (tr\<lparr>tx := tx tr @ stat_lines mids, rx := r\<rparr>)"
proof -
  let ?t = "tr\<lparr>tx := tx tr @ stat_lines mids\<rparr>"
  let ?c = "c\<lparr>state := Busy, transport := Some ?t\<rparr>"
  have 1: "send_stats mids (c\<lparr>state := Busy\<rparr>) = (Inr (), ?c)"
    using send_stats_ok [of "c\<lparr>state := Busy\<rparr>" tr mids] assms(1,2) by simp
  have f: "mark_error (flush ?c) = (Inr (), ?c)"
    using assms(2) by (simp add: flush_def conn_write_def)
  from read_stats_ok [of ?c ?t ss r bs mids] assms(3-5) obtain c2 where
    "read_stats mids ?c = (Inr (stat_results mids bs), c2)" "transport c2 = Some (?t\<lparr>rx := r\<rparr>)"
    by auto
  with 1 f show ?thesis by (simp add: stat_batch_def finish_def)
qed

lemma stat_batches_ok:
  "transport c = Some tr \<Longrightarrow> wr tr = [] \<Longrightarrow> rx tr = concat ss @ r \<Longrightarrow> list_all2 stat_reply ss bs \<Longrightarrow>
     length ids = length bs \<Longrightarrow>
     \<exists>c'. stat_batches ids c = (Inr (stat_results ids bs), c')
       \<and> transport c' = Some (tr\<lparr>tx := tx tr @ stat_lines ids, rx := r\<rparr>)"
proof (induction "length ids" arbitrary: ids c tr ss bs rule: less_induct)
  case less
  show ?case
  proof (cases "ids = []")
    case True
    with less(2,4,5,6) show ?thesis by (simp add: stat_batches.simps stat_results_def stat_lines_def)
  next
    case False
    let ?n = STAT_BATCH_SIZE
    have cc: "rx tr = concat (take ?n ss) @ concat (drop ?n ss) @ r"
      using less(4) by (metis append.assoc append_take_drop_id concat_append)
    let ?t = "tr\<lparr>tx := tx tr @ stat_lines (take ?n ids), rx := concat (drop ?n ss) @ r\<rparr>"
    from stat_batch_ok [OF less(2,3) cc list_all2_takeI [OF less(5)], of "take ?n ids"] less(6)
    obtain c1 where
      1: "stat_batch (take ?n ids) c = (Inr (stat_results (take ?n ids) (take ?n bs)), c1)"
        "transport c1 = Some ?t" by auto
    have "length (drop ?n ids) < length ids" using False by (cases ids) (simp_all add: STAT_BATCH_SIZE_def)
    from less(1) [OF this 1(2) _ _ list_all2_dropI [OF less(5)], of ?n] less(3,6)
    obtain c2 where 2: "stat_batches (drop ?n ids) c1 = (Inr (stat_results (drop ?n ids) (drop ?n bs)), c2)"
      "transport c2 = Some (?t\<lparr>tx := tx ?t @ stat_lines (drop ?n ids), rx := r\<rparr>)" by auto
    have "stat_results (take ?n ids) (take ?n bs) @ stat_results (drop ?n ids) (drop ?n bs)
        = stat_results ids bs"
      unfolding stat_results_def using less(6) by (subst map_append [symmetric], subst zip_append [symmetric]) simp_all
    moreover have "stat_lines (take ?n ids) @ stat_lines (drop ?n ids) = stat_lines ids"
      using stat_lines_append [of "take ?n ids" "drop ?n ids"] by simp
    ultimately show ?thesis
      using False 1(1) 2 by (simp add: stat_batches.simps [of ids])
  qed
qed

text \<open>
  C32: Any number of ids, sent in batches of a hundred, is answered truthfully: when the writes
  succeed and the server's replies 223 or 430 arrive in time, the result for each id says whether
  its own reply was 223, and exactly one STAT line per id, in order, has gone out.
\<close>

theorem stat_answers:
  assumes "transport c = Some tr" and "wr tr = []" and "rx tr = concat ss @ r"
    and "list_all2 stat_reply ss bs" and "length (stat_pending s) = length bs"
  shows "fst (stat_execute s c) = Inr (stat_results (stat_pending s) bs)
    \<and> transport (snd (snd (stat_execute s c))) = Some (tr\<lparr>tx := tx tr @ stat_lines (stat_pending s), rx := r\<rparr>)"
  using stat_batches_ok [OF assms]
  by (auto simp: stat_execute_def)

lemma sample_stat_reply:
  "stat_reply (map RxByte (status_line 223 ''0'')) True" "stat_reply sample_430 False"
proof -
  have "utf8_valid ''0''" "utf8_valid ''No such article''"
    by (rule utf8_valid_ascii, simp add: is_ascii_def)+
  then show "stat_reply (map RxByte (status_line 223 ''0'')) True" "stat_reply sample_430 False"
    unfolding stat_reply_def sample_430_def
    using parse_status_line [of 223 "''0''"] parse_status_line [of 430 "''No such article''"]
    by (auto intro!: exI status_line_delivers utf8_valid_status_line)
qed

lemma stat_answers_witness:
  "fst (stat_execute (stat_add ''<b>'' (stat_add ''<a>'' stat_new))
          (sample_connection (map RxByte (status_line 223 ''0'') @ sample_430)))
     = Inr [\<lparr>sr_message_id = ''<a>'', sr_exists = True\<rparr>, \<lparr>sr_message_id = ''<b>'', sr_exists = False\<rparr>]"
  using stat_answers [of "sample_connection (map RxByte (status_line 223 ''0'') @ sample_430)"
      "sample_transport (map RxByte (status_line 223 ''0'') @ sample_430)"
      "[map RxByte (status_line 223 ''0''), sample_430]" "[]" "[True, False]"
      "stat_add ''<b>'' (stat_add ''<a>'' stat_new)"] sample_stat_reply
  by (simp add: sample_connection_def sample_transport_def stat_add_def stat_new_def stat_results_def)

lemma stat_all_or_error_witness:
  "case fst (stat_execute (stat_add ''<a>'' stat_new) (sample_connection [])) of
     Inr rs \<Rightarrow> map sr_message_id rs = [''<a>'']
   | Inl e \<Rightarrow> state (snd (snd (stat_execute (stat_add ''<a>'' stat_new) (sample_connection [])))) = Error"
proof -
  obtain r s' c' where x: "stat_execute (stat_add ''<a>'' stat_new) (sample_connection []) = (r, s', c')"
    by (metis surj_pair)
  from stat_all_or_error [OF x] show ?thesis
    unfolding x by (cases r) (simp_all add: stat_add_def stat_new_def)
qed

end
