(* ===== verification/End_To_End.thy ===== *)
theory End_To_End
  imports Mock_Answers Pipeline_Laws Stat_Laws Session_Laws
begin

text \<open>
  The client and the mock server together: the bytes one side writes are the bytes the other reads.
  A closed loop is stated by giving the server the bytes \<open>sent\<close>, the client the server's answers to
  them, and proving that the bytes the client writes are \<open>sent\<close>.
\<close>

section \<open>Reading the server's answers\<close>

lemma emit_status:
  assumes "quick cfg" and "utf8_valid msg" and "LF \<notin> set msg" and "msg = [] \<or> last msg \<notin> {CR, LF}"
    and "100 \<le> n" and "n < 1000" and "transport c = Some tr"
    and "rx tr = emit cfg [show_nat n @ '' '' @ msg @ crlf] @ r"
  shows "\<exists>c'. read_response_line c = (Inr \<lparr>code = n, message = msg, data = None\<rparr>, c')
    \<and> transport c' = Some (tr\<lparr>rx := r\<rparr>) \<and> state c' = state c \<and> compress_enabled c' = compress_enabled c"
proof -
  have "delivers READ_LINE_TIMEOUT (emit cfg [status_line n msg]) (status_line n msg)"
    using emit_delivers [of "[status_line n msg]" cfg READ_LINE_TIMEOUT] is_line_status_line [OF assms(3), of n]
      quick_line [OF assms(1)] by (simp add: is_line_nonempty)
  from read_response_line_ok [OF assms(7,8) [folded status_line_def] this utf8_valid_status_line [OF assms(2)]]
  show ?thesis using parse_status_line [OF assms(5,6,4)] by simp
qed

text \<open>A message that ends in a bracketed id.\<close>

lemma id_message:
  assumes "clean_id x" and "list_all is_ascii p" and "LF \<notin> set p"
  shows "utf8_valid (p @ in_angles x)" "LF \<notin> set (p @ in_angles x)" "last (p @ in_angles x) \<notin> {CR, LF}"
proof -
  have "utf8_valid (p @ ''<'')" using assms(2) by (intro utf8_valid_ascii) (simp add: is_ascii_def)
  moreover have "utf8_valid ''>''" by (rule utf8_valid_ascii) (simp add: is_ascii_def)
  ultimately have "utf8_valid ((p @ ''<'') @ x @ ''>'')"
    using assms(1) by (simp add: clean_id_def utf8_valid_append del: utf8_valid.simps append_Cons append_assoc)
  then show "utf8_valid (p @ in_angles x)" by (simp add: in_angles_def)
  show "LF \<notin> set (p @ in_angles x)" "last (p @ in_angles x) \<notin> {CR, LF}"
    using assms(1,3) by (auto simp: clean_id_def in_angles_def)
qed

lemma status_digits:
  "show_nat 220 = ''220''" "show_nat 222 = ''222''" "show_nat 223 = ''223''" "show_nat 430 = ''430''"
  by code_simp+

lemma read_hit:
  assumes "quick cfg" and "clean_id x" and "n \<in> {220, 222, 223}" and "transport c = Some tr"
    and "rx tr = emit cfg [show_nat n @ '' 0 '' @ in_angles x @ crlf] @ r"
  shows "\<exists>c'. read_response_line c = (Inr \<lparr>code = n, message = ''0 '' @ in_angles x, data = None\<rparr>, c')
    \<and> transport c' = Some (tr\<lparr>rx := r\<rparr>) \<and> state c' = state c \<and> compress_enabled c' = compress_enabled c"
proof -
  have "list_all is_ascii ''0 ''" "LF \<notin> set ''0 ''" by (simp_all add: is_ascii_def)
  note m = id_message [OF assms(2) this]
  have "100 \<le> n" "n < 1000" using assms(3) by auto
  from emit_status [OF assms(1) m(1,2) disjI2 [OF m(3)] this assms(4), of r] assms(5) show ?thesis by simp
qed

lemma read_miss:
  assumes "quick cfg" and "clean_id x" and "transport c = Some tr"
    and "rx tr = emit cfg [''430 No article: '' @ in_angles x @ crlf] @ r"
  shows "\<exists>c'. read_response_line c = (Inr \<lparr>code = 430, message = ''No article: '' @ in_angles x, data = None\<rparr>, c')
    \<and> transport c' = Some (tr\<lparr>rx := r\<rparr>) \<and> state c' = state c \<and> compress_enabled c' = compress_enabled c"
proof -
  have "list_all is_ascii ''No article: ''" "LF \<notin> set ''No article: ''" by (simp_all add: is_ascii_def)
  note m = id_message [OF assms(2) this]
  from emit_status [OF assms(1) m(1,2) disjI2 [OF m(3)] _ _ assms(3), of 430 r] assms(4) show ?thesis
    by (simp add: status_digits)
qed

text \<open>The body behind a hit.\<close>

lemma read_served_body:
  assumes "quick cfg" and "transport c = Some tr" and "rx tr = emit cfg (body_writes d) @ r"
  shows "\<exists>c'. read_multiline_body c = (Inr (served_body d), c')
    \<and> transport c' = Some (tr\<lparr>rx := r\<rparr>) \<and> state c' = state c \<and> compress_enabled c' = compress_enabled c"
proof -
  obtain ss where "emit cfg (body_writes d) = concat ss" "delivers_body ss (canonical_lines (served_lines d))"
    using body_delivered [OF assms(1)] by blast
  with read_multiline_body_ok [OF assms(2), of ss r "canonical_lines (served_lines d)"] assms(3)
  show ?thesis by (simp add: served_body_def)
qed

section \<open>ARTICLE, one by one and pipelined\<close>

text \<open>The client's result for an id; \<open>e\<close> is the form of the id it reports as missing.\<close>

definition article_result :: "mock_config \<Rightarrow> bytes \<Rightarrow> bytes \<Rightarrow> nntp_response nntp_result" where
  "article_result cfg e x =
     (case map_of (articles cfg) x of
        Some d \<Rightarrow> Inr \<lparr>code = 220, message = ''0 '' @ in_angles x, data = Some (served_body d)\<rparr>
      | None \<Rightarrow> Inl (ArticleNotFound e))"

lemma article_result_mild [simp]: "\<not> is_fatal (article_result cfg e x)"
  by (simp add: article_result_def split: option.split)

lemma read_article:
  assumes "quick cfg" and "clean_id x" and "transport c = Some tr"
    and "rx tr = emit cfg (article_writes cfg x) @ r"
  shows "\<exists>st c1 c2. mark_error (read_response_line c) = (Inr st, c1)
    \<and> article_outcome q st c1 = (article_result cfg (req_message_id q) x, c2)
    \<and> transport c2 = Some (tr\<lparr>rx := r\<rparr>) \<and> state c2 = state c"
proof (cases "map_of (articles cfg) x")
  case None
  with assms(4) have "rx tr = emit cfg [''430 No article: '' @ in_angles x @ crlf] @ r"
    by (simp add: article_writes_def lookup_writes_def)
  from read_miss [OF assms(1-3) this] obtain c1 where
    1: "read_response_line c = (Inr \<lparr>code = 430, message = ''No article: '' @ in_angles x, data = None\<rparr>, c1)"
      "transport c1 = Some (tr\<lparr>rx := r\<rparr>)" "state c1 = state c" by auto
  show ?thesis
    by (intro exI [of _ "\<lparr>code = 430, message = ''No article: '' @ in_angles x, data = None\<rparr>"] exI [of _ c1])
       (simp add: 1 None article_outcome_def article_result_def)
next
  case (Some d)
  with assms(4) have "rx tr = emit cfg [show_nat 220 @ '' 0 '' @ in_angles x @ crlf] @ emit cfg (body_writes d) @ r"
    by (simp add: article_writes_def lookup_writes_def status_digits)
  from read_hit [OF assms(1,2) _ assms(3) this] obtain c1 where
    1: "read_response_line c = (Inr \<lparr>code = 220, message = ''0 '' @ in_angles x, data = None\<rparr>, c1)"
      "transport c1 = Some (tr\<lparr>rx := emit cfg (body_writes d) @ r\<rparr>)" "state c1 = state c" by auto
  from read_served_body [OF assms(1) 1(2), of d r] obtain c2 where
    "read_multiline_body c1 = (Inr (served_body d), c2)" "transport c2 = Some (tr\<lparr>rx := r\<rparr>)" "state c2 = state c1"
    by auto
  then show ?thesis
    by (intro exI [of _ "\<lparr>code = 220, message = ''0 '' @ in_angles x, data = None\<rparr>"] exI [of _ c1] exI [of _ c2])
       (simp add: 1 Some article_outcome_def article_result_def)
qed

lemma serve_articles:
  "quick cfg \<Longrightarrow> list_all clean_id (map req_message_id qs) \<Longrightarrow> transport c = Some tr \<Longrightarrow>
     rx tr = emit cfg (concat (map (\<lambda>q. article_writes cfg (req_message_id q)) qs)) \<Longrightarrow>
     \<exists>c'. serve qs c = (Inr (map (\<lambda>q. \<lparr>res_request = q,
              res_result = article_result cfg (req_message_id q) (req_message_id q)\<rparr>) qs), c')
       \<and> transport c' = Some (tr\<lparr>rx := []\<rparr>) \<and> state c' = state c"
proof (induction qs arbitrary: c tr)
  case (Cons q qs)
  let ?r = "emit cfg (concat (map (\<lambda>q. article_writes cfg (req_message_id q)) qs))"
  from Cons.prems have "clean_id (req_message_id q)" "rx tr = emit cfg (article_writes cfg (req_message_id q)) @ ?r"
    by simp_all
  from read_article [OF Cons.prems(1) this(1) Cons.prems(3) this(2), of q] obtain st c1 c2 where
    1: "mark_error (read_response_line c) = (Inr st, c1)"
      "article_outcome q st c1 = (article_result cfg (req_message_id q) (req_message_id q), c2)"
      "transport c2 = Some (tr\<lparr>rx := ?r\<rparr>)" "state c2 = state c" by blast
  from Cons.IH [OF Cons.prems(1) _ 1(3)] Cons.prems(2) 1 show ?case by auto
qed simp

text \<open>The bytes a pipeline has written and those it still has to write.\<close>

definition request_line :: "pipeline_request \<Rightarrow> bytes" where
  "request_line q = ''ARTICLE '' @ pipeline_mid (req_message_id q)"

definition outgoing :: "pipeline \<Rightarrow> nntp_connection \<Rightarrow> bytes option" where
  "outgoing p c = map_option (\<lambda>t. tx t @ concat (map (\<lambda>q. request_line q @ crlf) (pending p))) (transport c)"

definition writable :: "nntp_connection \<Rightarrow> bool" where
  "writable c \<longleftrightarrow> (\<exists>t. transport c = Some t \<and> wr t = [])"

lemma send_loop_outgoing:
  "writable c \<Longrightarrow> send_loop n p c = (r, p', c') \<Longrightarrow> writable c' \<and> outgoing p' c' = outgoing p c"
proof (induction n p c arbitrary: r p' c' rule: send_loop.induct)
  case (1 n p c)
  show ?case
  proof (cases "length (in_flight p) < depth p \<and> pending p \<noteq> []")
    case True
    then obtain q qs where q: "length (in_flight p) < depth p" "pending p = q # qs"
      by (cases "pending p") auto
    from 1(2) obtain t where t: "transport c = Some t" "wr t = []" by (auto simp: writable_def)
    let ?cmd = "''ARTICLE '' @ pipeline_mid (req_message_id q)"
    let ?c = "c\<lparr>transport := Some (t\<lparr>tx := tx t @ ?cmd @ crlf\<rparr>)\<rparr>"
    have m: "mark_error (send_command_no_flush ?cmd c) = (Inr (), ?c)"
      using t by (simp add: send_command_no_flush_def conn_write_def)
    from 1(3) q m have "send_loop (Suc n) (p\<lparr>pending := qs, in_flight := in_flight p @ [q]\<rparr>) ?c = (r, p', c')"
      by (simp add: send_loop.simps [of n p c])
    from 1(1) [OF q m [symmetric] refl _ this] t q show ?thesis
      by (simp add: writable_def outgoing_def request_line_def)
  next
    case False
    with 1(2,3) show ?thesis by (auto simp: send_loop.simps [of n p c] split: list.splits)
  qed
qed

lemma flush_sends_outgoing:
  assumes "writable c" and "flush_sends p c = (r, p', c')"
  shows "writable c' \<and> outgoing p' c' = outgoing p c"
proof -
  obtain x p1 c1 where s: "send_loop 0 p c = (x, p1, c1)" by (metis surj_pair)
  from send_loop_outgoing [OF assms(1) s] have w: "writable c1" "outgoing p1 c1 = outgoing p c" by simp_all
  then have "flush c1 = (Inr (), c1)" by (auto simp: writable_def flush_def conn_write_def)
  with assms(2) s w show ?thesis by (auto simp: flush_sends_def split: sum.splits if_splits)
qed

lemma silent_outcome: "silent c (article_outcome q st c)"
proof (cases "read_multiline_body c")
  case (Pair r c')
  with silent_body(1) [of c] show ?thesis
    by (cases r) (auto simp: article_outcome_def silent_def finish_def)
qed

lemma receive_one_outgoing:
  assumes "writable c" and "receive_one p c = (Inr (Some res), p', c')"
  shows "writable c' \<and> outgoing p' c' = outgoing p c"
proof -
  from assms(2) obtain q qs where q: "in_flight p = q # qs"
    by (cases "in_flight p") (auto simp: receive_one_def)
  obtain x c1 where 1: "mark_error (read_response_line c) = (x, c1)" by force
  with assms(2) q obtain st where x: "x = Inr st" by (cases x) (auto simp: receive_one_def)
  obtain y c2 where 2: "article_outcome q st c1 = (y, c2)" by force
  from assms(2) q 1 x 2 have e: "p' = p\<lparr>in_flight := qs\<rparr>" "c' = c2" by (auto simp: receive_one_def)
  from assms(1) obtain t where t: "transport c = Some t" "wr t = []" by (auto simp: writable_def)
  from read_marked.writes_still_succeed [OF t 1] obtain t1 where t1: "transport c1 = Some t1" "wr t1 = []" by blast
  from outcome.writes_still_succeed [OF t1 2] obtain t2 where t2: "transport c2 = Some t2" "wr t2 = []" by blast
  have "map_option tx (transport c1) = map_option tx (transport c)"
    using silent_mark [OF silent_read, of c] 1 by (simp add: silent_def)
  moreover have "map_option tx (transport c2) = map_option tx (transport c1)"
    using silent_outcome [of c1 q st] 2 by (simp add: silent_def)
  ultimately show ?thesis using e t t1 t2 by (simp add: writable_def outgoing_def)
qed

lemma process_loop_outgoing:
  assumes "process_loop rs p c = (Inr xs, p', c')" and "writable c" and "1 \<le> depth p"
    and "\<forall>x \<in> set xs. \<not> is_fatal (res_result x)"
  shows "outgoing p' c' = outgoing p c \<and> pending p' = []"
  using assms
proof (induction "length (queue p)" arbitrary: rs p c rule: less_induct)
  case less
  from less(2) obtain u p1 c1 where f: "flush_sends p c = (Inr u, p1, c1)"
    by (subst (asm) process_loop.simps) (auto split: prod.splits sum.splits)
  note fq = flush_sends_queue [OF f less(4)] flush_sends_outgoing [OF less(3) f]
  show ?case
  proof (cases "in_flight p1 = []")
    case True
    with less(2) f fq show ?thesis by (auto simp: process_loop.simps [of rs p c])
  next
    case False
    with less(2) f obtain y p2 c2 where r: "receive_one p1 c1 = (Inr y, p2, c2)"
      by (subst (asm) process_loop.simps) (auto split: prod.splits sum.splits)
    with False obtain res where y: "y = Some res"
      by (auto simp: receive_one_def Let_def split: list.splits prod.splits sum.splits)
    note ro = receive_one_Some [OF r [unfolded y]]
      receive_one_outgoing [OF conjunct1 [OF fq(2)] r [unfolded y]]
    have "\<not> is_fatal (res_result res)"
      using less(2,5) f False r y by (auto simp: process_loop.simps [of rs p c] split: if_splits)
    with less(2) f False r y have "process_loop (rs @ [res]) p2 c2 = (Inr xs, p', c')"
      by (simp add: process_loop.simps [of rs p c])
    moreover have "queue p = res_request res # queue p2" using fq(1) ro(1) by (simp add: queue_def)
    ultimately show ?thesis using less(1) [of p2 "rs @ [res]" c2] less(4,5) fq ro by simp
  qed
qed

text \<open>The command lines of a list of ids.\<close>

definition ask :: "bytes \<Rightarrow> bytes list \<Rightarrow> bytes" where
  "ask verb xs = concat (map (\<lambda>x. verb_line verb x @ crlf) xs)"

lemma pipeline_mid_clean: "clean_id x \<Longrightarrow> pipeline_mid x = in_angles x \<and> normalize_message_id x = in_angles x"
proof -
  assume x: "clean_id x"
  then obtain a y where "x = a # y" "a \<noteq> CHR ''<''"
    by (cases x) (simp_all add: clean_id_def mid_bracket_def)
  then have "\<not> starts_with ''<'' x" by (simp add: starts_with_def)
  then show ?thesis by (simp add: pipeline_mid_def normalize_message_id_def in_angles_def)
qed

lemma request_lines_ask:
  "list_all clean_id (map req_message_id qs) \<Longrightarrow>
     concat (map (\<lambda>q. request_line q @ crlf) qs) = ask ''ARTICLE'' (map req_message_id qs)"
  by (induction qs) (simp_all add: ask_def request_line_def verb_line_def pipeline_mid_clean)

lemma pipeline_served:
  assumes "quick cfg" and "list_all clean_id (map req_message_id (pending p))" and "in_flight p = []"
    and "1 \<le> depth p" and "transport c = Some tr" and "wr tr = []"
    and "rx tr = emit cfg (concat (map (article_writes cfg) (map req_message_id (pending p))))"
  shows "\<exists>p' c' tr'. process_all p c
      = (Inr (map (\<lambda>q. \<lparr>res_request = q,
                res_result = article_result cfg (req_message_id q) (req_message_id q)\<rparr>) (pending p)), p', c')
    \<and> transport c' = Some tr' \<and> rx tr' = []
    \<and> tx tr' = tx tr @ ask ''ARTICLE'' (map req_message_id (pending p)) \<and> state c' = state c"
proof -
  let ?f = "\<lambda>q. \<lparr>res_request = q, res_result = article_result cfg (req_message_id q) (req_message_id q)\<rparr>"
  have "rx tr = emit cfg (concat (map (\<lambda>q. article_writes cfg (req_message_id q)) (pending p)))"
    using assms(7) by (simp add: comp_def)
  from serve_articles [OF assms(1,2,5) this] obtain c0 where
    0: "serve (pending p) c = (Inr (map ?f (pending p)), c0)" "transport c0 = Some (tr\<lparr>rx := []\<rparr>)" "state c0 = state c"
    by blast
  obtain r p' c' where r: "process_all p c = (r, p', c')" by (metis surj_pair)
  have q: "queue p = pending p" using assms(3) by (simp add: queue_def)
  note p = process_loop_serve [OF assms(5,6,4) refl, of "[]", folded process_all_def, unfolded r q 0(1)]
  have res: "r = Inr (map ?f (pending p))" and e: "erase_tx c' = erase_tx c0" using p by simp_all
  have "writable c" using assms(5,6) by (simp add: writable_def)
  from process_loop_outgoing [OF r [unfolded res process_all_def] this assms(4)]
  have out: "outgoing p' c' = outgoing p c" "pending p' = []" by auto
  obtain t' where t': "transport c' = Some t'" "rx t' = []" "state c' = state c"
    using arg_cong [OF e, of transport] arg_cong [OF e, of state] 0(2,3)
    by (cases "transport c'") (auto dest: arg_cong [of _ _ rx])
  moreover have "tx t' = tx tr @ ask ''ARTICLE'' (map req_message_id (pending p))"
    using out t'(1) assms(5) request_lines_ask [OF assms(2)] by (simp add: outgoing_def)
  ultimately show ?thesis using r res by blast
qed

text \<open>
  C8: The pipeline against the server: a pipeline of any depth, its connection fed with what the mock
  server of \<open>testutil.rs\<close> answers to the ARTICLE lines of the queued ids, gives for every id the stored
  article with full line ends, or ArticleNotFound for one the server does not have, in order; the
  bytes it writes are exactly the lines the server was given, and the answers are read to the end.
\<close>

theorem pipeline_against_server:
  assumes "plain_server cfg s" and "ascii_case upper" and "quick cfg"
    and "list_all clean_id (map req_message_id (pending p))" and "in_flight p = []" and "1 \<le> depth p"
    and "inp s = ask ''ARTICLE'' (map req_message_id (pending p))" and "outp s = []"
    and "transport c = Some tr" and "wr tr = []" and "rx tr = outp (mock_loop upper cfg s)"
  shows "\<exists>p' c' tr'. process_all p c
      = (Inr (map (\<lambda>q. \<lparr>res_request = q,
                res_result = article_result cfg (req_message_id q) (req_message_id q)\<rparr>) (pending p)), p', c')
    \<and> transport c' = Some tr' \<and> rx tr' = [] \<and> tx tr' = tx tr @ inp s \<and> state c' = state c"
proof -
  have "list_all (id_request upper) (map req_message_id (pending p))"
    using assms(2,4) by (simp add: id_request_def list_all_iff)
  from by_article.served [OF this assms(1)] assms(7,8,11)
  have "rx tr = emit cfg (concat (map (article_writes cfg) (map req_message_id (pending p))))"
    by (simp add: by_article.sent_def ask_def)
  from pipeline_served [OF assms(3-6,9,10) this] assms(7) show ?thesis by simp
qed

definition sample_server :: mock_config where
  "sample_server = mock_default\<lparr>articles := [(''a@b'', ''.x'')], response_delay := Some 5\<rparr>"

definition sample_side :: "bytes \<Rightarrow> mock_conn" where
  "sample_side i = (mock_conn_new shared_default [] 0 i)\<lparr>authenticated := True\<rparr>"

lemma sample_server_plain:
  "plain_server sample_server (sample_side i)" "quick sample_server" "outp (sample_side i) = []"
  "inp (sample_side i) = i"
  by (simp_all add: plain_server_def sound_run_def sample_side_def sample_server_def mock_conn_new_def
      mock_default_def shared_default_def quick_def delay_of_def READ_BODY_LINE_TIMEOUT_def)

lemma sample_ids: "clean_id ''a@b''" "clean_id ''c''"
  by (simp_all add: clean_id_def mid_bracket_def utf8_valid_ascii is_ascii_def del: utf8_valid.simps)

definition sample_requests :: pipeline where
  "sample_requests = submit ''c'' 1 (submit ''a@b'' 0 (pipeline_new 2))"

lemma pipeline_against_server_witness:
  "\<exists>p' c' tr'. process_all sample_requests
       (sample_connection (outp (mock_loop to_ascii_uppercase sample_server
          (sample_side (ask ''ARTICLE'' [''a@b'', ''c''])))))
     = (Inr [\<lparr>res_request = \<lparr>req_message_id = ''a@b'', req_tag = 0\<rparr>,
              res_result = Inr \<lparr>code = 220, message = ''0 <a@b>'', data = Some (''.x'' @ crlf)\<rparr>\<rparr>,
             \<lparr>res_request = \<lparr>req_message_id = ''c'', req_tag = 1\<rparr>,
              res_result = Inl (ArticleNotFound ''c'')\<rparr>], p', c')
     \<and> transport c' = Some tr' \<and> tx tr' = ''ARTICLE <a@b>'' @ crlf @ ''ARTICLE <c>'' @ crlf"
proof -
  let ?s = "sample_side (ask ''ARTICLE'' [''a@b'', ''c''])"
  let ?r = "outp (mock_loop to_ascii_uppercase sample_server ?s)"
  have p: "pending sample_requests = [\<lparr>req_message_id = ''a@b'', req_tag = 0\<rparr>, \<lparr>req_message_id = ''c'', req_tag = 1\<rparr>]"
    "in_flight sample_requests = []" "depth sample_requests = 2"
    by (simp_all add: sample_requests_def submit_def pipeline_new_def)
  have c: "transport (sample_connection ?r) = Some (sample_transport ?r)" "wr (sample_transport ?r) = []"
    "rx (sample_transport ?r) = ?r" "tx (sample_transport ?r) = []"
    by (simp_all add: sample_connection_def sample_transport_def)
  have "byte_lines ''.x'' = [''.x'']" by simp
  then have r: "article_result sample_server e ''a@b''
      = Inr \<lparr>code = 220, message = ''0 <a@b>'', data = Some (''.x'' @ crlf)\<rparr>"
    "article_result sample_server e ''c'' = Inl (ArticleNotFound e)" for e
    by (simp_all add: article_result_def sample_server_def mock_default_def in_angles_def served_body_def
        served_lines_def canonical_lines_def del: byte_lines.simps)
  have a: "ask ''ARTICLE'' [''a@b'', ''c''] = ''ARTICLE <a@b>'' @ crlf @ ''ARTICLE <c>'' @ crlf"
    by (simp add: ask_def verb_line_def in_angles_def)
  from pipeline_against_server [OF sample_server_plain(1) ascii_case_refl sample_server_plain(2), of sample_requests
      "ask ''ARTICLE'' [''a@b'', ''c'']" "sample_connection ?r" "sample_transport ?r"]
  show ?thesis using c by (simp add: p r sample_server_plain sample_ids a) blast
qed

section \<open>BODY\<close>

text \<open>The client's result of a BODY for an id.\<close>

definition body_result :: "mock_config \<Rightarrow> bytes \<Rightarrow> nntp_response nntp_result" where
  "body_result cfg x =
     (case map_of (articles cfg) x of
        Some d \<Rightarrow> Inr \<lparr>code = 222, message = ''0 '' @ in_angles x, data = Some (served_body d)\<rparr>
      | None \<Rightarrow> Inl (ArticleNotFound (in_angles x)))"

lemma exchange_parts:
  assumes "transport c = Some tr" and "wr tr = []"
    and "read_response_line (c\<lparr>transport := Some (tr\<lparr>tx := tx tr @ cmd @ crlf\<rparr>)\<rparr>) = (Inr st, c')"
  shows "exchange cmd c = (Inr st, c')"
  using assms by (simp add: exchange_def send_command_ok)

text \<open>
  C37: BODY against the server: a ready, uncompressed client that asks for the body of an article gets
  it as stored, with full line ends, or ArticleNotFound; it has written the one line the server
  answered, has read the answer to the end and is \<open>Ready\<close> again.
\<close>

theorem body_against_server:
  assumes "plain_server cfg s" and "ascii_case upper" and "quick cfg" and "clean_id x"
    and "inp s = ask ''BODY'' [x]" and "outp s = []"
    and "state c = Ready" and "\<not> compress_enabled c" and "have_body (capabilities c)"
    and "transport c = Some tr" and "wr tr = []" and "rx tr = outp (mock_loop upper cfg s)"
  shows "\<exists>c'. fetch_body gz x c = (body_result cfg x, c') \<and> state c' = Ready
    \<and> transport c' = Some (tr\<lparr>rx := [], tx := tx tr @ inp s\<rparr>)"
proof -
  have "list_all (id_request upper) [x]" using assms(2,4) by (simp add: id_request_def)
  from by_body.served [OF this assms(1)] assms(5,6,12) have rx: "rx tr = emit cfg (bare_body_writes cfg x) @ []"
    by (simp add: by_body.sent_def ask_def)
  let ?cmd = "''BODY '' @ in_angles x"
  let ?t = "tr\<lparr>tx := tx tr @ ?cmd @ crlf\<rparr>"
  let ?c = "c\<lparr>state := Busy, transport := Some ?t\<rparr>"
  have i: "inp s = ?cmd @ crlf" using assms(5) by (simp add: ask_def verb_line_def)
  have f: "fetch_body gz x c = fetch_body_command gz x c" using assms(9) by (simp add: fetch_body_def)
  show ?thesis
  proof (cases "map_of (articles cfg) x")
    case None
    then have "rx ?t = emit cfg [''430 No article: '' @ in_angles x @ crlf] @ []"
      using rx by (simp add: bare_body_writes_def lookup_writes_def)
    from read_miss [OF assms(3,4) _ this, of ?c] obtain c1 where
      1: "read_response_line ?c = (Inr \<lparr>code = 430, message = ''No article: '' @ in_angles x, data = None\<rparr>, c1)"
        "transport c1 = Some (?t\<lparr>rx := []\<rparr>)" by auto
    have "exchange ?cmd (c\<lparr>state := Busy\<rparr>) = (Inr \<lparr>code = 430, message = ''No article: '' @ in_angles x, data = None\<rparr>, c1)"
      using exchange_parts [of "c\<lparr>state := Busy\<rparr>" tr ?cmd] assms(10,11) 1(1) by simp
    with 1(2) None i f assms(7) show ?thesis
      by (simp add: fetch_body_command_def pipeline_mid_clean [OF assms(4)] finish_def body_result_def Let_def)
  next
    case (Some d)
    then have "rx ?t = emit cfg [show_nat 222 @ '' 0 '' @ in_angles x @ crlf] @ emit cfg (body_writes d)"
      using rx by (simp add: bare_body_writes_def lookup_writes_def status_digits)
    from read_hit [OF assms(3,4) _ _ this, of ?c] obtain c1 where
      1: "read_response_line ?c = (Inr \<lparr>code = 222, message = ''0 '' @ in_angles x, data = None\<rparr>, c1)"
        "transport c1 = Some (?t\<lparr>rx := emit cfg (body_writes d)\<rparr>)" "compress_enabled c1 = compress_enabled c" by auto
    from read_served_body [OF assms(3) 1(2), of d "[]"] obtain c2 where
      2: "read_multiline_body c1 = (Inr (served_body d), c2)" "transport c2 = Some (?t\<lparr>rx := []\<rparr>)"
        "compress_enabled c2 = compress_enabled c1" by auto
    have "exchange ?cmd (c\<lparr>state := Busy\<rparr>) = (Inr \<lparr>code = 222, message = ''0 '' @ in_angles x, data = None\<rparr>, c1)"
      using exchange_parts [of "c\<lparr>state := Busy\<rparr>" tr ?cmd] assms(10,11) 1(1) by simp
    with 1(3) 2 Some i f assms(7,8) show ?thesis
      by (simp add: fetch_body_command_def pipeline_mid_clean [OF assms(4)] finish_def body_result_def Let_def
          read_multiline_body_maybe_decompress_def looks_gzipped_def)
  qed
qed

lemma body_against_server_witness:
  "fst (fetch_body sample_gunzip ''a@b'' (sample_connection (outp (mock_loop to_ascii_uppercase sample_server
       (sample_side (ask ''BODY'' [''a@b'']))))))
     = Inr \<lparr>code = 222, message = ''0 <a@b>'', data = Some (''.x'' @ crlf)\<rparr>"
proof -
  let ?r = "outp (mock_loop to_ascii_uppercase sample_server (sample_side (ask ''BODY'' [''a@b''])))"
  have c: "state (sample_connection ?r) = Ready" "\<not> compress_enabled (sample_connection ?r)"
    "have_body (capabilities (sample_connection ?r))" "transport (sample_connection ?r) = Some (sample_transport ?r)"
    "wr (sample_transport ?r) = []" "rx (sample_transport ?r) = ?r"
    by (simp_all add: sample_connection_def sample_transport_def new_connection_def default_assumed_def)
  have "byte_lines ''.x'' = [''.x'']" by simp
  then have "body_result sample_server ''a@b'' = Inr \<lparr>code = 222, message = ''0 <a@b>'', data = Some (''.x'' @ crlf)\<rparr>"
    by (simp add: body_result_def sample_server_def mock_default_def in_angles_def served_body_def
        served_lines_def canonical_lines_def del: byte_lines.simps)
  moreover obtain c' where
    "fetch_body sample_gunzip ''a@b'' (sample_connection ?r) = (body_result sample_server ''a@b'', c')"
    using body_against_server [OF sample_server_plain(1) ascii_case_refl sample_server_plain(2) sample_ids(1)
      sample_server_plain(4,3) c, of sample_gunzip] by blast
  ultimately show ?thesis by simp
qed

section \<open>STAT in batches\<close>

lemma stat_reply_of_server:
  assumes "quick cfg" and "clean_id x"
  shows "stat_reply (emit cfg (stat_writes cfg x)) (map_of (articles cfg) x \<noteq> None)"
proof -
  have a: "list_all is_ascii ''0 ''" "LF \<notin> set ''0 ''" "list_all is_ascii ''No article: ''" "LF \<notin> set ''No article: ''"
    by (simp_all add: is_ascii_def)
  have d: "stat_reply (emit cfg [status_line n msg]) b"
    if "utf8_valid msg" "LF \<notin> set msg" "last msg \<notin> {CR, LF}" "n = (if b then 223 else 430)" for n msg b
    using emit_delivers [of "[status_line n msg]" cfg READ_LINE_TIMEOUT] is_line_status_line [OF that(2), of n]
      quick_line [OF assms(1)] utf8_valid_status_line [OF that(1), of n] parse_status_line [of n msg] that(3,4)
    by (auto simp: stat_reply_def is_line_nonempty intro!: exI [of _ "status_line n msg"])
  show ?thesis
    using d [OF id_message [OF assms(2) a(1,2)], of 223 True] d [OF id_message [OF assms(2) a(3,4)], of 430 False]
    by (simp add: stat_writes_def lookup_writes_def status_line_def status_digits split: option.split)
qed

lemma stat_lines_ask: "list_all clean_id xs \<Longrightarrow> stat_lines xs = ask ''STAT'' xs"
  by (induction xs) (simp_all add: stat_lines_def ask_def verb_line_def pipeline_mid_clean)

text \<open>
  C28: The STAT checker against the server: for any number of ids it reports as existing exactly those
  the mock server has an article for, in order, having written exactly the lines the server answered.
\<close>

theorem stat_against_server:
  assumes "plain_server cfg s" and "ascii_case upper" and "quick cfg" and "list_all clean_id (stat_pending q)"
    and "inp s = ask ''STAT'' (stat_pending q)" and "outp s = []"
    and "transport c = Some tr" and "wr tr = []" and "rx tr = outp (mock_loop upper cfg s)"
  shows "fst (stat_execute q c)
      = Inr (map (\<lambda>x. \<lparr>sr_message_id = x, sr_exists = (map_of (articles cfg) x \<noteq> None)\<rparr>) (stat_pending q))
    \<and> transport (snd (snd (stat_execute q c))) = Some (tr\<lparr>tx := tx tr @ inp s, rx := []\<rparr>)"
proof -
  let ?ss = "map (\<lambda>x. emit cfg (stat_writes cfg x)) (stat_pending q)"
  let ?bs = "map (\<lambda>x. map_of (articles cfg) x \<noteq> None) (stat_pending q)"
  have "list_all (id_request upper) (stat_pending q)" using assms(2,4) by (simp add: id_request_def list_all_iff)
  from by_stat.served [OF this assms(1)] assms(5,6,9)
  have "rx tr = emit cfg (concat (map (stat_writes cfg) (stat_pending q)))"
    by (simp add: by_stat.sent_def ask_def)
  then have "rx tr = concat ?ss @ []" by (simp add: emit_concat)
  moreover have "list_all2 stat_reply ?ss ?bs"
    using assms(4) stat_reply_of_server [OF assms(3)]
    by (auto simp: list_all2_map1 list_all2_map2 list_all_iff intro!: list_all2_same [THEN iffD2])
  moreover have "stat_results (stat_pending q) ?bs
      = map (\<lambda>x. \<lparr>sr_message_id = x, sr_exists = (map_of (articles cfg) x \<noteq> None)\<rparr>) (stat_pending q)"
    by (simp add: stat_results_def map2_map_map [where f = "\<lambda>x. x", simplified])
  ultimately show ?thesis
    using stat_batches_ok [OF assms(7,8), of ?ss "[]" ?bs "stat_pending q"] stat_lines_ask [OF assms(4)] assms(5)
    by (auto simp: stat_execute_def)
qed

lemma stat_against_server_witness:
  "fst (stat_execute (stat_add ''c'' (stat_add ''a@b'' stat_new))
       (sample_connection (outp (mock_loop to_ascii_uppercase sample_server
          (sample_side (ask ''STAT'' [''a@b'', ''c'']))))))
     = Inr [\<lparr>sr_message_id = ''a@b'', sr_exists = True\<rparr>, \<lparr>sr_message_id = ''c'', sr_exists = False\<rparr>]"
proof -
  let ?s = "sample_side (ask ''STAT'' [''a@b'', ''c''])"
  let ?r = "outp (mock_loop to_ascii_uppercase sample_server ?s)"
  have q: "stat_pending (stat_add ''c'' (stat_add ''a@b'' stat_new)) = [''a@b'', ''c'']"
    by (simp add: stat_add_def stat_new_def)
  have c: "transport (sample_connection ?r) = Some (sample_transport ?r)" "wr (sample_transport ?r) = []"
    "rx (sample_transport ?r) = ?r"
    by (simp_all add: sample_connection_def sample_transport_def)
  have "articles sample_server = [(''a@b'', ''.x'')]" by (simp add: sample_server_def)
  with stat_against_server [OF sample_server_plain(1) ascii_case_refl sample_server_plain(2), of
      "stat_add ''c'' (stat_add ''a@b'' stat_new)" "ask ''STAT'' [''a@b'', ''c'']" "sample_connection ?r"
      "sample_transport ?r"] c
  show ?thesis by (simp add: q sample_server_plain sample_ids)
qed

end
