(* ===== verification/Session_End_To_End.thy ===== *)
theory Session_End_To_End
  imports End_To_End
begin

text \<open>
  The rest of a session with the mock server: posting, the login, and \<open>connect\<close> as a whole, from the
  welcome line over the login to the capabilities and reader mode.
\<close>

section \<open>POST\<close>

text \<open>The server takes the wire form of an article apart again.\<close>

lemma strip_crlf: "strip_cr (strip_lf (l @ crlf)) = l"
  by (simp add: strip_lf_def strip_cr_def butlast_append)

lemma stuff_crlf: "stuff_line (l @ crlf) = stuff_line l @ crlf"
  by (cases l) (simp_all add: stuff_line_def)

lemma read_posted_wire:
  "\<forall>l \<in> set ls. LF \<notin> set l \<Longrightarrow>
     read_posted art (wire_body (canonical_lines ls) @ r) = Some (art @ concat (canonical_lines ls), r)"
proof (induction ls arbitrary: art)
  case Nil
  have "take_line (dot_line @ r) = ([DOT] @ crlf, r)"
    using take_line_crlf [of "[DOT]" r] by (simp add: dot_line_def)
  moreover have "dot_line @ r \<noteq> []" by (simp add: dot_line_def)
  ultimately show ?case
    by (simp add: wire_body_def canonical_lines_def read_posted.simps [of art "dot_line @ r"] strip_crlf del: append_Cons)
next
  case (Cons l ls)
  let ?w = "wire_body (canonical_lines ls) @ r"
  have e: "wire_body (canonical_lines (l # ls)) @ r = stuff_line l @ CR # LF # ?w"
    by (simp add: wire_body_def canonical_lines_def stuff_crlf)
  have "LF \<notin> set (stuff_line l)" using Cons.prems by (simp add: stuff_line_def)
  from take_line_crlf [OF this] have t: "take_line (stuff_line l @ CR # LF # ?w) = (stuff_line l @ crlf, ?w)" .
  have "stuff_line l \<noteq> [DOT]" by (cases l) (auto simp: stuff_line_def)
  moreover have "(if starts_with [DOT, DOT] (stuff_line l) then tl (stuff_line l) else stuff_line l) = l"
    by (auto simp: stuff_line_def)
  ultimately have "read_posted art (stuff_line l @ CR # LF # ?w) = read_posted (art @ l @ crlf) ?w"
    by (simp add: read_posted.simps [of art "stuff_line l @ CR # LF # ?w"] t strip_crlf del: starts_with_dot)
  with Cons.IH [of "art @ l @ crlf"] Cons.prems show ?case unfolding e by (simp add: canonical_lines_def)
qed

text \<open>The server's side of a post, behind the login and with posting allowed.\<close>

definition stored :: "bytes \<Rightarrow> bytes" where
  "stored art = concat (canonical_lines (byte_lines art))"

definition post_writes :: "bytes list" where
  "post_writes = [''340 Send article to be posted'' @ crlf, ''240 Article received OK'' @ crlf]"

lemma post_line: "tidy ''POST''" "splitn 3 (CHR '' '') ''POST'' = [''POST'']" "is_verb ''POST''"
  by (simp_all add: tidy_def is_verb_def numeral_3_eq_3 utf8_valid_ascii is_ascii_def ws_lead_def ws_trail_def
      ws1_def del: utf8_valid.simps)

lemma server_post:
  assumes "sound_run cfg s" and "authenticated s" and "\<not> post_not_permitted cfg" and "ascii_case upper"
    and "inp s = ''POST'' @ crlf @ wire_body (canonical_lines (byte_lines art))"
    and "posted_articles (shared s) = Some old"
  shows "outp (mock_loop upper cfg s) = outp s @ emit cfg post_writes
    \<and> posted_articles (shared (mock_loop upper cfg s)) = Some (old @ [stored art])"
proof -
  let ?w = "wire_body (canonical_lines (byte_lines art))"
  let ?s = "s\<lparr>inp := ?w\<rparr>"
  have s: "sound_run cfg ?s" using assms(1) by (simp add: sound_run_def)
  have r: "read_posted [] ?w = Some (stored art, [])"
    using read_posted_wire [of "byte_lines art" "[]" "[]"] byte_lines_no_LF [of _ art] by (simp add: stored_def)
  let ?s1 = "wrote cfg [''340 Send article to be posted'' @ crlf] ?s"
  let ?s2 = "?s1\<lparr>inp := [], shared := (shared ?s1)\<lparr>posted_articles := Some (old @ [stored art])\<rparr>\<rparr>"
  have s2: "sound_run cfg ?s2" using s by (simp add: sound_run_def wrote_def)
  have "handle_post cfg ?s = (True, wrote cfg [''240 Article received OK'' @ crlf] ?s2)"
    unfolding handle_post_def behind_login_def
    using assms(2,3,6) r reply_sound(1) [OF s] reply_sound(1) [OF s2] by simp
  then have "mock_dispatch upper cfg ''POST'' [''POST''] ?s = (True, wrote cfg [''240 Article received OK'' @ crlf] ?s2)"
    by (simp add: mock_dispatch_def)
  then have "mock_command upper cfg ''POST'' ?s = (True, counted (wrote cfg [''240 Article received OK'' @ crlf] ?s2))"
    using mock_command_sound [OF s, of upper "''POST''"] upper_verb [OF assms(4) post_line(3)]
    by (simp add: post_line arg_def nth_opt_def counted_def)
  then have "mock_loop upper cfg s = mock_loop upper cfg (counted (wrote cfg [''240 Article received OK'' @ crlf] ?s2))"
    using mock_loop_line [OF post_line(1) assms(5), of upper cfg] by simp
  then show ?thesis by (simp add: mock_loop_end post_writes_def)
qed

lemma fixed_status:
  assumes "quick cfg" and "list_all is_ascii msg" and "LF \<notin> set msg" and "msg \<noteq> []" and "last msg \<noteq> CR"
    and "100 \<le> n" and "n < 1000"
  shows "delivers READ_LINE_TIMEOUT (emit cfg [status_line n msg]) (status_line n msg)"
    and "utf8_valid (status_line n msg)"
    and "parse_response_line (status_line n msg) = Inr \<lparr>code = n, message = msg, data = None\<rparr>"
proof -
  have "last msg \<noteq> LF" using assms(3,4) last_in_set by metis
  then show "parse_response_line (status_line n msg) = Inr \<lparr>code = n, message = msg, data = None\<rparr>"
    using parse_status_line [of n msg] assms(5-7) by simp
  show "utf8_valid (status_line n msg)" by (rule utf8_valid_status_line) (rule utf8_valid_ascii [OF assms(2)])
  show "delivers READ_LINE_TIMEOUT (emit cfg [status_line n msg]) (status_line n msg)"
    using emit_delivers [of "[status_line n msg]" cfg READ_LINE_TIMEOUT] is_line_status_line [OF assms(3), of n]
      quick_line [OF assms(1)] by (simp add: is_line_nonempty)
qed

lemma post_digits: "show_nat 340 = ''340''" "show_nat 240 = ''240''" "show_nat 381 = ''381''"
    "show_nat 281 = ''281''" "show_nat 481 = ''481''"
  by code_simp+

text \<open>
  C18: Posting to the server: the article, whatever bytes it holds, arrives as its lines with full line
  ends and is appended to the posted articles; the client gets the 240 answer, is \<open>Ready\<close>, and has
  written exactly the bytes the server has read.
\<close>

theorem post_against_server:
  assumes "sound_run cfg s" and "authenticated s" and "\<not> post_not_permitted cfg" and "ascii_case upper"
    and "quick cfg" and "inp s = ''POST'' @ crlf @ wire_body (canonical_lines (byte_lines art))" and "outp s = []"
    and "posted_articles (shared s) = Some old"
    and "state c = Ready" and "transport c = Some tr" and "wr tr = []" and "rx tr = outp (mock_loop upper cfg s)"
  shows "\<exists>c'. post_article_bytes art c
      = (Inr \<lparr>code = 240, message = ''Article received OK'', data = None\<rparr>, c')
    \<and> state c' = Ready \<and> transport c' = Some (tr\<lparr>rx := [], tx := tx tr @ inp s\<rparr>)
    \<and> posted_articles (shared (mock_loop upper cfg s)) = Some (old @ [stored art])"
proof -
  have 1: "list_all is_ascii ''Send article to be posted''" "LF \<notin> set ''Send article to be posted''"
    "''Send article to be posted'' \<noteq> []" "last ''Send article to be posted'' \<noteq> CR" "100 \<le> (340 :: nat)" "(340 :: nat) < 1000"
    by (simp_all add: is_ascii_def)
  have 2: "list_all is_ascii ''Article received OK''" "LF \<notin> set ''Article received OK''"
    "''Article received OK'' \<noteq> []" "last ''Article received OK'' \<noteq> CR" "100 \<le> (240 :: nat)" "(240 :: nat) < 1000"
    by (simp_all add: is_ascii_def)
  note f1 = fixed_status [OF assms(5) 1] and f2 = fixed_status [OF assms(5) 2]
  note srv = server_post [OF assms(1-4,6,8)]
  have "rx tr = emit cfg [status_line 340 ''Send article to be posted'']
      @ emit cfg [status_line 240 ''Article received OK''] @ []"
    using srv assms(7,12) by (simp add: post_writes_def status_line_def post_digits)
  from post_bytes_ok [OF assms(9-11) this f1 _ f2, of art] srv assms(6) show ?thesis by simp
qed

definition sample_poster :: "bytes \<Rightarrow> mock_conn" where
  "sample_poster i = (sample_side i)\<lparr>shared := shared_default\<lparr>posted_articles := Some []\<rparr>\<rparr>"

lemma sample_poster_simps:
  "sound_run sample_server (sample_poster i)" "authenticated (sample_poster i)" "inp (sample_poster i) = i"
  "outp (sample_poster i) = []" "posted_articles (shared (sample_poster i)) = Some []"
  "\<not> post_not_permitted sample_server"
  by (simp_all add: sample_poster_def sample_side_def sound_run_def sample_server_def mock_default_def
      mock_conn_new_def shared_default_def)

lemma post_against_server_witness:
  "\<exists>c'. post_article_bytes ''.x'' (sample_connection (outp (mock_loop to_ascii_uppercase sample_server
       (sample_poster (''POST'' @ crlf @ wire_body (canonical_lines (byte_lines ''.x'')))))))
     = (Inr \<lparr>code = 240, message = ''Article received OK'', data = None\<rparr>, c')"
proof -
  let ?i = "''POST'' @ crlf @ wire_body (canonical_lines (byte_lines ''.x''))"
  let ?r = "outp (mock_loop to_ascii_uppercase sample_server (sample_poster ?i))"
  have "state (sample_connection ?r) = Ready" "transport (sample_connection ?r) = Some (sample_transport ?r)"
    "wr (sample_transport ?r) = []" "rx (sample_transport ?r) = ?r"
    by (simp_all add: sample_connection_def sample_transport_def)
  from post_against_server [OF sample_poster_simps(1,2,6) ascii_case_refl sample_server_plain(2)
      sample_poster_simps(3-5) this]
  show ?thesis by blast
qed

section \<open>The login\<close>

text \<open>A user name or password that survives the trimming of a command line.\<close>

definition credential :: "bytes \<Rightarrow> bool" where
  "credential w \<longleftrightarrow> w \<noteq> [] \<and> LF \<notin> set w \<and> utf8_valid w \<and> \<not> ws_trail (last w)"

definition auth_line :: "bytes \<Rightarrow> bytes \<Rightarrow> bytes" where
  "auth_line sub w = ''AUTHINFO '' @ sub @ '' '' @ w"

lemma auth_line_parts:
  "is_verb sub \<Longrightarrow> splitn 3 (CHR '' '') (auth_line sub w) = [''AUTHINFO'', sub, w]"
proof -
  assume "is_verb sub"
  then have "split_once (CHR '' '') (sub @ CHR '' '' # w) = Some (sub, w)"
    using is_verb_plain split_once_at by blast
  moreover have "split_once (CHR '' '') (''AUTHINFO'' @ CHR '' '' # sub @ CHR '' '' # w)
      = Some (''AUTHINFO'', sub @ CHR '' '' # w)" by (rule split_once_at) simp
  ultimately show ?thesis by (simp add: auth_line_def numeral_3_eq_3 del: split_once.simps)
qed

lemma auth_line_tidy:
  assumes "is_verb sub" and "credential w"
  shows "tidy (auth_line sub w)"
proof -
  have "list_all is_ascii (''AUTHINFO '' @ sub @ '' '')"
    using is_verb_ascii [OF assms(1)] by (simp add: is_ascii_def)
  from utf8_valid_ascii [OF this] have "utf8_valid ((''AUTHINFO '' @ sub @ '' '') @ w)"
    using assms(2) by (simp only: utf8_valid_append credential_def)
  moreover have "\<not> ws_lead (CHR ''A'')" by (simp add: ws_lead_def ws1_def)
  ultimately show ?thesis
    using assms(2) is_verb_plain [OF assms(1)]
    by (simp add: tidy_def auth_line_def credential_def del: utf8_valid.simps)
qed

definition accepts :: "mock_config \<Rightarrow> bytes \<Rightarrow> bool" where
  "accepts cfg pw \<longleftrightarrow> (case valid_credentials cfg of None \<Rightarrow> True | Some (_, p) \<Rightarrow> pw = p)"

lemma auth_command:
  assumes "sound_run cfg s" and "ascii_case upper" and "is_verb sub"
    and "handle_authinfo upper cfg [''AUTHINFO'', sub, w] s = (True, s')"
  shows "mock_command upper cfg (auth_line sub w) s = (True, counted s')"
proof -
  have "is_verb ''AUTHINFO''" by (simp add: is_verb_def)
  with assms(2) have "upper ''AUTHINFO'' = ''AUTHINFO''" by (rule upper_verb)
  with mock_command_sound [OF assms(1), of upper "auth_line sub w" s'] assms(3,4) show ?thesis
    by (simp add: auth_line_parts arg_def nth_opt_def mock_dispatch_def counted_def)
qed

definition login_writes :: "bool \<Rightarrow> bytes list" where
  "login_writes ok = [''381 Password required'' @ crlf,
     (if ok then ''281 Authentication accepted'' else ''481 Authentication failed'') @ crlf]"

lemma server_login:
  assumes "sound_run cfg s" and "ascii_case upper" and "\<not> fail_auth cfg" and "rate_limit (shared s) = None"
    and "credential user" and "credential pw"
    and "inp s = auth_line ''USER'' user @ crlf @ auth_line ''PASS'' pw @ crlf @ rst"
  shows "\<exists>s'. mock_loop upper cfg s = mock_loop upper cfg s' \<and> inp s' = rst
    \<and> outp s' = outp s @ emit cfg (login_writes (accepts cfg pw)) \<and> sound_run cfg s' \<and> shared s' = shared s
    \<and> authenticated s' = (accepts cfg pw \<or> authenticated s)"
proof -
  have v: "is_verb ''USER''" "is_verb ''PASS''" by (simp_all add: is_verb_def)
  note up = upper_verb [OF assms(2) v(1)] upper_verb [OF assms(2) v(2)]
  let ?r = "auth_line ''PASS'' pw @ crlf @ rst"
  let ?s1 = "s\<lparr>inp := ?r\<rparr>"
  have s1: "sound_run cfg ?s1" using assms(1) by (simp add: sound_run_def)
  let ?s2 = "counted (wrote cfg [''381 Password required'' @ crlf] ?s1)"
  have "handle_authinfo upper cfg [''AUTHINFO'', ''USER'', user] ?s1
      = (True, wrote cfg [''381 Password required'' @ crlf] ?s1)"
    using assms(3) reply_sound(1) [OF s1] by (simp add: handle_authinfo_def nth_opt_def up)
  from auth_command [OF s1 assms(2) v(1) this]
  have l1: "mock_loop upper cfg s = mock_loop upper cfg ?s2"
    using mock_loop_line [OF auth_line_tidy [OF v(1) assms(5)] assms(7), of upper cfg] by simp
  let ?s3 = "?s2\<lparr>inp := rst\<rparr>"
  have s3: "sound_run cfg ?s3" using s1 by (simp add: sound_run_def counted_def wrote_def)
  let ?s4 = "?s3\<lparr>authenticated := accepts cfg pw \<or> authenticated s\<rparr>"
  have s4: "sound_run cfg ?s4" using s3 by (simp add: sound_run_def)
  let ?w = "(if accepts cfg pw then ''281 Authentication accepted'' else ''481 Authentication failed'') @ crlf"
  have a4: "?s4 = (if accepts cfg pw then ?s3\<lparr>authenticated := True\<rparr> else ?s3)" by simp
  have "record_attempt ?s3 = (False, ?s3)" using assms(4) by (simp add: record_attempt_def)
  then have "handle_pass cfg [''AUTHINFO'', ''PASS'', pw] ?s3 = (True, wrote cfg [?w] ?s4)"
    unfolding a4 using assms(3) reply_sound(1) [OF s3] reply_sound(1) [OF s4]
    by (auto simp: handle_pass_def accepts_def arg_def nth_opt_def split: option.split)
  then have "handle_authinfo upper cfg [''AUTHINFO'', ''PASS'', pw] ?s3 = (True, wrote cfg [?w] ?s4)"
    by (simp add: handle_authinfo_def nth_opt_def up)
  from auth_command [OF s3 assms(2) v(2) this]
  have l2: "mock_loop upper cfg ?s2 = mock_loop upper cfg (counted (wrote cfg [?w] ?s4))"
    using mock_loop_line [OF auth_line_tidy [OF v(2) assms(6)], of ?s2 rst upper cfg] by simp
  show ?thesis
    by (rule exI [of _ "counted (wrote cfg [?w] ?s4)"]) (use l1 l2 s4 in \<open>simp add: login_writes_def\<close>)
qed

text \<open>A command and the status line that answers it.\<close>

lemma command_answered:
  assumes "quick cfg" and "list_all is_ascii msg" and "LF \<notin> set msg" and "msg \<noteq> []" and "last msg \<noteq> CR"
    and "100 \<le> n" and "n < 1000" and "transport c = Some tr" and "wr tr = []"
    and "rx tr = emit cfg [status_line n msg] @ r"
  shows "\<exists>c1 c2. send_command cmd c = (Inr (), c1)
    \<and> read_response_line c1 = (Inr \<lparr>code = n, message = msg, data = None\<rparr>, c2)
    \<and> transport c2 = Some (tr\<lparr>rx := r, tx := tx tr @ cmd @ crlf\<rparr>)
    \<and> state c2 = state c \<and> compress_enabled c2 = compress_enabled c"
proof -
  let ?t = "tr\<lparr>tx := tx tr @ cmd @ crlf\<rparr>"
  let ?c = "c\<lparr>transport := Some ?t\<rparr>"
  note f = fixed_status [OF assms(1-7)]
  have "send_command cmd c = (Inr (), ?c)" using assms(8,9) by (rule send_command_ok)
  moreover from read_response_line_ok [of ?c ?t _ r, OF _ _ f(1,2)] assms(10) f(3)
  have "\<exists>c2. read_response_line ?c = (Inr \<lparr>code = n, message = msg, data = None\<rparr>, c2)
      \<and> transport c2 = Some (?t\<lparr>rx := r\<rparr>) \<and> state c2 = state c \<and> compress_enabled c2 = compress_enabled c"
    by simp
  ultimately show ?thesis by auto
qed

definition login_result :: "bool \<Rightarrow> unit nntp_result" where
  "login_result ok =
     (if ok then Inr () else Inl (Auth (''PASS rejected (481): Authentication failed'')))"

lemma client_login:
  assumes "quick cfg" and "username cc = Some user" and "password cc = Some pw"
    and "transport c = Some tr" and "wr tr = []" and "rx tr = emit cfg (login_writes ok) @ r"
  shows "\<exists>c'. authenticate cc c = (login_result ok, c') \<and> state c' = (if ok then Ready else Error)
    \<and> transport c' = Some (tr\<lparr>rx := r,
        tx := tx tr @ auth_line ''USER'' user @ crlf @ auth_line ''PASS'' pw @ crlf\<rparr>)
    \<and> compress_enabled c' = compress_enabled c"
proof -
  let ?m = "if ok then ''Authentication accepted'' else ''Authentication failed''"
  let ?n = "if ok then 281 else 481 :: nat"
  have a: "list_all is_ascii ''Password required''" "LF \<notin> set ''Password required''" "''Password required'' \<noteq> []"
    "last ''Password required'' \<noteq> CR" "100 \<le> (381 :: nat)" "(381 :: nat) < 1000" by (simp_all add: is_ascii_def)
  have b: "list_all is_ascii ?m" "LF \<notin> set ?m" "?m \<noteq> []" "last ?m \<noteq> CR" "100 \<le> ?n" "?n < 1000"
    by (simp_all add: is_ascii_def)
  let ?c = "c\<lparr>state := Authenticating\<rparr>"
  have rx: "rx tr = emit cfg [status_line 381 ''Password required''] @ emit cfg [status_line ?n ?m] @ r"
    using assms(6) by (simp add: login_writes_def status_line_def post_digits)
  from command_answered [OF assms(1) a _ assms(5) rx, of ?c "''AUTHINFO USER '' @ user"] assms(4) obtain c1 c2 where
    1: "send_command (''AUTHINFO USER '' @ user) ?c = (Inr (), c1)"
      "read_response_line c1 = (Inr \<lparr>code = 381, message = ''Password required'', data = None\<rparr>, c2)"
      "transport c2 = Some (tr\<lparr>rx := emit cfg [status_line ?n ?m] @ r, tx := tx tr @ (''AUTHINFO USER '' @ user) @ crlf\<rparr>)"
      "compress_enabled c2 = compress_enabled c" by auto
  from command_answered [OF assms(1) b 1(3), of r "''AUTHINFO PASS '' @ pw"] assms(5) obtain c3 c4 where
    2: "send_command (''AUTHINFO PASS '' @ pw) c2 = (Inr (), c3)"
      "read_response_line c3 = (Inr \<lparr>code = ?n, message = ?m, data = None\<rparr>, c4)"
      "transport c4 = Some (tr\<lparr>rx := r, tx := (tx tr @ (''AUTHINFO USER '' @ user) @ crlf) @ (''AUTHINFO PASS '' @ pw) @ crlf\<rparr>)"
      "compress_enabled c4 = compress_enabled c2" by auto
  have au: "authenticate cc c = auth_password cc c2"
    unfolding authenticate_def Let_def assms(2) option.case 1(1) rbind_Inr 1(2) by simp
  show ?thesis
  proof (cases ok)
    case True
    then have "authenticate cc c = finish Ready (Inr ()) c4"
      unfolding au auth_password_def assms(3) option.case 2(1) rbind_Inr 2(2) by simp
    with True 1(4) 2(3,4) show ?thesis by (simp add: finish_def login_result_def auth_line_def)
  next
    case False
    then have "authenticate cc c
        = fail_error (rejected ''PASS'' \<lparr>code = 481, message = ''Authentication failed'', data = None\<rparr>) c4"
      unfolding au auth_password_def assms(3) option.case 2(1) rbind_Inr 2(2) by simp
    with False 1(4) 2(3,4) show ?thesis
      by (simp add: fail_error_def finish_def login_result_def auth_line_def rejected_def post_digits)
  qed
qed

text \<open>
  C30: Logging in to the server: with a user name and a password that fit on a line, the client is let
  in exactly when the server has no credentials configured or the password is theirs (the user name
  is not looked at), both sides agree on the outcome, and the two AUTHINFO lines are all that is sent.
\<close>

theorem login_against_server:
  assumes "sound_run cfg s" and "ascii_case upper" and "\<not> fail_auth cfg" and "rate_limit (shared s) = None"
    and "quick cfg" and "credential user" and "credential pw" and "\<not> authenticated s"
    and "inp s = auth_line ''USER'' user @ crlf @ auth_line ''PASS'' pw @ crlf" and "outp s = []"
    and "username cc = Some user" and "password cc = Some pw"
    and "transport c = Some tr" and "wr tr = []" and "rx tr = outp (mock_loop upper cfg s)"
  shows "\<exists>c'. authenticate cc c = (login_result (accepts cfg pw), c')
    \<and> transport c' = Some (tr\<lparr>rx := [], tx := tx tr @ inp s\<rparr>)
    \<and> state c' = (if accepts cfg pw then Ready else Error)
    \<and> authenticated (mock_loop upper cfg s) = accepts cfg pw"
proof -
  from server_login [OF assms(1-4,6,7), of "[]"] assms(9) obtain s' where
    s': "mock_loop upper cfg s = mock_loop upper cfg s'" "inp s' = []"
      "outp s' = outp s @ emit cfg (login_writes (accepts cfg pw))"
      "authenticated s' = (accepts cfg pw \<or> authenticated s)" by auto
  then have "rx tr = emit cfg (login_writes (accepts cfg pw)) @ []" using assms(10,15) by (simp add: mock_loop_end)
  from client_login [OF assms(5,11-14) this] assms(8,9) s' show ?thesis by (auto simp: mock_loop_end)
qed

definition guarded_server :: mock_config where
  "guarded_server = mock_default\<lparr>auth_required := True, valid_credentials := Some (''u'', ''p'')\<rparr>"

lemma login_against_server_witness:
  "fst (authenticate (test_config_with_auth 119 ''u'' ''q'') (sample_connection (outp (mock_loop to_ascii_uppercase
     guarded_server (mock_conn_new shared_default [] 0
       (auth_line ''USER'' ''u'' @ crlf @ auth_line ''PASS'' ''q'' @ crlf))))))
     = Inl (Auth ''PASS rejected (481): Authentication failed'')"
proof -
  let ?i = "auth_line ''USER'' ''u'' @ crlf @ auth_line ''PASS'' ''q'' @ crlf"
  let ?s = "mock_conn_new shared_default [] 0 ?i"
  let ?r = "outp (mock_loop to_ascii_uppercase guarded_server ?s)"
  have s: "sound_run guarded_server ?s" "\<not> fail_auth guarded_server" "rate_limit (shared ?s) = None"
    "quick guarded_server" "\<not> authenticated ?s" "inp ?s = ?i" "outp ?s = []"
    by (simp_all add: mock_conn_new_def guarded_server_def mock_default_def sound_run_def shared_default_def
        quick_def delay_of_def READ_BODY_LINE_TIMEOUT_def)
  have w: "credential ''u''" "credential ''q''"
    by (simp_all add: credential_def utf8_valid_ascii is_ascii_def ws_trail_def ws1_def del: utf8_valid.simps)
  have c: "username (test_config_with_auth 119 ''u'' ''q'') = Some ''u''"
    "password (test_config_with_auth 119 ''u'' ''q'') = Some ''q''"
    "transport (sample_connection ?r) = Some (sample_transport ?r)" "wr (sample_transport ?r) = []"
    "rx (sample_transport ?r) = ?r"
    by (simp_all add: test_config_with_auth_def test_config_def sample_connection_def sample_transport_def)
  have "\<not> accepts guarded_server ''q''" by (simp add: accepts_def guarded_server_def)
  with login_against_server [OF s(1) ascii_case_refl s(2-4) w s(5-7) c] show ?thesis
    by (auto simp: login_result_def)
qed

section \<open>Capabilities and reader mode\<close>

text \<open>The lines of the capability list of a server with and without \<open>MODE-READER\<close>.\<close>

definition advertised :: "bool \<Rightarrow> bytes list" where
  "advertised mr =
     [''VERSION 2'']
     @ (if mr then [''MODE-READER'', ''IHAVE'']
        else [''READER'', ''POST'', ''HDR'', ''OVER MSGID'', ''LIST ACTIVE NEWSGROUPS OVERVIEW.FMT''])
     @ [''IMPLEMENTATION nzb-nntp-testutil 1.0'']"

datatype probe = Ask_Capabilities | Mode_Reader

fun probe_line :: "probe \<Rightarrow> bytes" where
  "probe_line Ask_Capabilities = ''CAPABILITIES''"
| "probe_line Mode_Reader = ''MODE READER''"

fun probe_writes :: "mock_config \<Rightarrow> probe \<Rightarrow> bytes list" where
  "probe_writes cfg Ask_Capabilities =
     (if capabilities_unsupported cfg then [''500 Unknown command'' @ crlf]
      else [''101 Capability list:'' @ crlf] @ canonical_lines (advertised (capabilities_mode_reader cfg)) @ [terminator])"
| "probe_writes cfg Mode_Reader = [''200 Reader mode, posting allowed'' @ crlf]"

definition probe_ok :: "(bytes \<Rightarrow> bytes) \<Rightarrow> probe \<Rightarrow> bool" where
  "probe_ok upper q \<longleftrightarrow> ascii_case upper"

lemma probe_tidy: "tidy (probe_line q)"
proof -
  have "list_all is_ascii (probe_line q)" by (cases q) (simp_all add: is_ascii_def)
  from utf8_valid_ascii [OF this] show ?thesis
    by (cases q) (simp_all add: tidy_def ws_lead_def ws_trail_def ws1_def del: utf8_valid.simps)
qed

lemma probe_answered:
  assumes "probe_ok upper q" and "sound_run cfg s"
  shows "mock_command upper cfg (probe_line q) s = (True, counted (wrote cfg (probe_writes cfg q) s))"
proof -
  have v: "upper ''CAPABILITIES'' = ''CAPABILITIES''" "upper ''MODE'' = ''MODE''" "upper ''READER'' = ''READER''"
    using assms(1) by (auto simp: probe_ok_def is_verb_def intro!: upper_verb)
  have "splitn 3 (CHR '' '') ''MODE READER'' = [''MODE'', ''READER'']"
    "splitn 3 (CHR '' '') ''CAPABILITIES'' = [''CAPABILITIES'']" by (simp_all add: numeral_3_eq_3)
  then show ?thesis
    using mock_command_sound [OF assms(2), of upper "probe_line q"] reply_sound(1) [OF assms(2)]
    by (cases q) (auto simp: arg_def nth_opt_def counted_def mock_dispatch_def handle_capabilities_def
        handle_mode_def v mwrites_sound [OF assms(2)] advertised_def canonical_lines_def simp del: mwrites.simps)
qed

interpretation by_probe: conversation upper cfg "sound_run cfg" "probe_ok upper" probe_line "probe_writes cfg"
  for upper cfg
  by unfold_locales (auto simp: probe_tidy probe_answered sound_run_def wrote_def counted_def)

text \<open>What the client makes of it.\<close>

definition heard_caps :: "bool \<Rightarrow> nntp_capabilities" where
  "heard_caps mr = caps_parse (concat (canonical_lines (advertised mr)))"

lemma heard_caps_flags:
  "mode_reader_required (heard_caps True) \<and> \<not> reader (heard_caps True) \<and> have_body (heard_caps True)"
  "reader (heard_caps False) \<and> have_body (heard_caps False)"
  by code_simp+

definition server_caps :: "mock_config \<Rightarrow> nntp_capabilities" where
  "server_caps cfg =
     (if capabilities_unsupported cfg then default_assumed
      else if capabilities_mode_reader cfg
      then set_content_flags True ((heard_caps True)\<lparr>reader := True\<rparr>) else heard_caps False)"

definition probe_sent :: "mock_config \<Rightarrow> probe list" where
  "probe_sent cfg =
     Ask_Capabilities # (if \<not> capabilities_unsupported cfg \<and> capabilities_mode_reader cfg then [Mode_Reader] else [])"

lemma advertised_lines:
  assumes "quick cfg"
  shows "delivers_body (map (\<lambda>l. emit cfg [l @ crlf]) (advertised mr) @ [emit cfg [terminator]])
    (canonical_lines (advertised mr))"
proof -
  have ok: "\<forall>l \<in> set (advertised mr). LF \<notin> set l \<and> stuff_line (l @ crlf) = l @ crlf"
    by (simp add: advertised_def stuff_line_def)
  have "delivers READ_BODY_LINE_TIMEOUT (emit cfg [l @ crlf]) (l @ crlf)" if "LF \<notin> set l" for l
    using emit_delivers [of "[l @ crlf]" cfg READ_BODY_LINE_TIMEOUT] that assms
    by (simp add: quick_def is_line_def butlast_append)
  then have "list_all2 (delivers READ_BODY_LINE_TIMEOUT) (map (\<lambda>l. emit cfg [l @ crlf]) (advertised mr))
      (map stuff_line (canonical_lines (advertised mr)))"
    using ok by (auto simp: canonical_lines_def list_all2_map1 list_all2_map2 comp_def
        intro!: list_all2_same [THEN iffD2] simp del: emit_simps)
  then show ?thesis
    using ok terminator_delivers [OF assms] canonical_is_line [of "advertised mr"]
    by (auto simp: delivers_body_def intro!: list_all2_appendI simp del: emit_simps)
qed

lemma client_capabilities:
  assumes "quick cfg" and "state c = Ready" and "transport c = Some tr" and "wr tr = []"
    and "rx tr = emit cfg (probe_writes cfg Ask_Capabilities) @ r"
  shows "\<exists>c'. query_capabilities c = (Inr (), c') \<and> state c' = Ready
    \<and> transport c' = Some (tr\<lparr>rx := r, tx := tx tr @ ''CAPABILITIES'' @ crlf\<rparr>)
    \<and> capabilities c' = (if capabilities_unsupported cfg then default_assumed
                         else heard_caps (capabilities_mode_reader cfg))
    \<and> compress_enabled c' = compress_enabled c"
proof (cases "capabilities_unsupported cfg")
  case True
  have m: "list_all is_ascii ''Unknown command''" "LF \<notin> set ''Unknown command''" "''Unknown command'' \<noteq> []"
    "last ''Unknown command'' \<noteq> CR" "100 \<le> (500 :: nat)" "(500 :: nat) < 1000" by (simp_all add: is_ascii_def)
  have "show_nat 500 = ''500''" by code_simp
  then have "rx tr = emit cfg [status_line 500 ''Unknown command''] @ r"
    using assms(5) True by (simp add: status_line_def)
  from command_answered [OF assms(1) m assms(3,4) this, of "''CAPABILITIES''"] obtain c1 c2 where
    "send_command ''CAPABILITIES'' c = (Inr (), c1)"
    "read_response_line c1 = (Inr \<lparr>code = 500, message = ''Unknown command'', data = None\<rparr>, c2)"
    "transport c2 = Some (tr\<lparr>rx := r, tx := tx tr @ ''CAPABILITIES'' @ crlf\<rparr>)" "state c2 = state c"
    "compress_enabled c2 = compress_enabled c" by auto
  with True assms(2) show ?thesis by (simp add: query_capabilities_def)
next
  case False
  let ?mr = "capabilities_mode_reader cfg"
  let ?ss = "map (\<lambda>l. emit cfg [l @ crlf]) (advertised ?mr) @ [emit cfg [terminator]]"
  have m: "list_all is_ascii ''Capability list:''" "LF \<notin> set ''Capability list:''" "''Capability list:'' \<noteq> []"
    "last ''Capability list:'' \<noteq> CR" "100 \<le> (101 :: nat)" "(101 :: nat) < 1000" by (simp_all add: is_ascii_def)
  have "show_nat 101 = ''101''" by code_simp
  moreover have "emit cfg (canonical_lines ls) = concat (map (\<lambda>l. emit cfg [l @ crlf]) ls)" for ls
    by (induction ls) (simp_all add: canonical_lines_def)
  ultimately have "rx tr = emit cfg [status_line 101 ''Capability list:''] @ concat ?ss @ r"
    using assms(5) False by (simp add: status_line_def)
  from command_answered [OF assms(1) m assms(3,4) this, of "''CAPABILITIES''"] obtain c1 c2 where
    1: "send_command ''CAPABILITIES'' c = (Inr (), c1)"
      "read_response_line c1 = (Inr \<lparr>code = 101, message = ''Capability list:'', data = None\<rparr>, c2)"
      "transport c2 = Some (tr\<lparr>rx := concat ?ss @ r, tx := tx tr @ ''CAPABILITIES'' @ crlf\<rparr>)" "state c2 = state c"
      "compress_enabled c2 = compress_enabled c" by auto
  from read_multiline_body_ok [OF 1(3) _ advertised_lines [OF assms(1)], of ?mr r] obtain c3 where
    2: "read_multiline_body c2 = (Inr (concat (canonical_lines (advertised ?mr))), c3)"
      "transport c3 = Some (tr\<lparr>rx := r, tx := tx tr @ ''CAPABILITIES'' @ crlf\<rparr>)" "state c3 = state c2"
      "compress_enabled c3 = compress_enabled c2" by auto
  have "have_body (heard_caps ?mr)" using heard_caps_flags by (cases ?mr) simp_all
  with 1 2 False assms(2) show ?thesis
    by (simp add: query_capabilities_def heard_caps_def [symmetric] Let_def)
qed

lemma client_reader_mode:
  assumes "quick cfg" and "state c = Ready" and "transport c = Some tr" and "wr tr = []"
    and "rx tr = emit cfg (probe_writes cfg Mode_Reader) @ r"
  shows "\<exists>c'. enter_reader_mode c = (Inr (), c') \<and> state c' = Ready
    \<and> transport c' = Some (tr\<lparr>rx := r, tx := tx tr @ ''MODE READER'' @ crlf\<rparr>)
    \<and> capabilities c' = set_content_flags True ((capabilities c)\<lparr>reader := True\<rparr>)
    \<and> compress_enabled c' = compress_enabled c"
proof -
  let ?m = "''Reader mode, posting allowed''"
  have m: "list_all is_ascii ?m" "LF \<notin> set ?m" "?m \<noteq> []" "last ?m \<noteq> CR" "100 \<le> (200 :: nat)" "(200 :: nat) < 1000"
    by (simp_all add: is_ascii_def)
  have "show_nat 200 = ''200''" by code_simp
  then have "rx tr = emit cfg [status_line 200 ?m] @ r" using assms(5) by (simp add: status_line_def)
  from command_answered [OF assms(1) m assms(3,4) this, of "''MODE READER''"] obtain c1 c2 where
    1: "send_command ''MODE READER'' c = (Inr (), c1)"
      "read_response_line c1 = (Inr \<lparr>code = 200, message = ?m, data = None\<rparr>, c2)"
      "transport c2 = Some (tr\<lparr>rx := r, tx := tx tr @ ''MODE READER'' @ crlf\<rparr>)" "state c2 = state c"
      "compress_enabled c2 = compress_enabled c" by auto
  have "capabilities c2 = capabilities c"
    using frames_caps [OF frames_send_command, of "''MODE READER''" c] frames_caps [OF frames_read, of c1] 1 by simp
  with 1 assms(2) show ?thesis by (simp add: enter_reader_mode_def)
qed

lemma client_probe:
  assumes "quick cfg" and "state c = Ready" and "transport c = Some tr" and "wr tr = []" and "\<not> compress cc"
    and "rx tr = emit cfg (concat (map (probe_writes cfg) (probe_sent cfg))) @ rst"
  shows "state (probe_server cc c) = Ready \<and> capabilities (probe_server cc c) = server_caps cfg
    \<and> transport (probe_server cc c) = Some (tr\<lparr>rx := rst, tx := tx tr @ by_probe.sent (probe_sent cfg)\<rparr>)
    \<and> compress_enabled (probe_server cc c) = compress_enabled c"
proof -
  define r where "r = (if \<not> capabilities_unsupported cfg \<and> capabilities_mode_reader cfg
      then emit cfg (probe_writes cfg Mode_Reader) else []) @ rst"
  have "rx tr = emit cfg (probe_writes cfg Ask_Capabilities) @ r"
    using assms(6) by (simp add: probe_sent_def r_def)
  from client_capabilities [OF assms(1-4) this] obtain c1 where
    1: "query_capabilities c = (Inr (), c1)" "state c1 = Ready"
      "transport c1 = Some (tr\<lparr>rx := r, tx := tx tr @ ''CAPABILITIES'' @ crlf\<rparr>)"
      "capabilities c1 = (if capabilities_unsupported cfg then default_assumed
         else heard_caps (capabilities_mode_reader cfg))" "compress_enabled c1 = compress_enabled c" by blast
  show ?thesis
  proof (cases "\<not> capabilities_unsupported cfg \<and> capabilities_mode_reader cfg")
    case True
    then have "r = emit cfg (probe_writes cfg Mode_Reader) @ rst" by (simp add: r_def)
    with client_reader_mode [OF assms(1) 1(2,3), of rst] assms(4) obtain c2 where
      "enter_reader_mode c1 = (Inr (), c2)" "state c2 = Ready"
      "transport c2 = Some (tr\<lparr>rx := rst, tx := (tx tr @ ''CAPABILITIES'' @ crlf) @ ''MODE READER'' @ crlf\<rparr>)"
      "capabilities c2 = set_content_flags True ((capabilities c1)\<lparr>reader := True\<rparr>)"
      "compress_enabled c2 = compress_enabled c1" by auto
    with True 1 assms(5) heard_caps_flags(1) show ?thesis
      by (simp add: probe_server_def server_caps_def by_probe.sent_def probe_sent_def)
  next
    case False
    then have "\<not> (mode_reader_required (capabilities c1) \<and> \<not> reader (capabilities c1))"
      using 1(4) heard_caps_flags(2) by (auto simp: default_assumed_def)
    with False 1 assms(5) show ?thesis
      by (auto simp: probe_server_def server_caps_def by_probe.sent_def probe_sent_def r_def)
  qed
qed

section \<open>connect\<close>

text \<open>A server that plays no tricks, wants a login, and greets with an ordinary line.\<close>

definition greets :: "mock_config \<Rightarrow> bool" where
  "greets cfg \<longleftrightarrow>
     silent_close_after_bytes cfg = None \<and> hang_after_command cfg = None \<and> close_after_n_commands cfg = None
     \<and> \<not> service_unavailable cfg \<and> auth_required cfg \<and> \<not> fail_auth cfg \<and> welcome_code cfg \<in> {200, 201}
     \<and> list_all is_ascii (welcome_message cfg) \<and> LF \<notin> set (welcome_message cfg) \<and> welcome_message cfg \<noteq> []
     \<and> last (welcome_message cfg) \<noteq> CR"

text \<open>A client that dials without TLS, proxy or compression.\<close>

definition plainly :: "server_config \<Rightarrow> bool" where
  "plainly cc \<longleftrightarrow> \<not> ssl cc \<and> proxy_url cc = None \<and> \<not> compress cc"

definition session_sent :: "mock_config \<Rightarrow> bytes \<Rightarrow> bytes \<Rightarrow> bytes" where
  "session_sent cfg user pw =
     auth_line ''USER'' user @ crlf @ auth_line ''PASS'' pw @ crlf
     @ (if accepts cfg pw then by_probe.sent (probe_sent cfg) else [])"

definition session_writes :: "mock_config \<Rightarrow> bytes \<Rightarrow> bytes list" where
  "session_writes cfg pw =
     [status_line (welcome_code cfg) (welcome_message cfg)] @ login_writes (accepts cfg pw)
     @ (if accepts cfg pw then concat (map (probe_writes cfg) (probe_sent cfg)) else [])"

lemma server_session:
  assumes "greets cfg" and "ascii_case upper" and "rate_limit sh = None" and "credential user" and "credential pw"
  shows "\<exists>s. mock_connection upper cfg (mock_conn_new sh [] t (session_sent cfg user pw @ rst)) = mock_loop upper cfg s
    \<and> inp s = rst \<and> outp s = emit cfg (session_writes cfg pw) \<and> sound_run cfg s \<and> shared s = sh
    \<and> authenticated s = accepts cfg pw"
proof -
  let ?s0 = "mock_conn_new sh [] t (session_sent cfg user pw @ rst)"
  let ?w = "show_nat (welcome_code cfg) @ '' '' @ welcome_message cfg"
  let ?s1 = "(wrote cfg [?w @ crlf] ?s0)\<lparr>authenticated := \<not> auth_required cfg, selected_group := None,
      commands_processed := 0\<rparr>"
  let ?probes = "if accepts cfg pw then probe_sent cfg else []"
  have s0: "sound_run cfg ?s0" using assms(1) by (simp add: sound_run_def greets_def mock_conn_new_def)
  then have s1: "sound_run cfg ?s1" by (simp add: sound_run_def wrote_def)
  have m: "mock_connection upper cfg ?s0 = mock_loop upper cfg ?s1"
    unfolding mock_connection_def reply_sound(1) [OF s0] using assms(1) by (simp add: greets_def)
  have f: "\<not> fail_auth cfg" "rate_limit (shared ?s1) = None"
    "inp ?s1 = auth_line ''USER'' user @ crlf @ auth_line ''PASS'' pw @ crlf @ by_probe.sent ?probes @ rst"
    "outp ?s1 = emit cfg [status_line (welcome_code cfg) (welcome_message cfg)]" "\<not> authenticated ?s1"
    "shared ?s1 = sh"
    using assms(1,3) by (simp_all add: greets_def mock_conn_new_def session_sent_def status_line_def by_probe.sent_def)
  from server_login [OF s1 assms(2) f(1,2) assms(4,5) f(3)] obtain s2 where
    2: "mock_loop upper cfg ?s1 = mock_loop upper cfg s2" "inp s2 = by_probe.sent ?probes @ rst"
      "outp s2 = outp ?s1 @ emit cfg (login_writes (accepts cfg pw))" "sound_run cfg s2" "shared s2 = shared ?s1"
      "authenticated s2 = (accepts cfg pw \<or> authenticated ?s1)" by blast
  have "list_all (probe_ok upper) ?probes" using assms(2) by (simp add: probe_ok_def list_all_iff)
  from by_probe.served_then [OF this 2(4,2)] obtain s3 where
    3: "mock_loop upper cfg s2 = mock_loop upper cfg s3" "inp s3 = rst"
      "outp s3 = outp s2 @ emit cfg (concat (map (probe_writes cfg) ?probes))" "sound_run cfg s3"
      "shared s3 = shared s2" "authenticated s3 = authenticated s2" by blast
  have "outp s3 = emit cfg (session_writes cfg pw)"
    unfolding 3(3) 2(3) f(4) by (simp add: session_writes_def)
  with m 2 3 f(5,6) show ?thesis by (intro exI [of _ s3]) simp
qed

lemma connect_served:
  assumes "greets cfg" and "quick cfg" and "plainly cc"
    and "username cc = Some user" and "password cc = Some pw"
    and "tcp_connect net (addr_of cc)
           = Inr \<lparr>rx = emit cfg (session_writes cfg pw) @ rst, wr = [], tx = [], tls = b\<rparr>"
  shows "\<exists>c'. connect net None cc c = (login_result (accepts cfg pw), c')
    \<and> transport c' = Some \<lparr>rx = rst, wr = [], tx = session_sent cfg user pw, tls = False\<rparr>
    \<and> (if accepts cfg pw then state c' = Ready \<and> capabilities c' = server_caps cfg else state c' = Error)
    \<and> compress_enabled c' = compress_enabled c"
proof -
  let ?r2 = "(if accepts cfg pw then emit cfg (concat (map (probe_writes cfg) (probe_sent cfg))) else []) @ rst"
  let ?r1 = "emit cfg (login_writes (accepts cfg pw)) @ ?r2"
  let ?t = "\<lparr>rx = emit cfg [status_line (welcome_code cfg) (welcome_message cfg)] @ ?r1, wr = [], tx = [], tls = False\<rparr>"
  let ?c = "c\<lparr>state := Connecting, transport := Some ?t\<rparr>"
  have d: "rbind (dial net cc (c\<lparr>state := Connecting\<rparr>)) (\<lambda>tcp c. rbind (install_transport net cc tcp c) k) = k () ?c"
    for k :: "unit \<Rightarrow> nntp_connection \<Rightarrow> unit nntp_result \<times> nntp_connection"
    using assms(3,6)
    by (simp add: dial_def plainly_def install_transport_def Let_def session_writes_def)
  have g: "list_all is_ascii (welcome_message cfg)" "LF \<notin> set (welcome_message cfg)" "welcome_message cfg \<noteq> []"
    "last (welcome_message cfg) \<noteq> CR" "100 \<le> welcome_code cfg" "welcome_code cfg < 1000"
    "welcome_code cfg \<in> {200, 201}" using assms(1) by (auto simp: greets_def)
  note f = fixed_status [OF assms(2) g(1-6)]
  from read_response_line_ok [of ?c ?t _ ?r1, OF _ _ f(1,2)] f(3) obtain c1 where
    1: "read_response_line ?c = (Inr \<lparr>code = welcome_code cfg, message = welcome_message cfg, data = None\<rparr>, c1)"
      "transport c1 = Some (?t\<lparr>rx := ?r1\<rparr>)" "compress_enabled c1 = compress_enabled c" by auto
  from client_login [OF assms(2,4,5) 1(2), of "accepts cfg pw" ?r2] obtain c2 where
    2: "authenticate cc c1 = (login_result (accepts cfg pw), c2)" "state c2 = (if accepts cfg pw then Ready else Error)"
      "transport c2 = Some (?t\<lparr>rx := ?r2, tx := auth_line ''USER'' user @ crlf @ auth_line ''PASS'' pw @ crlf\<rparr>)"
      "compress_enabled c2 = compress_enabled c1"
    by auto
  have n: "connect net None cc c
      = rbind (login_result (accepts cfg pw), c2) (\<lambda>_ c. (Inr (), probe_server cc c))"
    unfolding connect_def option.case connect_inner_def d 1(1) rbind_Inr
    using g(7) assms(4) 2(1) by (auto simp: check_welcome_def)
  show ?thesis
  proof (cases "accepts cfg pw")
    case True
    from client_probe [OF assms(2) _ 2(3), of cc] 1(3) 2(2,4) True assms(3) n show ?thesis
      by (simp add: login_result_def plainly_def session_sent_def)
  next
    case False
    with 1(3) 2 n show ?thesis by (simp add: login_result_def session_sent_def)
  qed
qed

text \<open>
  C10: Connecting to the server as a whole: with a login that fits on a line, \<open>connect\<close> reads the
  welcome, logs in, learns the capabilities and enters reader mode when it has to; it succeeds exactly
  when the server accepts the password and then ends \<open>Ready\<close> with the server's capabilities; what it
  has sent is the conversation the server took part in, whose answers it has read to the last byte.
\<close>

theorem connect_against_server:
  assumes "greets cfg" and "quick cfg" and "ascii_case upper" and "rate_limit sh = None" and "plainly cc"
    and "username cc = Some user" and "password cc = Some pw" and "credential user" and "credential pw"
    and "tcp_connect net (addr_of cc) = Inr \<lparr>rx = outp (mock_connection upper cfg
           (mock_conn_new sh [] t (session_sent cfg user pw))), wr = [], tx = [], tls = b\<rparr>"
  shows "\<exists>c' tr. connect net None cc c = (login_result (accepts cfg pw), c')
    \<and> transport c' = Some tr \<and> rx tr = [] \<and> tx tr = session_sent cfg user pw
    \<and> (if accepts cfg pw then state c' = Ready \<and> capabilities c' = server_caps cfg else state c' = Error)"
proof -
  from server_session [OF assms(1,3,4,8,9), of t "[]"] obtain s where
    "mock_connection upper cfg (mock_conn_new sh [] t (session_sent cfg user pw @ [])) = mock_loop upper cfg s"
    "inp s = []" "outp s = emit cfg (session_writes cfg pw)" by blast
  with assms(10) have "tcp_connect net (addr_of cc)
      = Inr \<lparr>rx = emit cfg (session_writes cfg pw) @ [], wr = [], tx = [], tls = b\<rparr>" by (simp add: mock_loop_end)
  from connect_served [OF assms(1,2,5-7) this, of c] show ?thesis by auto
qed

lemma connect_against_server_witness:
  "\<exists>c' tr. connect (sample_net (outp (mock_connection to_ascii_uppercase guarded_server
       (mock_conn_new shared_default [] 0 (session_sent guarded_server ''u'' ''p''))))) None
       (test_config_with_auth 119 ''u'' ''p'') (new_connection ''s'') = (Inr (), c')
     \<and> transport c' = Some tr \<and> state c' = Ready
     \<and> tx tr = ''AUTHINFO USER u'' @ crlf @ ''AUTHINFO PASS p'' @ crlf @ ''CAPABILITIES'' @ crlf"
proof -
  let ?cc = "test_config_with_auth 119 ''u'' ''p''"
  have g: "greets guarded_server" "quick guarded_server" "rate_limit shared_default = None"
    by (simp_all add: greets_def quick_def delay_of_def guarded_server_def mock_default_def shared_default_def
        READ_BODY_LINE_TIMEOUT_def is_ascii_def)
  have c: "plainly ?cc" "username ?cc = Some ''u''" "password ?cc = Some ''p''"
    by (simp_all add: plainly_def test_config_with_auth_def test_config_def)
  have w: "credential ''u''" "credential ''p''"
    by (simp_all add: credential_def utf8_valid_ascii is_ascii_def ws_trail_def ws1_def del: utf8_valid.simps)
  have a: "accepts guarded_server ''p''" by (simp add: accepts_def guarded_server_def)
  have s: "session_sent guarded_server ''u'' ''p''
      = ''AUTHINFO USER u'' @ crlf @ ''AUTHINFO PASS p'' @ crlf @ ''CAPABILITIES'' @ crlf"
    using a by (simp add: session_sent_def auth_line_def by_probe.sent_def probe_sent_def guarded_server_def mock_default_def)
  have "\<exists>c' tr. connect (sample_net (outp (mock_connection to_ascii_uppercase guarded_server
       (mock_conn_new shared_default [] 0 (session_sent guarded_server ''u'' ''p''))))) None ?cc (new_connection ''s'')
       = (login_result (accepts guarded_server ''p''), c')
     \<and> transport c' = Some tr \<and> rx tr = [] \<and> tx tr = session_sent guarded_server ''u'' ''p''
     \<and> (if accepts guarded_server ''p'' then state c' = Ready \<and> capabilities c' = server_caps guarded_server
        else state c' = Error)"
    by (rule connect_against_server [OF g(1,2) ascii_case_refl g(3) c w, where b = False and t = 0])
       (simp add: sample_net_def sample_transport_def)
  with a show ?thesis unfolding s by (auto simp: login_result_def)
qed

section \<open>From connect to the last article\<close>

text \<open>
  C7: A whole session with one connection of the server: the client connects with an accepted
  password and downloads any list of articles through a pipeline of any depth.  Every article the
  server has arrives as stored, with full line ends, every other is reported as missing, in order;
  the connection ends \<open>Ready\<close>; and all that went over the wire is the login, the probe and one
  ARTICLE line for each id, every answer to which has been read.
\<close>

theorem session_against_server:
  assumes "greets cfg" and "quick cfg" and "ascii_case upper" and "rate_limit sh = None"
    and "article_response_overrides cfg = []" and "article_response_sequences sh = None"
    and "plainly cc" and "username cc = Some user" and "password cc = Some pw"
    and "credential user" and "credential pw" and "accepts cfg pw"
    and "list_all clean_id (map req_message_id (pending p))" and "in_flight p = []" and "1 \<le> depth p"
    and "sent = session_sent cfg user pw @ ask ''ARTICLE'' (map req_message_id (pending p))"
    and "tcp_connect net (addr_of cc) = Inr \<lparr>rx = outp (mock_connection upper cfg (mock_conn_new sh [] t sent)),
           wr = [], tx = [], tls = b\<rparr>"
  shows "\<exists>c1 p' c2 tr. connect net None cc c = (Inr (), c1)
    \<and> process_all p c1
        = (Inr (map (\<lambda>q. \<lparr>res_request = q,
                  res_result = article_result cfg (req_message_id q) (req_message_id q)\<rparr>) (pending p)), p', c2)
    \<and> state c2 = Ready \<and> transport c2 = Some tr \<and> rx tr = [] \<and> tx tr = sent"
proof -
  let ?ids = "map req_message_id (pending p)"
  let ?rst = "emit cfg (concat (map (article_writes cfg) ?ids))"
  from server_session [OF assms(1,3,4,10,11), of t "ask ''ARTICLE'' ?ids"] assms(12,16) obtain s where
    s: "mock_connection upper cfg (mock_conn_new sh [] t sent) = mock_loop upper cfg s" "inp s = ask ''ARTICLE'' ?ids"
      "outp s = emit cfg (session_writes cfg pw)" "sound_run cfg s" "shared s = sh" "authenticated s" by auto
  have "plain_server cfg s" using s assms(5,6) by (simp add: plain_server_def)
  moreover have "list_all (id_request upper) ?ids" using assms(3,13) by (simp add: id_request_def list_all_iff)
  ultimately have "outp (mock_loop upper cfg s) = emit cfg (session_writes cfg pw) @ ?rst"
    using by_article.served [of upper ?ids cfg s] s(2,3) by (simp add: by_article.sent_def ask_def)
  then have "tcp_connect net (addr_of cc)
      = Inr \<lparr>rx = emit cfg (session_writes cfg pw) @ ?rst, wr = [], tx = [], tls = b\<rparr>"
    using assms(17) s(1) by simp
  from connect_served [OF assms(1,2,7-9) this, of c] assms(12) obtain c1 where
    1: "connect net None cc c = (Inr (), c1)" "state c1 = Ready"
      "transport c1 = Some \<lparr>rx = ?rst, wr = [], tx = session_sent cfg user pw, tls = False\<rparr>"
    by (auto simp: login_result_def)
  from pipeline_served [OF assms(2,13-15) 1(3)] 1 assms(16) show ?thesis by auto
qed

lemma session_against_server_witness:
  "\<exists>c1 p' c2. connect (sample_net (outp (mock_connection to_ascii_uppercase guarded_server
       (mock_conn_new shared_default [] 0 (session_sent guarded_server ''u'' ''p''
          @ ask ''ARTICLE'' [''a@b'', ''c'']))))) None (test_config_with_auth 119 ''u'' ''p'') (new_connection ''s'')
     = (Inr (), c1)
   \<and> process_all sample_requests c1
     = (Inr [\<lparr>res_request = \<lparr>req_message_id = ''a@b'', req_tag = 0\<rparr>, res_result = Inl (ArticleNotFound ''a@b'')\<rparr>,
             \<lparr>res_request = \<lparr>req_message_id = ''c'', req_tag = 1\<rparr>, res_result = Inl (ArticleNotFound ''c'')\<rparr>],
        p', c2) \<and> state c2 = Ready"
proof -
  let ?cc = "test_config_with_auth 119 ''u'' ''p''"
  let ?sent = "session_sent guarded_server ''u'' ''p'' @ ask ''ARTICLE'' (map req_message_id (pending sample_requests))"
  let ?net = "sample_net (outp (mock_connection to_ascii_uppercase guarded_server (mock_conn_new shared_default [] 0 ?sent)))"
  have p: "pending sample_requests = [\<lparr>req_message_id = ''a@b'', req_tag = 0\<rparr>, \<lparr>req_message_id = ''c'', req_tag = 1\<rparr>]"
    "in_flight sample_requests = []" "1 \<le> depth sample_requests"
    by (simp_all add: sample_requests_def submit_def pipeline_new_def)
  have ids: "list_all clean_id (map req_message_id (pending sample_requests))" by (simp add: p sample_ids)
  have g: "greets guarded_server" "quick guarded_server" "rate_limit shared_default = None"
    "article_response_overrides guarded_server = []" "article_response_sequences shared_default = None"
    "accepts guarded_server ''p''" "articles guarded_server = []"
    by (simp_all add: greets_def quick_def delay_of_def guarded_server_def mock_default_def shared_default_def
        READ_BODY_LINE_TIMEOUT_def is_ascii_def accepts_def)
  have c: "plainly ?cc" "username ?cc = Some ''u''" "password ?cc = Some ''p''"
    by (simp_all add: plainly_def test_config_with_auth_def test_config_def)
  have w: "credential ''u''" "credential ''p''"
    by (simp_all add: credential_def utf8_valid_ascii is_ascii_def ws_trail_def ws1_def del: utf8_valid.simps)
  have n: "tcp_connect ?net (addr_of ?cc) = Inr \<lparr>rx = outp (mock_connection to_ascii_uppercase guarded_server
      (mock_conn_new shared_default [] 0 ?sent)), wr = [], tx = [], tls = False\<rparr>"
    by (simp add: sample_net_def sample_transport_def)
  from session_against_server [OF g(1,2) ascii_case_refl g(3-5) c w g(6) ids p(2,3) refl n, of "new_connection ''s''"]
  show ?thesis by (auto simp: p(1) article_result_def g(7))
qed

section \<open>Asking for compression\<close>

definition listing :: "mock_config \<Rightarrow> bytes list" where
  "listing cfg = entry_writes (list_active_entries cfg) @ [terminator]"

lemma server_lists:
  assumes "plain_server cfg s" and "ascii_case upper" and "inp s = ''LIST EXTENSIONS'' @ crlf" and "outp s = []"
  shows "outp (mock_loop upper cfg s) = emit cfg ([''215 List of newsgroups follows'' @ crlf] @ listing cfg)"
proof -
  let ?s = "s\<lparr>inp := []\<rparr>"
  let ?ws = "[''215 List of newsgroups follows'' @ crlf] @ listing cfg"
  have s: "sound_run cfg ?s" "authenticated ?s" using assms(1) by (simp_all add: plain_server_def sound_run_def)
  have "list_all is_ascii ''LIST EXTENSIONS''" by (simp add: is_ascii_def)
  from utf8_valid_ascii [OF this] have t: "tidy ''LIST EXTENSIONS''"
    by (simp add: tidy_def ws_lead_def ws_trail_def ws1_def del: utf8_valid.simps)
  have p: "splitn 3 (CHR '' '') ''LIST EXTENSIONS'' = [''LIST'', ''EXTENSIONS'']" by (simp add: numeral_3_eq_3)
  have "\<not> eq_ignore_ascii_case ''EXTENSIONS'' ''OVERVIEW.FMT''" by code_simp
  then have "handle_list cfg [''LIST'', ''EXTENSIONS''] ?s = (True, wrote cfg ?ws ?s)"
    using s reply_sound(2) [OF s(1)] by (simp add: handle_list_def behind_login_def nth_opt_def listing_def)
  moreover have "upper ''LIST'' = ''LIST''" using assms(2) by (rule upper_verb) (simp add: is_verb_def)
  ultimately have "mock_command upper cfg ''LIST EXTENSIONS'' ?s = (True, counted (wrote cfg ?ws ?s))"
    using mock_command_sound [OF s(1), of upper "''LIST EXTENSIONS''"]
    by (simp add: p arg_def nth_opt_def mock_dispatch_def counted_def)
  with mock_loop_line [OF t, of s "[]" upper cfg] assms(3,4) show ?thesis by (simp add: mock_loop_end)
qed

text \<open>
  C38: Asking for compression can put a connection out of step: when a server answers the probe
  \<open>LIST EXTENSIONS\<close> with the 215 listing it gives for every other \<open>LIST\<close>, as the mock server does,
  the probe succeeds, but the whole listing is left unread for the next command to stumble over.
\<close>

theorem compression_probe_leaves_listing:
  assumes "plain_server cfg s" and "ascii_case upper" and "quick cfg" and "inp s = ''LIST EXTENSIONS'' @ crlf"
    and "outp s = []" and "transport c = Some tr" and "wr tr = []" and "rx tr = outp (mock_loop upper cfg s)"
  shows "\<exists>c'. negotiate_compression c = (Inr (), c') \<and> state c' = state c
    \<and> transport c' = Some (tr\<lparr>rx := emit cfg (listing cfg), tx := tx tr @ inp s\<rparr>)"
proof -
  let ?m = "''List of newsgroups follows''"
  have m: "list_all is_ascii ?m" "LF \<notin> set ?m" "?m \<noteq> []" "last ?m \<noteq> CR" "100 \<le> (215 :: nat)" "(215 :: nat) < 1000"
    by (simp_all add: is_ascii_def)
  have "show_nat 215 = ''215''" by code_simp
  then have "rx tr = emit cfg [status_line 215 ?m] @ emit cfg (listing cfg)"
    using server_lists [OF assms(1,2,4,5)] assms(8) by (simp add: status_line_def)
  from command_answered [OF assms(3) m assms(6,7) this, of "''LIST EXTENSIONS''"] assms(4)
  show ?thesis by (auto simp: negotiate_compression_def)
qed

lemma compression_probe_leaves_listing_witness:
  "\<exists>c'. negotiate_compression (sample_connection (outp (mock_loop to_ascii_uppercase sample_server
         (sample_side (''LIST EXTENSIONS'' @ crlf))))) = (Inr (), c')
     \<and> rx (the (transport c')) = [RxWait 5] @ map RxByte (''.'' @ crlf)"
proof -
  let ?i = "''LIST EXTENSIONS'' @ crlf"
  let ?r = "outp (mock_loop to_ascii_uppercase sample_server (sample_side ?i))"
  have c: "transport (sample_connection ?r) = Some (sample_transport ?r)" "wr (sample_transport ?r) = []"
    "rx (sample_transport ?r) = ?r" by (simp_all add: sample_connection_def sample_transport_def)
  have "emit sample_server (listing sample_server) = [RxWait 5] @ map RxByte (''.'' @ crlf)"
    by (simp add: listing_def entry_writes_def sample_server_def mock_default_def pause_before_def terminator_def)
  with compression_probe_leaves_listing [OF sample_server_plain(1) ascii_case_refl sample_server_plain(2)
      sample_server_plain(4,3) c] show ?thesis by auto
qed

end
