(* ===== verification/Download_End_To_End.thy ===== *)
theory Download_End_To_End
  imports Session_End_To_End Downloader_Laws
begin

text \<open>
  The whole library against test servers: a downloader with several servers, each behind its pool,
  each connection logged in to a mock server of its own.  The download is shown to be the fail-over
  an abstract specification describes.
\<close>

section \<open>ARTICLE on a connection in use\<close>

lemma fetch_article_reads:
  assumes "quick cfg" and "clean_id x" and "state c = Ready" and "\<not> compress_enabled c"
    and "transport c = Some tr" and "wr tr = []" and "rx tr = emit cfg (article_writes cfg x) @ r"
  shows "\<exists>c'. fetch_article gz x c = (article_result cfg (in_angles x) x, c') \<and> state c' = Ready
    \<and> \<not> compress_enabled c' \<and> transport c' = Some (tr\<lparr>rx := r, tx := tx tr @ ask ''ARTICLE'' [x]\<rparr>)"
proof -
  let ?cmd = "''ARTICLE '' @ in_angles x"
  let ?t = "tr\<lparr>tx := tx tr @ ?cmd @ crlf\<rparr>"
  let ?c = "c\<lparr>state := Busy, transport := Some ?t\<rparr>"
  have i: "ask ''ARTICLE'' [x] = ?cmd @ crlf" by (simp add: ask_def verb_line_def)
  show ?thesis
  proof (cases "map_of (articles cfg) x")
    case None
    then have "rx ?t = emit cfg [''430 No article: '' @ in_angles x @ crlf] @ r"
      using assms(7) by (simp add: article_writes_def lookup_writes_def)
    from read_miss [OF assms(1,2) _ this, of ?c] obtain c1 where
      1: "read_response_line ?c = (Inr \<lparr>code = 430, message = ''No article: '' @ in_angles x, data = None\<rparr>, c1)"
        "transport c1 = Some (?t\<lparr>rx := r\<rparr>)" "compress_enabled c1 = compress_enabled c" by auto
    have "exchange ?cmd (c\<lparr>state := Busy\<rparr>) = (Inr \<lparr>code = 430, message = ''No article: '' @ in_angles x, data = None\<rparr>, c1)"
      using exchange_parts [of "c\<lparr>state := Busy\<rparr>" tr ?cmd] assms(5,6) 1(1) by simp
    with 1(2,3) None i assms(3,4) show ?thesis
      by (simp add: fetch_article_def pipeline_mid_clean [OF assms(2)] finish_def article_result_def Let_def)
  next
    case (Some d)
    then have "rx ?t = emit cfg [show_nat 220 @ '' 0 '' @ in_angles x @ crlf] @ emit cfg (body_writes d) @ r"
      using assms(7) by (simp add: article_writes_def lookup_writes_def status_digits)
    from read_hit [OF assms(1,2) _ _ this, of ?c] obtain c1 where
      1: "read_response_line ?c = (Inr \<lparr>code = 220, message = ''0 '' @ in_angles x, data = None\<rparr>, c1)"
        "transport c1 = Some (?t\<lparr>rx := emit cfg (body_writes d) @ r\<rparr>)" "compress_enabled c1 = compress_enabled c" by auto
    from read_served_body [OF assms(1) 1(2), of d r] obtain c2 where
      2: "read_multiline_body c1 = (Inr (served_body d), c2)" "transport c2 = Some (?t\<lparr>rx := r\<rparr>)"
        "compress_enabled c2 = compress_enabled c1" by auto
    have "exchange ?cmd (c\<lparr>state := Busy\<rparr>) = (Inr \<lparr>code = 220, message = ''0 '' @ in_angles x, data = None\<rparr>, c1)"
      using exchange_parts [of "c\<lparr>state := Busy\<rparr>" tr ?cmd] assms(5,6) 1(1) by simp
    with 1(3) 2 Some i assms(3,4) show ?thesis
      by (simp add: fetch_article_def pipeline_mid_clean [OF assms(2)] finish_def article_result_def Let_def
          read_multiline_body_maybe_decompress_def looks_gzipped_def)
  qed
qed

section \<open>A server and its back end\<close>

text \<open>A configured server: how the client knows it, and the mock server it reaches.\<close>

record backend =
  bk_client :: server_config
  bk_server :: mock_config
  bk_user :: bytes
  bk_pass :: bytes

definition sound_backend :: "backend \<Rightarrow> bool" where
  "sound_backend b \<longleftrightarrow>
     greets (bk_server b) \<and> quick (bk_server b) \<and> article_response_overrides (bk_server b) = []
     \<and> accepts (bk_server b) (bk_pass b) \<and> credential (bk_user b) \<and> credential (bk_pass b)
     \<and> plainly (bk_client b) \<and> username (bk_client b) = Some (bk_user b)
     \<and> password (bk_client b) = Some (bk_pass b) \<and> enabled (bk_client b) \<and> 0 < connections (bk_client b)"

definition has_article :: "backend \<Rightarrow> article \<Rightarrow> bool" where
  "has_article b a \<longleftrightarrow> map_of (articles (bk_server b)) (message_id a) \<noteq> None"

definition backend_id :: "backend \<Rightarrow> bytes" where
  "backend_id b = cfg_id (bk_client b)"

text \<open>What the one connection to it sends when it is asked for the articles with these ids.\<close>

definition backend_sent :: "backend \<Rightarrow> bytes list \<Rightarrow> bytes" where
  "backend_sent b xs = session_sent (bk_server b) (bk_user b) (bk_pass b) @ ask ''ARTICLE'' xs"

text \<open>
  The network: in every round the first connection of the server's pool reaches the mock server, and
  what can be read from it are the answers to \<open>backend_sent\<close>; it connects within its budget.
\<close>

definition wired :: "(bytes \<Rightarrow> bytes) \<Rightarrow> dl_env \<Rightarrow> backend \<Rightarrow> bytes list \<Rightarrow> bool" where
  "wired upper env b xs \<longleftrightarrow>
     (\<forall>k. let e = pool_env_at env k; cid = backend_id b @ ''#1''
          in lapse_for e cid = None
             \<and> (\<exists>t z. tcp_connect (net_for e cid) (addr_of (bk_client b))
                  = Inr \<lparr>rx = outp (mock_connection upper (bk_server b)
                               (mock_conn_new shared_default [] t (backend_sent b xs))),
                         wr = [], tx = [], tls = z\<rparr>))"

lemma backend_rx:
  assumes "sound_backend b" and "ascii_case upper" and "list_all clean_id xs"
  shows "outp (mock_connection upper (bk_server b) (mock_conn_new shared_default [] t (backend_sent b xs)))
    = emit (bk_server b) (session_writes (bk_server b) (bk_pass b))
      @ emit (bk_server b) (concat (map (article_writes (bk_server b)) xs))"
proof -
  let ?cfg = "bk_server b"
  have b: "greets ?cfg" "rate_limit shared_default = None" "credential (bk_user b)" "credential (bk_pass b)"
    "accepts ?cfg (bk_pass b)" "article_response_overrides ?cfg = []"
    using assms(1) by (simp_all add: sound_backend_def shared_default_def)
  from server_session [OF b(1) assms(2) b(2-4), of t "ask ''ARTICLE'' xs"] obtain s where
    s: "mock_connection upper ?cfg (mock_conn_new shared_default [] t (backend_sent b xs)) = mock_loop upper ?cfg s"
      "inp s = ask ''ARTICLE'' xs" "outp s = emit ?cfg (session_writes ?cfg (bk_pass b))" "sound_run ?cfg s"
      "shared s = shared_default" "authenticated s = accepts ?cfg (bk_pass b)"
    unfolding backend_sent_def by blast
  have "plain_server ?cfg s" using s b by (simp add: plain_server_def shared_default_def)
  moreover have "list_all (id_request upper) xs" using assms(2,3) by (simp add: id_request_def list_all_iff)
  ultimately show ?thesis
    using by_article.served [of upper xs ?cfg s] s by (simp add: by_article.sent_def ask_def)
qed

section \<open>The state of a server during the download\<close>

definition ready_for :: "backend \<Rightarrow> server_state \<Rightarrow> bool" where
  "ready_for b s \<longleftrightarrow>
     srv_config s = bk_client b \<and> active s \<and> penalty_until s = None \<and> 0 < permits (srv_pool s)
     \<and> pool_config (srv_pool s) = bk_client b"

text \<open>Not used yet.\<close>

definition untouched :: "backend \<Rightarrow> server_state \<Rightarrow> bool" where
  "untouched b s \<longleftrightarrow> ready_for b s \<and> idle (srv_pool s) = [] \<and> created_count (srv_pool s) = 0"

text \<open>
  In use: the one connection it has made, parked at time \<open>t\<close>, has sent the commands for \<open>ys\<close>, and the answers for
  \<open>zs\<close> are still to be read.
\<close>

definition engaged :: "backend \<Rightarrow> bytes list \<Rightarrow> bytes list \<Rightarrow> int \<Rightarrow> server_state \<Rightarrow> bool" where
  "engaged b ys zs t s \<longleftrightarrow>
     ready_for b s \<and> created_count (srv_pool s) = 1
     \<and> (\<exists>pc tr. idle (srv_pool s) = [pc] \<and> last_used pc = t
          \<and> state (pc_conn pc) = Ready \<and> \<not> compress_enabled (pc_conn pc)
          \<and> transport (pc_conn pc) = Some tr \<and> wr tr = []
          \<and> rx tr = emit (bk_server b) (concat (map (article_writes (bk_server b)) zs))
          \<and> tx tr = backend_sent b ys)"

text \<open>Untouched until it is asked for the first id, in use from then on.\<close>

definition poised :: "backend \<Rightarrow> bytes list \<Rightarrow> bytes list \<Rightarrow> int \<Rightarrow> server_state \<Rightarrow> bool" where
  "poised b ys zs t s \<longleftrightarrow> (if ys = [] then untouched b s else engaged b ys zs t s)"

lemma ask_append: "ask v (xs @ ys) = ask v xs @ ask v ys"
  by (simp add: ask_def)

lemma backend_sent_snoc: "backend_sent b (ys @ [x]) = backend_sent b ys @ ask ''ARTICLE'' [x]"
  by (simp add: backend_sent_def ask_append)

lemma wait_for_ramp_up_frame:
  "wait_for_ramp_up p t = (p', t') \<Longrightarrow>
     idle p' = idle p \<and> permits p' = permits p \<and> created_count p' = created_count p \<and> pool_config p' = pool_config p"
  by (auto simp: wait_for_ramp_up_def Let_def split: if_splits)

text \<open>A pool without idle connections makes its first one.\<close>

lemma acquire_first:
  assumes "sound_backend b" and "ascii_case upper" and "wired upper env b zs" and "list_all clean_id zs"
    and "untouched b s"
  shows "\<exists>pc p t1 tr. acquire (pool_env_at env k) (srv_pool s) t = (Inr pc, p, t1)
    \<and> idle p = [] \<and> permits p = permits (srv_pool s) - 1 \<and> pool_config p = bk_client b \<and> created_count p = 1
    \<and> state (pc_conn pc) = Ready \<and> \<not> compress_enabled (pc_conn pc) \<and> transport (pc_conn pc) = Some tr
    \<and> wr tr = [] \<and> tx tr = backend_sent b []
    \<and> rx tr = emit (bk_server b) (concat (map (article_writes (bk_server b)) zs))"
proof -
  let ?e = "pool_env_at env k" and ?cid = "backend_id b @ ''#1''" and ?cfg = "bk_server b" and ?cc = "bk_client b"
  let ?p = "(srv_pool s)\<lparr>permits := permits (srv_pool s) - 1\<rparr>"
  from assms(5) have s: "0 < permits (srv_pool s)" "idle (srv_pool s) = []" "created_count (srv_pool s) = 0"
    "pool_config (srv_pool s) = ?cc" by (simp_all add: untouched_def ready_for_def)
  obtain p1 t1 where w: "wait_for_ramp_up ?p t = (p1, t1)" by force
  note p1 = wait_for_ramp_up_frame [OF w]
  from assms(3) obtain t0 z where lapse: "lapse_for ?e ?cid = None"
    and net: "tcp_connect (net_for ?e ?cid) (addr_of ?cc)
      = Inr \<lparr>rx = outp (mock_connection upper ?cfg (mock_conn_new shared_default [] t0 (backend_sent b zs))),
             wr = [], tx = [], tls = z\<rparr>"
    unfolding wired_def Let_def by blast
  note net' = net [unfolded backend_rx [OF assms(1,2,4)]]
  have b: "greets ?cfg" "quick ?cfg" "plainly ?cc" "username ?cc = Some (bk_user b)" "password ?cc = Some (bk_pass b)"
    "accepts ?cfg (bk_pass b)" using assms(1) by (simp_all add: sound_backend_def)
  from connect_served [OF b(1-5) net', of "new_connection ?cid"] b(6) obtain c' where
    c': "connect (net_for ?e ?cid) None ?cc (new_connection ?cid) = (Inr (), c')" "state c' = Ready"
      "transport c' = Some \<lparr>rx = emit ?cfg (concat (map (article_writes ?cfg) zs)), wr = [],
         tx = session_sent ?cfg (bk_user b) (bk_pass b), tls = False\<rparr>" "\<not> compress_enabled c'"
    by (auto simp: login_result_def new_connection_def)
  have n: "show_nat 1 = ''1''" by code_simp
  have "create_connection ?e ?p t
      = (Inr c', p1\<lparr>created_count := 1\<rparr>, t1 + elapsed_in (new_connection ?cid) c')"
    using p1 s(3,4) c'(1) lapse by (simp add: create_connection_def w [simplified] Let_def backend_id_def n [simplified])
  moreover have "take_permit ?e (srv_pool s) t = (Inr (), ?p, t)" using s(1) by (simp add: take_permit_def)
  moreover have "try_idle ?p t = (None, ?p, t)" using s(2) by (simp add: try_idle_def)
  ultimately have "acquire ?e (srv_pool s) t = (Inr \<lparr>pc_conn = c', last_used = t1 + elapsed_in (new_connection ?cid) c',
      armed = True\<rparr>, p1\<lparr>created_count := 1\<rparr>, t1 + elapsed_in (new_connection ?cid) c')"
    by (simp add: acquire_def)
  with p1 s(2,4) c'(2-4) show ?thesis by (simp add: backend_sent_def ask_def)
qed

text \<open>A pool whose connection has just been parked hands it out again.\<close>

lemma acquire_again:
  assumes "engaged b ys zs t s"
  shows "\<exists>pc p tr. acquire env (srv_pool s) t = (Inr pc, p, t)
    \<and> idle p = [] \<and> permits p = permits (srv_pool s) - 1 \<and> pool_config p = bk_client b \<and> created_count p = 1
    \<and> state (pc_conn pc) = Ready \<and> \<not> compress_enabled (pc_conn pc) \<and> transport (pc_conn pc) = Some tr
    \<and> wr tr = [] \<and> tx tr = backend_sent b ys
    \<and> rx tr = emit (bk_server b) (concat (map (article_writes (bk_server b)) zs))"
proof -
  from assms obtain pc tr where e: "idle (srv_pool s) = [pc]" "last_used pc = t" "state (pc_conn pc) = Ready"
    "\<not> compress_enabled (pc_conn pc)" "transport (pc_conn pc) = Some tr" "wr tr = []"
    "rx tr = emit (bk_server b) (concat (map (article_writes (bk_server b)) zs))" "tx tr = backend_sent b ys"
    "0 < permits (srv_pool s)" "pool_config (srv_pool s) = bk_client b" "created_count (srv_pool s) = 1"
    unfolding engaged_def ready_for_def by blast
  let ?p = "(srv_pool s)\<lparr>permits := permits (srv_pool s) - 1\<rparr>"
  have "healthy pc" using e(3,5) by (simp add: healthy_def is_connected_def)
  then have "try_idle ?p t = (Some (pc\<lparr>armed := True\<rparr>), ?p\<lparr>idle := []\<rparr>, t)"
    using e(1,2) by (simp add: try_idle_def Let_def IDLE_TIMEOUT_def)
  moreover have "take_permit env (srv_pool s) t = (Inr (), ?p, t)" using e(9) by (simp add: take_permit_def)
  ultimately have "acquire env (srv_pool s) t = (Inr (pc\<lparr>armed := True\<rparr>), ?p\<lparr>idle := []\<rparr>, t)"
    by (simp add: acquire_def)
  with e show ?thesis by simp
qed

text \<open>One attempt: data or a miss, and the connection parked for the next id.\<close>

definition body_of :: "backend \<Rightarrow> article \<Rightarrow> bytes" where
  "body_of b a = (case map_of (articles (bk_server b)) (message_id a) of None \<Rightarrow> [] | Some d \<Rightarrow> served_body d)"

lemma release_parks:
  assumes "state c = Ready" and "transport c \<noteq> None"
  shows "release \<lparr>pc_conn = c, last_used = u, armed = ar\<rparr> p t
    = p\<lparr>idle := idle p @ [\<lparr>pc_conn = c, last_used = t, armed = False\<rparr>], permits := permits p + 1\<rparr>"
  using assms by (simp add: release_def healthy_def is_connected_def add_permit_def)

lemma attempt_poised:
  assumes "sound_backend b" and "ascii_case upper" and "wired upper env b (ys @ message_id a # zs)"
    and "list_all clean_id (ys @ message_id a # zs)" and "poised b ys (message_id a # zs) t s"
  shows "\<exists>s' t'. attempt_on gz (pool_env_at env k) (message_id a) s t
      = ((if has_article b a then Some (body_of b a) else None), s', t')
    \<and> engaged b (ys @ [message_id a]) zs t' s'"
proof -
  let ?e = "pool_env_at env k" and ?x = "message_id a" and ?cfg = "bk_server b"
  have r: "ready_for b s" using assms(5) by (auto simp: poised_def untouched_def engaged_def split: if_splits)
  obtain pc p t1 tr where aq: "acquire ?e (srv_pool s) t = (Inr pc, p, t1)" "idle p = []"
    "permits p = permits (srv_pool s) - 1" "pool_config p = bk_client b \<and> created_count p = 1" "state (pc_conn pc) = Ready"
    "\<not> compress_enabled (pc_conn pc)" "transport (pc_conn pc) = Some tr" "wr tr = []" "tx tr = backend_sent b ys"
    "rx tr = emit ?cfg (concat (map (article_writes ?cfg) (?x # zs)))"
  proof (cases "ys = []")
    case True
    with assms(5) have "untouched b s" by (simp add: poised_def)
    with True acquire_first [OF assms(1,2), of env "?x # zs" s k t] assms(3,4) that show ?thesis by force
  next
    case False
    with assms(5) have "engaged b ys (?x # zs) t s" by (simp add: poised_def)
    from acquire_again [OF this, of ?e] that show ?thesis by blast
  qed
  have q: "quick ?cfg" "clean_id ?x" using assms(1,4) by (simp_all add: sound_backend_def)
  have rx: "rx tr = emit ?cfg (article_writes ?cfg ?x) @ emit ?cfg (concat (map (article_writes ?cfg) zs))"
    using aq(10) by simp
  from fetch_article_reads [OF q aq(5-8) rx, of gz] obtain c' where
    f: "fetch_article gz ?x (pc_conn pc) = (article_result ?cfg (in_angles ?x) ?x, c')" "state c' = Ready"
      "\<not> compress_enabled c'" "transport c' = Some (tr\<lparr>rx := emit ?cfg (concat (map (article_writes ?cfg) zs)),
         tx := tx tr @ ask ''ARTICLE'' [?x]\<rparr>)" by blast
  let ?t = "t1 + elapsed_in (pc_conn pc) c'"
  let ?pool = "p\<lparr>idle := [\<lparr>pc_conn = c', last_used = ?t, armed = False\<rparr>], permits := permits p + 1\<rparr>"
  have rel: "release (pc\<lparr>pc_conn := c'\<rparr>) p ?t = ?pool"
    using release_parks [OF f(2), of "last_used pc" "armed pc" p ?t] f(4) aq(2) by (cases pc) simp
  have eng: "engaged b (ys @ [?x]) zs ?t s'" if "srv_pool s' = ?pool" "srv_config s' = srv_config s"
      "active s' = active s" "penalty_until s' = penalty_until s" for s'
    using r that f aq by (simp add: engaged_def ready_for_def backend_sent_snoc)
  show ?thesis
  proof (cases "map_of (articles ?cfg) ?x")
    case None
    let ?s = "s\<lparr>srv_pool := p, connections_active := connections_active s + 1\<rparr>"
    have "attempt_on gz ?e ?x s t = (None, release_connection (pc\<lparr>pc_conn := c'\<rparr>) ?t (record_failure ?s), ?t)"
      using f(1) None by (simp add: attempt_on_def aq(1) article_result_def after_fetch_error_def Let_def)
    moreover have "engaged b (ys @ [?x]) zs ?t (release_connection (pc\<lparr>pc_conn := c'\<rparr>) ?t (record_failure ?s))"
      by (rule eng) (simp_all add: release_connection_def record_failure_def rel)
    ultimately show ?thesis using None by (simp add: has_article_def)
  next
    case (Some d)
    let ?s = "s\<lparr>srv_pool := p, connections_active := connections_active s + 1\<rparr>"
    let ?s' = "release_connection (pc\<lparr>pc_conn := c'\<rparr>) ?t (record_success (length (served_body d)) ?t ?s)"
    have "attempt_on gz ?e ?x s t = (Some (served_body d), ?s', ?t)"
      using f(1) Some by (simp add: attempt_on_def aq(1) article_result_def Let_def)
    moreover have "engaged b (ys @ [?x]) zs ?t ?s'"
      by (rule eng) (simp_all add: release_connection_def record_success_def rel)
    ultimately show ?thesis using Some by (simp add: has_article_def body_of_def)
  qed
qed

section \<open>The specification\<close>

text \<open>
  What a download over servers in this order is to give: the first server serves what it has, the next
  one is asked for the rest, and what none of them has is reported exhausted.
\<close>

fun fail_over :: "backend list \<Rightarrow> article list \<Rightarrow> article_result list" where
  "fail_over [] as = map exhausted as"
| "fail_over (b # bs) as =
     map (\<lambda>a. served a (backend_id b) (body_of b a)) (filter (has_article b) as)
     @ fail_over bs (filter (\<lambda>a. \<not> has_article b a) as)"

text \<open>The ids each server is asked for.\<close>

fun asked :: "backend list \<Rightarrow> article list \<Rightarrow> bytes list list" where
  "asked [] as = []"
| "asked (b # bs) as = map message_id as # asked bs (filter (\<lambda>a. \<not> has_article b a) as)"

section \<open>One server after the other\<close>

lemma ready_for_available: "ready_for b s \<Longrightarrow> is_available s t \<and> server_id_of s = backend_id b"
  by (simp add: ready_for_def is_available_def server_id_of_def backend_id_def)

lemma poised_ready: "poised b ys zs t s \<Longrightarrow> ready_for b s"
  by (auto simp: poised_def untouched_def engaged_def split: if_splits)

lemma pick_from_after:
  "\<forall>u \<in> set us. server_id_of u \<in> set tried \<Longrightarrow> is_available s t \<Longrightarrow> server_id_of s \<notin> set tried \<Longrightarrow>
     pick_from n (us @ s # vs) tried t = Some (n + length us, server_id_of s)"
  by (induction us arbitrary: n) auto

lemma pick_from_none: "\<forall>u \<in> set us. server_id_of u \<in> set tried \<Longrightarrow> pick_from n us tried t = None"
  by (induction us arbitrary: n) auto

lemma start_round_free:
  "controls_at env k = [] \<Longrightarrow> \<not> paused d \<Longrightarrow> \<not> shut_down d \<Longrightarrow> start_round env k d = (Go 0, d)"
  by (simp add: start_round_def wait_while_paused.simps is_paused_def)

definition requests :: "bytes list \<Rightarrow> article list \<Rightarrow> download_request list" where
  "requests tried as = map (\<lambda>a. \<lparr>dr_article = a, dr_tried = tried\<rparr>) as"

lemma one_level:
  assumes "sound_backend b" and "ascii_case upper" and "\<forall>k. controls_at env k = []"
    and "\<not> paused d" and "\<not> shut_down d" and "\<forall>u \<in> set us. server_id_of u \<in> set tried"
    and "backend_id b \<notin> set tried" and "wired upper env b (ys @ map message_id as)"
    and "list_all clean_id (ys @ map message_id as)" and "poised b ys (map message_id as) t s"
  shows "\<exists>k' t' s'. download_loop gz env k (requests tried as @ qs) (d\<lparr>servers := us @ s # vs\<rparr>) t rs
      = download_loop gz env k' (qs @ requests (tried @ [backend_id b]) (filter (\<lambda>a. \<not> has_article b a) as))
          (d\<lparr>servers := us @ s' # vs\<rparr>) t'
          (rs @ map (\<lambda>a. served a (backend_id b) (body_of b a)) (filter (has_article b) as))
    \<and> poised b (ys @ map message_id as) [] t' s'"
  using assms(8-10)
proof (induction as arbitrary: k qs ys t s rs)
  case Nil
  then show ?case by (auto simp: requests_def)
next
  case (Cons a as)
  let ?d = "d\<lparr>servers := us @ s # vs\<rparr>" and ?q = "\<lparr>dr_article = a, dr_tried = tried\<rparr>"
  have w: "wired upper env b (ys @ message_id a # map message_id as)"
    "list_all clean_id (ys @ message_id a # map message_id as)"
    "poised b ys (message_id a # map message_id as) t s" using Cons.prems by simp_all
  from attempt_poised [OF assms(1,2) w, of gz k] obtain s' t' where
    at: "attempt_on gz (pool_env_at env k) (message_id a) s t
      = ((if has_article b a then Some (body_of b a) else None), s', t')"
    and eng: "engaged b (ys @ [message_id a]) (map message_id as) t' s'" by blast
  have st: "start_round env k ?d = (Go 0, ?d)" using assms(3-5) by (intro start_round_free) simp_all
  have pk: "pick_server (servers ?d) tried t = Some (length us, backend_id b)"
    using pick_from_after [OF assms(6), of s t 0 vs] ready_for_available [OF poised_ready [OF w(3)], of t] assms(7)
    by (simp add: pick_server_def)
  let ?qs = "if has_article b a then qs else qs @ [\<lparr>dr_article = a, dr_tried = tried @ [backend_id b]\<rparr>]"
  let ?rs = "if has_article b a then rs @ [served a (backend_id b) (body_of b a)] else rs"
  have step: "download_loop gz env k (requests tried (a # as) @ qs) ?d t rs
      = download_loop gz env (Suc k) (requests tried as @ ?qs) (d\<lparr>servers := us @ s' # vs\<rparr>) t' ?rs"
    using st pk at by (simp add: requests_def download_loop.simps(2))
  have "poised b (ys @ [message_id a]) (map message_id as) t' s'" using eng by (simp add: poised_def)
  from Cons.IH [OF _ _ this, of "Suc k" ?qs ?rs] w show ?case
    unfolding step by (cases "has_article b a") (auto simp: requests_def)
qed

text \<open>
  What is left of a server that was asked for the ids \<open>xs\<close>: nothing at all when there were none, else
  the one connection that was ever made, idle, every answer read.
\<close>

definition kept_to :: "backend \<Rightarrow> bytes list \<Rightarrow> server_state \<Rightarrow> bool" where
  "kept_to b xs s \<longleftrightarrow>
     (if xs = [] then idle (srv_pool s) = [] \<and> created_count (srv_pool s) = 0
      else created_count (srv_pool s) = 1
        \<and> (\<exists>pc tr. idle (srv_pool s) = [pc] \<and> state (pc_conn pc) = Ready \<and> transport (pc_conn pc) = Some tr
             \<and> rx tr = [] \<and> tx tr = backend_sent b xs))"

lemma poised_kept: "poised b xs [] t s \<Longrightarrow> kept_to b xs s"
  by (auto simp: poised_def untouched_def engaged_def kept_to_def)

lemma all_exhausted:
  assumes "\<forall>k. controls_at env k = []" and "\<not> paused d" and "\<not> shut_down d"
    and "\<forall>u \<in> set (servers d). server_id_of u \<in> set tried"
  shows "download_loop gz env k (requests tried as) d t rs = (Returned (Inr ()), rs @ map exhausted as, d, t)"
proof (induction as arbitrary: k rs)
  case Nil
  show ?case by (simp add: requests_def download_loop.simps(1))
next
  case (Cons a as)
  have "start_round env k d = (Go 0, d)" using assms(1-3) by (intro start_round_free) simp_all
  moreover have "pick_server (servers d) tried t = None" using pick_from_none [OF assms(4)] by (simp add: pick_server_def)
  ultimately show ?case
    using Cons.IH [of "Suc k" "rs @ [exhausted a]"] by (simp add: requests_def download_loop.simps(2))
qed

lemma levels:
  assumes "ascii_case upper" and "\<forall>k. controls_at env k = []" and "\<not> paused d" and "\<not> shut_down d"
    and "list_all sound_backend bs" and "list_all2 untouched bs ss"
    and "map server_id_of us = tried" and "distinct (tried @ map backend_id bs)"
    and "list_all2 (wired upper env) bs (asked bs as)" and "list_all clean_id (map message_id as)"
  shows "\<exists>ss' t'. download_loop gz env k (requests tried as) (d\<lparr>servers := us @ ss\<rparr>) t rs
      = (Returned (Inr ()), rs @ fail_over bs as, d\<lparr>servers := us @ ss'\<rparr>, t')
    \<and> list_all2 (\<lambda>(b, xs). kept_to b xs) (zip bs (asked bs as)) ss'"
  using assms(5-10)
proof (induction bs arbitrary: k us ss tried as t rs)
  case Nil
  then have "\<forall>u \<in> set (servers (d\<lparr>servers := us @ ss\<rparr>)). server_id_of u \<in> set tried" by auto
  from all_exhausted [OF assms(2) _ _ this, of gz k as t rs] assms(3,4) Nil show ?case by simp
next
  case (Cons b bs)
  let ?as = "filter (\<lambda>a. \<not> has_article b a) as"
  from Cons.prems(2) obtain s vs where ss: "ss = s # vs" "untouched b s" "list_all2 untouched bs vs"
    by (auto simp: list_all2_Cons1)
  from Cons.prems have c: "sound_backend b" "list_all sound_backend bs" "wired upper env b ([] @ map message_id as)"
    "list_all2 (wired upper env) bs (asked bs ?as)" "backend_id b \<notin> set tried"
    "list_all clean_id ([] @ map message_id as)" "\<forall>u \<in> set us. server_id_of u \<in> set tried" by auto
  have "poised b [] (map message_id as) t s" using ss(2) by (simp add: poised_def)
  from one_level [OF c(1) assms(1-4) c(7,5,3,6) this, of gz k "[]" vs rs] obtain k' t' s' where
    1: "download_loop gz env k (requests tried as) (d\<lparr>servers := us @ s # vs\<rparr>) t rs
      = download_loop gz env k' (requests (tried @ [backend_id b]) ?as) (d\<lparr>servers := us @ s' # vs\<rparr>) t'
          (rs @ map (\<lambda>a. served a (backend_id b) (body_of b a)) (filter (has_article b) as))"
    "poised b (map message_id as) [] t' s'" by auto
  have "server_id_of s' = backend_id b" using ready_for_available [OF poised_ready [OF 1(2)]] by simp
  then have u: "map server_id_of (us @ [s']) = tried @ [backend_id b]" using Cons.prems(3) by simp
  have "distinct ((tried @ [backend_id b]) @ map backend_id bs)" "list_all clean_id (map message_id ?as)"
    using Cons.prems(4,6) by (auto simp: list_all_iff)
  from Cons.IH [OF c(2) ss(3) u this(1) c(4) this(2), of k' t'
      "rs @ map (\<lambda>a. served a (backend_id b) (body_of b a)) (filter (has_article b) as)"]
  show ?case unfolding ss(1) 1(1) using poised_kept [OF 1(2)] by (auto simp: list_all2_Cons1)
qed

section \<open>The download\<close>

lemma new_untouched: "sound_backend b \<Longrightarrow> untouched b (server_new (bk_client b) t)"
  by (simp add: sound_backend_def untouched_def ready_for_def server_new_def pool_new_def)

lemma download_against_backends:
  assumes "ascii_case upper" and "list_all sound_backend bs"
    and "map bk_client bs = filter enabled (sort_key priority cfgs)" and "distinct (map backend_id bs)"
    and "\<forall>k. controls_at env k = []" and "list_all2 (wired upper env) bs (asked bs arts)"
    and "list_all clean_id (map message_id arts)" and "\<forall>a \<in> set arts. tried_servers a = []"
  shows "\<exists>d' t'. download gz env arts (downloader_new cfgs bps t0) t
      = (Returned (Inr ()), fail_over bs arts, d', t')
    \<and> list_all2 (\<lambda>(b, xs). kept_to b xs) (zip bs (asked bs arts)) (servers d')"
proof -
  let ?d = "downloader_new cfgs bps t0"
  let ?ss = "map (\<lambda>b. server_new (bk_client b) t0) bs"
  have d: "servers ?d = ?ss" "\<not> paused ?d" "\<not> shut_down ?d"
    using assms(3) [symmetric] by (simp_all add: downloader_new_def comp_def)
  have u: "list_all2 untouched bs ?ss"
    using assms(2) new_untouched by (simp add: list_all2_conv_all_nth list_all_length)
  from levels [OF assms(1,5) d(2,3) assms(2) u, of "[]" "[]" arts gz 0 t "[]"] assms(4,6,7)
  obtain ss' t' where l: "download_loop gz env 0 (requests [] arts) (?d\<lparr>servers := ?ss\<rparr>) t []
      = (Returned (Inr ()), fail_over bs arts, ?d\<lparr>servers := ss'\<rparr>, t')"
    "list_all2 (\<lambda>(b, xs). kept_to b xs) (zip bs (asked bs arts)) ss'" by auto
  have same: "?d\<lparr>servers := ?ss\<rparr> = ?d" unfolding d(1) [symmetric] by (cases ?d) simp
  show ?thesis
  proof (cases "arts = []")
    case False
    have "map (\<lambda>a. \<lparr>dr_article = a, dr_tried = tried_servers a\<rparr>) arts = requests [] arts"
      using assms(8) by (simp add: requests_def)
    with False l show ?thesis by (simp add: download_def same)
  next
    case True
    have k: "fail_over bs [] = []" "asked bs [] = map (\<lambda>_. []) bs" by (induction bs) simp_all
    have "list_all2 (\<lambda>(b, xs). kept_to b xs) (zip bs (asked bs [])) ?ss"
      using u by (auto simp: k list_all2_conv_all_nth untouched_def kept_to_def)
    with True show ?thesis by (simp add: download_def k d(1))
  qed
qed

text \<open>
  C6: A download from any number of servers, each a mock server behind a pool, TCP and a login of its
  own, is the fail-over the specification describes: it returns, every article comes from the first
  server in order of priority that has it, with the body that server stores, what none has is reported
  exhausted, and the results stand in that order.  A server is asked exactly once for each article the
  servers before it lack, over the one connection its pool ever made, which ends up \<open>Ready\<close> and idle with
  every answer read; for a server asked for nothing no connection was made.
\<close>

theorem download_fails_over:
  assumes "ascii_case upper" and "list_all sound_backend bs"
    and "map bk_client bs = filter enabled (sort_key priority cfgs)" and "distinct (map backend_id bs)"
    and "\<forall>k. controls_at env k = []" and "list_all2 (wired upper env) bs (asked bs arts)"
    and "list_all clean_id (map message_id arts)" and "\<forall>a \<in> set arts. tried_servers a = []"
  shows "\<exists>d' t'. download gz env arts (downloader_new cfgs bps t0) t
      = (Returned (Inr ()), fail_over bs arts, d', t')
    \<and> list_all2 (\<lambda>(b, xs). kept_to b xs) (zip bs (asked bs arts)) (servers d')"
  by (rule download_against_backends) (use assms in auto)

text \<open>Three servers: the first one does not have the article, the second one does.\<close>

definition first_backend :: backend where
  "first_backend = \<lparr>bk_client = (test_config_with_auth 119 ''u'' ''p'')\<lparr>cfg_id := ''one''\<rparr>,
     bk_server = guarded_server, bk_user = ''u'', bk_pass = ''p''\<rparr>"

definition second_backend :: backend where
  "second_backend = \<lparr>bk_client = (test_config_with_auth 119 ''u'' ''p'')\<lparr>cfg_id := ''two'', priority := 1\<rparr>,
     bk_server = guarded_server\<lparr>articles := [(''a@b'', ''hi'')]\<rparr>, bk_user = ''u'', bk_pass = ''p''\<rparr>"

definition third_backend :: backend where
  "third_backend = \<lparr>bk_client = (test_config_with_auth 119 ''u'' ''p'')\<lparr>cfg_id := ''three'', priority := 2\<rparr>,
     bk_server = guarded_server, bk_user = ''u'', bk_pass = ''p''\<rparr>"

definition sample_configs :: "server_config list" where
  "sample_configs = [bk_client second_backend, bk_client third_backend, bk_client first_backend]"

definition sample_wire :: "backend \<Rightarrow> bytes list \<Rightarrow> net_env" where
  "sample_wire b xs = sample_net (outp (mock_connection to_ascii_uppercase (bk_server b)
     (mock_conn_new shared_default [] 0 (backend_sent b xs))))"

definition sample_network :: dl_env where
  "sample_network = \<lparr>controls_at = (\<lambda>_. []), polls_at = (\<lambda>_. []),
     pool_env_at = (\<lambda>_. \<lparr>net_for = (\<lambda>cid.
         if cid = ''one#1'' then sample_wire first_backend [''a@b'']
         else if cid = ''two#1'' then sample_wire second_backend [''a@b'']
         else sample_wire third_backend []),
       lapse_for = (\<lambda>_. None), meanwhile = []\<rparr>)\<rparr>"

lemma sample_backends:
  defines "bs \<equiv> [first_backend, second_backend, third_backend]"
  shows "list_all sound_backend bs"
    "map bk_client bs = filter enabled (sort_key priority sample_configs)"
    "distinct (map backend_id bs)" "\<forall>k. controls_at sample_network k = []"
    "list_all2 (wired to_ascii_uppercase sample_network) bs (asked bs [sample_article])"
    "list_all clean_id (map message_id [sample_article])" "\<forall>a \<in> set [sample_article]. tried_servers a = []"
    "fail_over bs [sample_article] = [served sample_article ''two'' (served_body ''hi'')]"
    "asked bs [sample_article] = [[''a@b''], [''a@b''], []]"
proof -
  have ids: "backend_id first_backend = ''one''" "backend_id second_backend = ''two''"
    "backend_id third_backend = ''three''"
    by (simp_all add: backend_id_def first_backend_def second_backend_def third_backend_def)
  have m: "\<not> has_article first_backend sample_article" "has_article second_backend sample_article"
    "message_id sample_article = ''a@b''" "tried_servers sample_article = []"
    "body_of second_backend sample_article = served_body ''hi''"
    by (simp_all add: has_article_def body_of_def first_backend_def second_backend_def guarded_server_def
        mock_default_def sample_article_def)
  show "list_all sound_backend bs"
    by (simp add: bs_def sound_backend_def first_backend_def second_backend_def third_backend_def greets_def quick_def delay_of_def
        guarded_server_def mock_default_def shared_default_def READ_BODY_LINE_TIMEOUT_def is_ascii_def accepts_def
        credential_def utf8_valid_ascii ws_trail_def ws1_def plainly_def test_config_with_auth_def test_config_def
        del: utf8_valid.simps)
  show "map bk_client bs = filter enabled (sort_key priority sample_configs)"
    by (simp add: bs_def sample_configs_def first_backend_def second_backend_def third_backend_def
        test_config_with_auth_def test_config_def)
  show "distinct (map backend_id bs)" by (simp add: bs_def ids)
  show "\<forall>k. controls_at sample_network k = []" by (simp add: sample_network_def)
  show "list_all2 (wired to_ascii_uppercase sample_network) bs (asked bs [sample_article])"
    by (simp add: bs_def m wired_def ids sample_network_def sample_wire_def sample_net_def sample_transport_def
        Let_def) blast
  show "list_all clean_id (map message_id [sample_article])" using sample_ids by (simp add: m)
  show "\<forall>a \<in> set [sample_article]. tried_servers a = []" by (simp add: m)
  show "fail_over bs [sample_article] = [served sample_article ''two'' (served_body ''hi'')]"
    "asked bs [sample_article] = [[''a@b''], [''a@b''], []]" by (simp_all add: bs_def m ids)
qed

lemma download_fails_over_witness:
  "\<exists>d' t'. download (\<lambda>_. ([], None)) sample_network [sample_article]
       (downloader_new sample_configs 0 0) 0
     = (Returned (Inr ()), [served sample_article ''two'' (served_body ''hi'')], d', t')
     \<and> map (\<lambda>s. created_count (srv_pool s)) (servers d') = [1, 1, 0]"
  using download_fails_over [OF ascii_case_refl sample_backends(1-7), of "\<lambda>_. ([], None)" 0 0 0,
      unfolded sample_backends(8,9)]
  by (auto simp: kept_to_def list_all2_Cons1)

text \<open>The same download as a plain fact.\<close>

lemma sample_fail_over:
  "\<exists>d' t'. download (\<lambda>_. ([], None)) sample_network [sample_article]
       (downloader_new sample_configs 0 0) 0
     = (Returned (Inr ()), [served sample_article ''two'' (served_body ''hi'')], d', t')"
  using download_against_backends [OF ascii_case_refl sample_backends(1-7), of "\<lambda>_. ([], None)" 0 0 0,
      unfolded sample_backends(8)]
  by auto

end
