(* ===== verification/Download_Trace.thy ===== *)
theory Download_Trace
  imports Download_End_To_End
begin

text \<open>
  A download with the log of its attempts: which article was asked of which server, in order, and what
  came of it.  The results of the download are told from the log.
\<close>

section \<open>The log\<close>

text \<open>An attempt: the article, the server, and the data it served, if any.\<close>

type_synonym attempt = "article \<times> bytes \<times> bytes option"

text \<open>
  From the queue \<open>reqs\<close> in round \<open>k\<close> on, the loop makes the attempts \<open>made\<close>, one for each call of
  \<open>attempt_on\<close>, and adds the results.
\<close>

inductive makes_attempts ::
  "gunzip \<Rightarrow> dl_env \<Rightarrow> nat \<Rightarrow> download_request list \<Rightarrow> downloader \<Rightarrow> int \<Rightarrow> attempt list
     \<Rightarrow> article_result list \<Rightarrow> bool" for gz env where
  empty: "makes_attempts gz env k [] d t [] []"
| ended: "start_round env k d = (r, d1) \<Longrightarrow> r = Halt \<or> r = Stuck \<Longrightarrow> makes_attempts gz env k (q # qs) d t [] []"
| none: "start_round env k d = (Go w, d1) \<Longrightarrow> pick_server (servers d1) (dr_tried q) (t + int w) = None \<Longrightarrow>
    makes_attempts gz env (Suc k) qs d1 (t + int w) made rs \<Longrightarrow>
    makes_attempts gz env k (q # qs) d t made (exhausted (dr_article q) # rs)"
| served: "start_round env k d = (Go w, d1) \<Longrightarrow>
    pick_server (servers d1) (dr_tried q) (t + int w) = Some (i, sid) \<Longrightarrow>
    attempt_on gz (pool_env_at env k) (message_id (dr_article q)) (servers d1 ! i) (t + int w)
      = (Some x, s', t') \<Longrightarrow>
    makes_attempts gz env (Suc k) qs (d1\<lparr>servers := (servers d1)[i := s']\<rparr>) t' made rs \<Longrightarrow>
    makes_attempts gz env k (q # qs) d t ((dr_article q, sid, Some x) # made) (served (dr_article q) sid x # rs)"
| missed: "start_round env k d = (Go w, d1) \<Longrightarrow>
    pick_server (servers d1) (dr_tried q) (t + int w) = Some (i, sid) \<Longrightarrow>
    attempt_on gz (pool_env_at env k) (message_id (dr_article q)) (servers d1 ! i) (t + int w)
      = (None, s', t') \<Longrightarrow>
    makes_attempts gz env (Suc k) (qs @ [q\<lparr>dr_tried := dr_tried q @ [sid]\<rparr>])
      (d1\<lparr>servers := (servers d1)[i := s']\<rparr>) t' made rs \<Longrightarrow>
    makes_attempts gz env k (q # qs) d t ((dr_article q, sid, None) # made) rs"

text \<open>Every run of the loop has a log, and its results are those of the run.\<close>

lemma loop_has_log:
  "\<exists>made new. makes_attempts gz env k reqs d t made new
     \<and> fst (snd (download_loop gz env k reqs d t rs)) = rs @ new"
proof (rule loop_rule [where P = "\<lambda>k reqs d t rs z. \<exists>made new. makes_attempts gz env k reqs d t made new
      \<and> fst (snd z) = rs @ new"], goal_cases)
  case (1 k d t rs)
  then show ?case using makes_attempts.empty by fastforce
next
  case (2 k q qs d t rs d1)
  then show ?case using makes_attempts.ended [OF 2] by fastforce
next
  case (3 k q qs d t rs d1)
  then show ?case using makes_attempts.ended [OF 3] by fastforce
next
  case (4 k q qs d t rs d1 w z)
  then show ?case using makes_attempts.none [OF 4(1,2)] by fastforce
next
  case (5 k q qs d t rs d1 w i sid x s' t' z)
  then show ?case using makes_attempts.served [OF 5(1-3)] by fastforce
next
  case (6 k q qs d t rs d1 w i sid s' t' z)
  then show ?case using makes_attempts.missed [OF 6(1-3)] by fastforce
qed

section \<open>What the log says\<close>

definition asked_of :: "attempt list \<Rightarrow> (article \<times> bytes) multiset" where
  "asked_of made = mset (map (\<lambda>(a, sid, x). (a, sid)) made)"

lemma asked_of_simps [simp]:
  "asked_of [] = {#}" "asked_of ((a, sid, x) # made) = add_mset (a, sid) (asked_of made)"
  by (simp_all add: asked_of_def)

text \<open>The requests that may still ask a server for an article.\<close>

definition open_for :: "article \<Rightarrow> bytes \<Rightarrow> download_request list \<Rightarrow> nat" where
  "open_for a sid reqs = length (filter (\<lambda>q. dr_article q = a \<and> sid \<notin> set (dr_tried q)) reqs)"

lemma open_for_simps [simp]:
  "open_for a sid [] = 0"
  "open_for a sid (q # qs) = (if dr_article q = a \<and> sid \<notin> set (dr_tried q) then 1 else 0) + open_for a sid qs"
  "open_for a sid (qs @ ps) = open_for a sid qs + open_for a sid ps"
  by (simp_all add: open_for_def)

lemma picked_id:
  assumes "start_round env k d = (Go w, d1)" and "pick_server (servers d1) tried u = Some (i, sid)"
  shows "sid \<in> server_ids d \<and> sid \<notin> set tried"
  using pick_server_Some [OF assms(2)] round_ids [OF assms(1)] by (auto simp: server_ids_def)

lemma asked_at_most:
  "makes_attempts gz env k reqs d t made rs \<Longrightarrow>
     count (asked_of made) (a, sid) \<le> (if sid \<in> server_ids d then open_for a sid reqs else 0)"
proof (induction rule: makes_attempts.induct)
  case (none k d w d1 q t qs made rs)
  then show ?case using round_ids [OF none(1)] by (auto split: if_splits)
next
  case (served k d w d1 q t i sid' x s' t' qs made rs)
  with picked_id [OF served(1,2)] round_ids [OF served(1)] attempt_server_ids [OF served(3)] show ?case
    by (auto split: if_splits)
next
  case (missed k d w d1 q t i sid' s' t' qs made rs)
  with picked_id [OF missed(1,2)] round_ids [OF missed(1)] attempt_server_ids [OF missed(3)] show ?case
    by (auto split: if_splits)
qed simp_all

lemma results_from_log:
  "makes_attempts gz env k reqs d t made rs \<Longrightarrow> r \<in> set rs \<Longrightarrow>
     (\<exists>sid x. r = served (ar_article r) sid x \<and> (ar_article r, sid, Some x) \<in> set made)
     \<or> r = exhausted (ar_article r)"
proof (induction rule: makes_attempts.induct)
  case (served k d w d1 q t i sid x s' t' qs made rs)
  then show ?case by (cases "r = Downloader.served (dr_article q) sid x") auto
qed auto

lemma attempts_in_results:
  "makes_attempts gz env k reqs d t made rs \<Longrightarrow> (a, sid, Some x) \<in> set made \<Longrightarrow> served a sid x \<in> set rs"
  by (induction rule: makes_attempts.induct) auto

lemma open_for_initial:
  "open_for a sid (map (\<lambda>a. \<lparr>dr_article = a, dr_tried = tried_servers a\<rparr>) arts)
     = (if sid \<notin> set (tried_servers a) then count (mset arts) a else 0)"
  by (induction arts) auto

text \<open>
  C22: The results of a download are told from its attempts.  There is a log of all attempts the download
  made, such that no server is asked for an article more often than the article stands in the batch
  (so once, for an article that stands there once: never again after a failure), and none that is not
  configured or that the article had been tried on before; every result is either data, which the
  server it names served in one of these attempts for this article, or the error that all servers are
  exhausted, with no server and the article's own message id; and nothing a server served is lost.
\<close>

theorem results_sound:
  assumes "download gz env arts d t = (out, rs, d', t')"
  shows "\<exists>made. makes_attempts gz env 0 (map (\<lambda>a. \<lparr>dr_article = a, dr_tried = tried_servers a\<rparr>) arts) d t made rs
    \<and> (\<forall>a sid. count (asked_of made) (a, sid)
          \<le> (if sid \<in> server_ids d \<and> sid \<notin> set (tried_servers a) then count (mset arts) a else 0))
    \<and> (\<forall>r \<in> set rs.
          (\<exists>sid x. ar_server_id r = Some sid \<and> ar_result r = Inr x \<and> (ar_article r, sid, Some x) \<in> set made)
          \<or> (ar_server_id r = None \<and> ar_result r = Inl (AllServersExhausted (message_id (ar_article r)))))
    \<and> (\<forall>a sid x. (a, sid, Some x) \<in> set made \<longrightarrow> served a sid x \<in> set rs)"
proof -
  let ?reqs = "map (\<lambda>a. \<lparr>dr_article = a, dr_tried = tried_servers a\<rparr>) arts"
  obtain made where l: "makes_attempts gz env 0 ?reqs d t made rs"
  proof (cases "arts = []")
    case True
    with assms that [of "[]"] show ?thesis by (auto simp: download_def intro: makes_attempts.empty)
  next
    case False
    with assms loop_has_log [of gz env 0 ?reqs d t "[]"] that show ?thesis by (auto simp: download_def)
  qed
  moreover have "count (asked_of made) (a, sid)
      \<le> (if sid \<in> server_ids d \<and> sid \<notin> set (tried_servers a) then count (mset arts) a else 0)" for a sid
    using asked_at_most [OF l, of a sid] by (auto simp: open_for_initial split: if_splits)
  moreover have "(\<exists>sid x. ar_server_id r = Some sid \<and> ar_result r = Inr x \<and> (ar_article r, sid, Some x) \<in> set made)
      \<or> (ar_server_id r = None \<and> ar_result r = Inl (AllServersExhausted (message_id (ar_article r))))"
    if "r \<in> set rs" for r
    using results_from_log [OF l that]
  proof (elim disjE exE conjE)
    fix sid x
    assume "r = served (ar_article r) sid x" "(ar_article r, sid, Some x) \<in> set made"
    moreover from this(1) have "ar_server_id r = Some sid" "ar_result r = Inr x"
      unfolding served_def by (metis article_result.select_convs(2,3))+
    ultimately show ?thesis by blast
  next
    assume "r = exhausted (ar_article r)"
    then show ?thesis unfolding exhausted_def by (metis article_result.select_convs(2,3))
  qed
  ultimately show ?thesis using attempts_in_results [OF l] by blast
qed

text \<open>
  The sample download: the first server is asked and misses, so the second one, and no other, is the one
  that is asked next and that served the data; the first one is asked no second time.
\<close>

lemma results_sound_witness:
  "\<exists>made rs d' t'. download (\<lambda>_. ([], None)) sample_network [sample_article] (downloader_new sample_configs 0 0) 0
       = (Returned (Inr ()), rs, d', t')
     \<and> (sample_article, ''two'', Some (served_body ''hi'')) \<in> set made
     \<and> makes_attempts (\<lambda>_. ([], None)) sample_network 0 [\<lparr>dr_article = sample_article, dr_tried = []\<rparr>]
         (downloader_new sample_configs 0 0) 0 made rs
     \<and> count (asked_of made) (sample_article, ''two'') \<le> 1 \<and> count (asked_of made) (sample_article, ''one'') \<le> 1"
proof -
  let ?d = "downloader_new sample_configs 0 0" and ?r = "served sample_article ''two'' (served_body ''hi'')"
  obtain d' t' where a: "download (\<lambda>_. ([], None)) sample_network [sample_article] ?d 0
      = (Returned (Inr ()), [?r], d', t')" using sample_fail_over by blast
  have t: "tried_servers sample_article = []" by (simp add: sample_article_def)
  from results_sound [OF a] obtain made where
    l: "makes_attempts (\<lambda>_. ([], None)) sample_network 0 [\<lparr>dr_article = sample_article, dr_tried = []\<rparr>] ?d 0 made [?r]"
      "\<And>x sid. count (asked_of made) (x, sid) \<le> (if sid \<in> server_ids ?d \<and> sid \<notin> set (tried_servers x)
          then count (mset [sample_article]) x else 0)"
      "(sample_article, ''two'', Some (served_body ''hi'')) \<in> set made"
    by (auto simp: t served_def)
  have "count (asked_of made) (sample_article, sid) \<le> 1" for sid
    using l(2) [of sample_article sid] by (auto split: if_splits)
  with a l(1,3) show ?thesis by blast
qed

end
