(* ===== verification/Text_Laws.thy ===== *)
theory Text_Laws
  imports Posting Listings
begin

text \<open>
  Text and numbers keep their types.  The source's \<open>String\<close>s are UTF-8 and its numbers fit their
  machine types; the model keeps both as byte lists and naturals.  Here is why that is no loss: the
  string operations take UTF-8 to UTF-8, and whatever bytes a server sends, what the client makes of
  them is a value of the type the source gives it.
\<close>

section \<open>Characters\<close>

definition continuation :: "byte \<Rightarrow> bool" where
  "continuation b \<longleftrightarrow> 0x80 \<le> byte_val b \<and> byte_val b \<le> 0xBF"

text \<open>Where a text may be cut: before a byte that starts a character, or at its end.\<close>

definition boundary :: "bytes \<Rightarrow> bool" where
  "boundary s \<longleftrightarrow> s = [] \<or> \<not> continuation (hd s)"

lemma boundary_simps [simp]: "boundary []" "boundary (b # s) \<longleftrightarrow> \<not> continuation b"
  by (simp_all add: boundary_def)

lemma ascii_starts [simp]: "is_ascii b \<Longrightarrow> \<not> continuation b"
  by (simp add: is_ascii_def continuation_def)

text \<open>What an accepting decoder step looks at.\<close>

definition char_step :: "(bytes \<Rightarrow> bool \<times> nat) \<Rightarrow> bool" where
  "char_step f \<longleftrightarrow> (\<forall>r. fst (f r) \<longrightarrow>
     0 < snd (f r) \<and> snd (f r) - 1 \<le> length r \<and> list_all continuation (take (snd (f r) - 1) r)
     \<and> f (take (snd (f r) - 1) r) = f r)"

lemma char_step_two: "char_step utf8_two"
  unfolding char_step_def by (intro allI, rule_tac r = r in list_cases4)
    (auto simp: utf8_two_def continuation_def)

lemma char_step_three: "0x80 \<le> lo \<Longrightarrow> hi \<le> 0xBF \<Longrightarrow> char_step (utf8_three lo hi)"
  unfolding char_step_def by (intro allI, rule_tac r = r in list_cases4)
    (auto simp: utf8_three_def continuation_def numeral_2_eq_2)

lemma char_step_four: "0x80 \<le> lo \<Longrightarrow> hi \<le> 0xBF \<Longrightarrow> char_step (utf8_four lo hi)"
  unfolding char_step_def by (intro allI, rule_tac r = r in list_cases4)
    (auto simp: utf8_four_def continuation_def numeral_2_eq_2 numeral_3_eq_3)

lemma char_step_one: "char_step (\<lambda>_. (True, 1))" and char_step_none: "char_step (\<lambda>_. (False, 1))"
  by (simp_all add: char_step_def)

lemma char_step_if:
  "char_step f \<Longrightarrow> char_step g \<Longrightarrow> char_step (\<lambda>r. if b then f r else g r)"
  by (cases b) simp_all

lemma char_step_utf8: "char_step (utf8_step a)"
  unfolding utf8_step_def [abs_def] Let_def
  by (intro char_step_if char_step_one char_step_none char_step_two char_step_three char_step_four) simp_all

text \<open>A text that starts with a character: the character, and the text behind it.\<close>

lemma first_char:
  assumes "utf8_valid (a # r)"
  obtains k s where "r = k @ s" "list_all continuation k" "utf8_valid (a # k)" "utf8_valid s"
    "utf8_step a r = (True, Suc (length k))" "utf8_step a k = (True, Suc (length k))"
proof -
  let ?n = "snd (utf8_step a r) - 1"
  from assms have ok: "fst (utf8_step a r)" and rest: "utf8_valid (drop ?n r)" by simp_all
  with char_step_utf8 [of a] have c: "0 < snd (utf8_step a r)" "?n \<le> length r"
    "list_all continuation (take ?n r)" "utf8_step a (take ?n r) = utf8_step a r"
    unfolding char_step_def by blast+
  then have l: "length (take ?n r) = ?n" by simp
  show thesis
  proof (rule that)
    show "r = take ?n r @ drop ?n r" by simp
    show "utf8_step a r = (True, Suc (length (take ?n r)))"
      using ok c(1) l by (simp add: prod_eq_iff)
    with c(4) show "utf8_step a (take ?n r) = (True, Suc (length (take ?n r)))" by simp
    then show "utf8_valid (a # take ?n r)" by simp
  qed (use c rest in auto)
qed

lemma utf8_induct [consumes 1, case_names Nil char]:
  assumes "utf8_valid s" and "P []"
    and "\<And>a k s. \<lbrakk>list_all continuation k; utf8_valid (a # k); utf8_step a k = (True, Suc (length k));
          utf8_valid s; P s\<rbrakk> \<Longrightarrow> P (a # k @ s)"
  shows "P s"
  using assms(1)
proof (induction "length s" arbitrary: s rule: less_induct)
  case less
  show ?case
  proof (cases s)
    case (Cons a r)
    with less.prems obtain k s' where "r = k @ s'" "list_all continuation k" "utf8_valid (a # k)"
      "utf8_valid s'" "utf8_step a k = (True, Suc (length k))"
      by (metis first_char)
    with less.hyps [of s'] Cons show ?thesis by (auto intro: assms(3))
  qed (simp add: assms(2))
qed

lemma utf8_valid_ascii_Cons [simp]: "is_ascii a \<Longrightarrow> utf8_valid (a # s) = utf8_valid s"
  by (simp add: utf8_step_ascii)

lemma utf8_valid_cut:
  assumes "utf8_valid (p @ q)" and "boundary q"
  shows "utf8_valid p \<and> utf8_valid q"
proof -
  from assms have "utf8_valid p"
  proof (induction "p @ q" arbitrary: p rule: utf8_induct)
    case (char a k s)
    show ?case
    proof (cases p)
      case (Cons b p')
      with char have e: "a = b" "k @ s = p' @ q" by simp_all
      then consider t where "p' = k @ t" "s = t @ q" | t where "k = p' @ t" "q = t @ s" "t \<noteq> []"
        by (metis append_eq_append_conv2 append_Nil2 self_append_conv)
      then show ?thesis
      proof cases
        case 1
        with char e Cons utf8_valid_append [of "a # k" t] show ?thesis by simp
      next
        case 2
        with char show ?thesis by (cases t) simp_all
      qed
    qed simp
  qed simp
  with assms(1) show ?thesis using utf8_valid_append by blast
qed

lemma utf8_valid_lossy [simp]: "utf8_valid (from_utf8_lossy s)"
proof (induction s rule: from_utf8_lossy.induct)
  case (2 a r)
  let ?n = "snd (utf8_step a r) - 1"
  have "utf8_valid (if fst (utf8_step a r) then a # take ?n r else utf8_replacement)"
  proof (cases "fst (utf8_step a r)")
    case True
    with char_step_utf8 [of a] have "utf8_step a (take ?n r) = utf8_step a r" "?n \<le> length r"
      unfolding char_step_def by blast+
    with True show ?thesis by simp
  qed (simp add: utf8_replacement_def utf8_step_def utf8_three_def)
  with 2 show ?case by (simp only: from_utf8_lossy.simps Let_def utf8_valid_append)
qed simp

section \<open>String operations\<close>

lemma valid_rev_dropWhile:
  assumes "\<forall>c. P c \<longrightarrow> is_ascii c"
  shows "utf8_valid (rev s) \<Longrightarrow> utf8_valid (rev (dropWhile P s))"
proof (induction s)
  case (Cons c s)
  show ?case
  proof (cases "P c")
    case True
    with assms have "boundary [c]" by simp
    with Cons True utf8_valid_cut [of "rev s" "[c]"] show ?thesis by simp
  qed (use Cons in simp)
qed simp

lemma valid_dropWhile:
  assumes "\<forall>c. P c \<longrightarrow> is_ascii c"
  shows "utf8_valid s \<Longrightarrow> utf8_valid (dropWhile P s)"
  using assms by (induction s) (auto simp del: utf8_valid.simps(2))

lemma valid_trim_end_crlf: "utf8_valid s \<Longrightarrow> utf8_valid (trim_end_crlf s)"
  unfolding trim_end_crlf_def by (rule valid_rev_dropWhile) (auto simp: is_ascii_def)

lemma valid_trim_matches:
  "\<lbrakk>utf8_valid s; \<forall>c. P c \<longrightarrow> is_ascii c\<rbrakk> \<Longrightarrow> utf8_valid (trim_matches P s)"
  unfolding trim_matches_def by (intro valid_rev_dropWhile) (simp_all add: valid_dropWhile)

lemma valid_strip_cr: "utf8_valid s \<Longrightarrow> utf8_valid (strip_cr s)"
  using utf8_valid_cut [of "butlast s" "[CR]"]
  by (auto simp: strip_cr_def is_ascii_def) (metis append_butlast_last_id)

lemma valid_drop_char: "utf8_valid s \<Longrightarrow> utf8_valid (skip_char s)"
  by (auto simp: skip_char_def split: list.split)

lemma valid_drop_ascii: "\<lbrakk>utf8_valid s; list_all is_ascii (take n s)\<rbrakk> \<Longrightarrow> utf8_valid (drop n s)"
proof (induction n arbitrary: s)
  case (Suc n)
  then show ?case by (cases s) (auto simp del: utf8_valid.simps(2))
qed simp

text \<open>The separators of the scans are not continuation bytes, so no character is cut.\<close>

lemma split_on_continuation:
  assumes "list_all continuation k" "is_ascii d"
  shows "split_on d (k @ s) = (k @ hd (split_on d s)) # tl (split_on d s)"
  using assms(1)
proof (induction k)
  case (Cons b k)
  with assms(2) have "b \<noteq> d" by auto
  with Cons show ?case by simp
qed simp

lemma valid_split_on: "\<lbrakk>utf8_valid s; is_ascii d\<rbrakk> \<Longrightarrow> list_all utf8_valid (split_on d s)"
proof (induction s rule: utf8_induct)
  case (char a k s)
  then obtain p ps where s: "split_on d s = p # ps" by (meson neq_Nil_conv split_on_neq_Nil)
  show ?case
  proof (cases "a = d")
    case True
    with char have "k = []" by (auto simp: utf8_step_ascii)
    with True char show ?thesis by simp
  next
    case False
    with char s split_on_continuation [OF char(1,6), of s] utf8_valid_append [OF char(2), of p]
    show ?thesis by simp
  qed
qed simp

lemma valid_str_lines: "utf8_valid s \<Longrightarrow> list_all utf8_valid (str_lines s)"
proof -
  assume "utf8_valid s"
  then have "list_all utf8_valid (split_on LF s)" by (rule valid_split_on) (simp add: is_ascii_def)
  then have "\<forall>p \<in> set (split_on LF s). utf8_valid p" by (simp add: list_all_iff)
  then show ?thesis
    by (auto simp: str_lines_def Let_def list_all_iff intro!: valid_strip_cr dest: in_set_butlastD)
qed

lemma ws_len_char:
  "\<lbrakk>utf8_step a k = (True, Suc (length k)); ws_len (a # k @ s) = Suc n\<rbrakk> \<Longrightarrow> n = length k"
  by (cases k rule: list_cases4; cases s rule: list_cases4)
    (auto simp: utf8_step_def utf8_two_def utf8_three_def utf8_four_def ws1_def ws2_def ws3_def Let_def split: if_splits)

lemma valid_trim_start: "utf8_valid s \<Longrightarrow> utf8_valid (trim_start s)"
proof (induction s rule: utf8_induct)
  case (char a k s)
  show ?case
  proof (cases "ws_len (a # k @ s)")
    case 0
    with char utf8_valid_append [of "a # k" s] show ?thesis by simp
  next
    case (Suc n)
    with ws_len_char [OF char(3)] char show ?thesis by simp
  qed
qed simp

text \<open>From the end: a whitespace character starts with a byte that is no continuation.\<close>

lemma ws_len_rev_boundary:
  "ws_len_rev (c # s) = Suc n \<Longrightarrow> Suc n \<le> Suc (length s) \<and> boundary (rev (take (Suc n) (c # s)))"
  by (cases s rule: list_cases4)
    (auto simp: continuation_def ws1_def ws2_def ws3_def take_Suc_Cons split: if_splits)

lemma valid_trim_start_rev: "utf8_valid (rev s) \<Longrightarrow> utf8_valid (rev (trim_start_rev s))"
proof (induction s rule: trim_start_rev.induct)
  case (2 c s)
  show ?case
  proof (cases "ws_len_rev (c # s)")
    case (Suc n)
    have "rev (c # s) = rev (drop n s) @ rev (take (Suc n) (c # s))"
      by (metis append_take_drop_id drop_Suc_Cons rev_append)
    with 2(2) ws_len_rev_boundary [OF Suc] have "utf8_valid (rev (drop n s))"
      by (metis utf8_valid_cut)
    with 2(1) [OF Suc] Suc show ?thesis by simp
  qed (use 2 in simp)
qed simp

lemma valid_trim: "utf8_valid s \<Longrightarrow> utf8_valid (trim s)"
  unfolding trim_def trim_end_def
  by (intro valid_trim_start_rev) (simp add: valid_trim_start)

lemma ws_len_continuation: "continuation b \<Longrightarrow> ws_len (b # s) = 0"
  by (cases s rule: list_cases4) (auto simp: continuation_def ws1_def ws2_def ws3_def)

lemma ws_pieces_continuation:
  "list_all continuation k \<Longrightarrow> ws_pieces (k @ s) = (k @ hd (ws_pieces s)) # tl (ws_pieces s)"
proof (induction k)
  case Nil
  then show ?case by simp
next
  case (Cons b k)
  then show ?case by (simp add: ws_len_continuation)
qed

lemma valid_ws_pieces: "utf8_valid s \<Longrightarrow> list_all utf8_valid (ws_pieces s)"
proof (induction s rule: utf8_induct)
  case (char a k s)
  then obtain p ps where s: "ws_pieces s = p # ps" by (meson neq_Nil_conv ws_pieces_neq_Nil)
  show ?case
  proof (cases "ws_len (a # k @ s)")
    case 0
    with char s ws_pieces_continuation [OF char(1), of s] utf8_valid_append [OF char(2), of p]
    show ?thesis by simp
  next
    case (Suc n)
    with ws_len_char [OF char(3)] char show ?thesis by simp
  qed
qed simp

lemma valid_split_whitespace: "utf8_valid s \<Longrightarrow> list_all utf8_valid (split_whitespace s)"
  using valid_ws_pieces by (auto simp: split_whitespace_def list_all_iff)

end
