(* ===== verification/Typing_Laws.thy ===== *)
theory Typing_Laws
  imports Text_Laws Wire_Laws Runs
begin

text \<open>
  What the commands return has the types the source gives it, whatever the server sends: three-digit
  codes, numbers that fit \<open>u64\<close>, UTF-8 texts.
\<close>

section \<open>Types\<close>

definition u64 :: "nat \<Rightarrow> bool" where "u64 n \<longleftrightarrow> n < 2 ^ 64"

definition typed_response :: "nntp_response \<Rightarrow> bool" where
  "typed_response r \<longleftrightarrow> code r < 1000 \<and> utf8_valid (message r)"

definition typed_group :: "group_response \<Rightarrow> bool" where
  "typed_group g \<longleftrightarrow> u64 (grp_count g) \<and> u64 (grp_first g) \<and> u64 (grp_last g) \<and> utf8_valid (grp_name g)"

definition typed_xover :: "xover_entry \<Rightarrow> bool" where
  "typed_xover e \<longleftrightarrow>
     u64 (xo_article_num e) \<and> u64 (xo_bytes e) \<and> u64 (xo_lines e)
     \<and> list_all utf8_valid [xo_subject e, xo_from e, xo_date e, xo_message_id e, xo_references e]"

definition typed_header :: "header_entry \<Rightarrow> bool" where
  "typed_header e \<longleftrightarrow> u64 (he_article_num e) \<and> utf8_valid (he_value e)"

definition typed_active :: "list_active_entry \<Rightarrow> bool" where
  "typed_active e \<longleftrightarrow> utf8_valid (la_name e) \<and> u64 (la_high e) \<and> u64 (la_low e) \<and> utf8_valid (la_status e)"

section \<open>Parsers\<close>

lemma u64_0 [simp]: "u64 0"
  by (simp add: u64_def)

lemma parse_u64_typed: "parse_u64 s = Some n \<Longrightarrow> u64 n"
  unfolding u64_def by (rule parse_u64_bound)

lemma parse_u64_or_0_typed [simp]: "u64 (parse_u64_or_0 s)"
  unfolding u64_def by (rule parse_u64_or_0_bound)

lemma parse_response_line_typed:
  assumes "utf8_valid line" and "parse_response_line line = Inr r"
  shows "typed_response r"
proof -
  let ?t = "trim_end_crlf line"
  from assms(2) have d: "list_all is_digit (take 3 ?t)"
    and r: "r = \<lparr>code = decimal (take 3 ?t), message = skip_char (drop 3 ?t), data = None\<rparr>"
    by (auto simp: parse_response_line_def Let_def split: if_splits)
  from d have "list_all is_ascii (take 3 ?t)" by (auto simp: list_all_iff is_digit_ascii)
  then have "utf8_valid (skip_char (drop 3 ?t))"
    using assms(1) by (intro valid_drop_char valid_drop_ascii valid_trim_end_crlf)
  moreover from decimal_three_bound [OF d] have "decimal (take 3 ?t) < 1000" by simp
  ultimately show ?thesis by (simp add: r typed_response_def)
qed

lemma list_all_map_filter:
  "(\<And>x y. P x \<Longrightarrow> f x = Some y \<Longrightarrow> Q y) \<Longrightarrow> list_all P xs \<Longrightarrow> list_all Q (List.map_filter f xs)"
  by (auto simp: list_all_iff List.map_filter_def)

lemma valid_lines [simp]: "list_all utf8_valid (str_lines (from_utf8_lossy d))"
  by (simp add: valid_str_lines)

lemma parse_xover_line_typed:
  assumes "utf8_valid line" and "parse_xover_line line = Some e"
  shows "typed_xover e"
proof -
  from assms(1) have "list_all utf8_valid (split_on HT line)"
    by (rule valid_split_on) (simp add: is_ascii_def)
  then have "utf8_valid (split_on HT line ! i)" if "i < length (split_on HT line)" for i
    using that by (simp add: list_all_length)
  with assms(2) show ?thesis
    by (auto simp: parse_xover_line_def Let_def typed_xover_def is_ascii_def
        intro!: valid_trim_matches split: if_splits)
qed

lemma parse_header_line_typed:
  assumes "utf8_valid line" and "parse_header_line line = Some e"
  shows "typed_header e"
proof -
  from assms(2) obtain num rest n where s: "split_at_blank (trim line) = Some (num, rest)"
    and n: "parse_u64 num = Some n" and e: "e = \<lparr>he_article_num = n, he_value = trim_start rest\<rparr>"
    by (auto simp: parse_header_line_def Let_def split: if_splits option.splits prod.splits)
  let ?blank = "\<lambda>c. c = CHR '' '' \<or> c = HT"
  from s have "rest = dropWhile (\<lambda>c. \<not> ?blank c) (trim line)"
    by (auto simp: split_at_blank_def Let_def dropWhile_eq_drop split: if_splits)
  moreover have "boundary (dropWhile (\<lambda>c. \<not> ?blank c) s)" for s
    by (induction s) (auto simp: is_ascii_def)
  moreover have "utf8_valid (takeWhile (\<lambda>c. \<not> ?blank c) (trim line) @ dropWhile (\<lambda>c. \<not> ?blank c) (trim line))"
    using assms(1) by (simp add: valid_trim)
  ultimately have "utf8_valid rest" by (metis utf8_valid_cut)
  with n e show ?thesis by (simp add: typed_header_def parse_u64_typed valid_trim_start)
qed

lemma nth_pieces: "\<lbrakk>utf8_valid s; i < length (split_whitespace s)\<rbrakk> \<Longrightarrow> utf8_valid (split_whitespace s ! i)"
  using valid_split_whitespace [of s] by (simp add: list_all_length)

lemma parse_list_active_line_typed:
  "\<lbrakk>utf8_valid line; parse_list_active_line line = Some e\<rbrakk> \<Longrightarrow> typed_active e"
  by (auto simp: parse_list_active_line_def Let_def typed_active_def valid_trim
      intro!: nth_pieces split: if_splits)

lemma parse_group_message_typed:
  "\<lbrakk>utf8_valid nm; utf8_valid msg; parse_group_message nm msg = Inr g\<rbrakk> \<Longrightarrow> typed_group g"
  by (auto simp: parse_group_message_def Let_def typed_group_def intro!: nth_pieces split: if_splits)

lemma parsers_typed [simp]:
  "list_all typed_xover (parse_xover_data d)" "list_all typed_header (parse_header_data d)"
  "list_all typed_active (parse_list_active_data d)"
  unfolding parse_xover_data_def parse_header_data_def parse_list_active_data_def
  by (rule list_all_map_filter [OF _ valid_lines],
      erule (1) parse_xover_line_typed parse_header_line_typed parse_list_active_line_typed)+

section \<open>Commands\<close>

text \<open>\<open>yields P p\<close>: if the call succeeds, its value satisfies \<open>P\<close>.\<close>

definition yields :: "('a \<Rightarrow> bool) \<Rightarrow> 'a nntp_result \<times> nntp_connection \<Rightarrow> bool" where
  "yields P p \<longleftrightarrow> (case fst p of Inl _ \<Rightarrow> True | Inr a \<Rightarrow> P a)"

named_theorems yield \<open>rules for what a call yields\<close>

lemma yields_err [yield]: "yields P (Inl e, c)"
  and yields_ok [yield]: "P a \<Longrightarrow> yields P (Inr a, c)"
  and yields_finish_err [yield]: "yields P (finish s (Inl e) c)"
  and yields_finish_ok [yield]: "P a \<Longrightarrow> yields P (finish s (Inr a) c)"
  by (simp_all add: yields_def finish_def)

lemma yields_if [yield]: "\<lbrakk>b \<Longrightarrow> yields P p; \<not> b \<Longrightarrow> yields P q\<rbrakk> \<Longrightarrow> yields P (if b then p else q)"
  by simp

lemma yields_bind:
  "\<lbrakk>yields Q p; \<And>a c. Q a \<Longrightarrow> yields P (k a c)\<rbrakk> \<Longrightarrow> yields P (rbind p k)"
  by (cases p; cases "fst p") (auto simp: yields_def)

lemma yields_mark_error: "yields P p \<Longrightarrow> yields P (mark_error p)"
  by (auto simp: yields_def mark_error_def split: prod.splits sum.splits)

lemma yields_any: "yields (\<lambda>_. True) p"
  by (simp add: yields_def split: sum.split)

lemmas yields_after = yields_bind [OF yields_any]

lemmas yields_after_transfer [yield] =
  yields_after [where p = "mark_error (read_multiline_body_maybe_decompress gz c)" for gz c]
  yields_after [where p = "mark_error (read_multiline_body_maybe_decompress_bounded gz m c)" for gz m c]
  yields_after [where p = "mark_error (read_limited gz bound c)" for gz bound c]
  yields_after [where p = "write_chunks ds c" for ds c]
  yields_after [where p = "write_chunk d c" for d c]

lemma status_line_typed: "yields typed_response (read_response_line c)"
  using parse_response_line_typed
  by (auto simp: yields_def read_response_line_def Let_def
      split: option.split prod.split read_outcome.split sum.split if_split)

lemma exchange_typed: "yields typed_response (exchange cmd c)"
  unfolding exchange_def by (rule yields_after) (intro yields_mark_error status_line_typed)

lemmas yields_exchange [yield] = yields_bind [OF exchange_typed]
  and yields_last_line [yield] = yields_bind [OF yields_mark_error [OF status_line_typed]]

lemma typed_with_data [simp]:
  "typed_response \<lparr>code = code st, message = message st, data = d\<rparr> = typed_response st"
  "typed_response r \<Longrightarrow> typed_response (r\<lparr>data := d, code := 222\<rparr>)"
  by (simp_all add: typed_response_def)

lemma response_commands_typed [yield]:
  "yields typed_response (fetch_article gz mid c)"
  "yields typed_response (fetch_head_number gz n m c)"
  "yields typed_response (fetch_body_command gz mid c)"
  "yields typed_response (stat_article mid c)"
  "yields typed_response (post_chunks chunks c)"
  unfolding fetch_article_def fetch_head_number_def fetch_body_command_def stat_article_def
    post_chunks_def Let_def
  by (intro yield; simp add: typed_response_def)+

lemma fetch_body_typed: "yields typed_response (fetch_body gz mid c)"
  unfolding fetch_body_def
  by (intro yields_if yields_bind [OF response_commands_typed(1)] response_commands_typed yields_ok) simp

lemma listings_typed:
  "yields (list_all typed_xover) (xover gz a b c)"
  "yields (list_all typed_header) (xhdr gz h rng c)"
  "yields (\<lambda>r. list_all typed_header (br_value r)) (xpat_with_limit gz h rng ps bound c)"
  "yields (list_all typed_active) (list_active gz w c)"
  unfolding xover_def xhdr_def xpat_with_limit_def list_active_def Let_def
  by (intro yield; simp)+

lemma xpat_typed: "yields (list_all typed_header) (xpat gz h rng ps c)"
  using listings_typed(3) [of gz h rng ps None c]
  by (auto simp: xpat_def yields_def map_result_def split: sum.splits)

lemma group_typed:
  assumes "utf8_valid nm" shows "yields typed_group (group_command nm c)"
proof -
  have "yields typed_group (parse_group_message nm (message st), c')" if "typed_response st" for st c'
    using that parse_group_message_typed [OF assms, of "message st"]
    by (auto simp: yields_def typed_response_def split: sum.split)
  then show ?thesis unfolding group_command_def Let_def by (intro yield)
qed

section \<open>The property\<close>

text \<open>
  C34: the answers of the commands are well typed.  Whatever bytes, pauses and errors the server's
  side of the connection holds, and whatever the decompressor makes of them: if a command succeeds,
  then the status code has three digits, every number fits an unsigned 64-bit integer and every text
  is UTF-8 (the group name that GROUP falls back on is the caller's, hence the hypothesis).
\<close>

theorem answers_well_typed:
  assumes "utf8_valid nm"
  shows "yields typed_group (group_command nm c)
       \<and> yields typed_response (fetch_article gz mid c)
       \<and> yields typed_response (fetch_head_number gz n m c)
       \<and> yields typed_response (fetch_body gz mid c)
       \<and> yields typed_response (stat_article mid c)
       \<and> yields typed_response (post_article text c)
       \<and> yields typed_response (post_article_bytes art c)
       \<and> yields (list_all typed_xover) (xover gz a b c)
       \<and> yields (list_all typed_header) (xhdr gz h rng c)
       \<and> yields (list_all typed_header) (xpat gz h rng ps c)
       \<and> yields (list_all typed_active) (list_active gz wildmat c)"
  using assms
  by (simp add: group_typed response_commands_typed fetch_body_typed listings_typed xpat_typed
      post_article_def post_article_bytes_def)

text \<open>A server that answers GROUP, with an overlong count that reads as 0.\<close>

definition group_answered :: nntp_connection where
  "group_answered = (new_connection ''c'')
     \<lparr>state := Ready,
      transport := Some \<lparr>rx = map RxByte (''211 99999999999999999999 1 7 alt.test'' @ crlf), wr = [],
                         tx = [], tls = False\<rparr>\<rparr>"

lemma group_answered_run:
  "fst (group_command ''alt.test'' group_answered) =
     Inr \<lparr>grp_count = 0, grp_first = 1, grp_last = 7, grp_name = ''alt.test''\<rparr>"
  by (simp add: run group_answered_def new_connection_def cong: run_cong)

lemma answers_well_typed_witness:
  "fst (group_command ''alt.test'' group_answered) =
     Inr \<lparr>grp_count = 0, grp_first = 1, grp_last = 7, grp_name = ''alt.test''\<rparr>
   \<and> typed_group \<lparr>grp_count = 0, grp_first = 1, grp_last = 7, grp_name = ''alt.test''\<rparr>"
proof -
  have "utf8_valid ''alt.test''" by (rule utf8_valid_ascii) (simp add: is_ascii_def)
  from answers_well_typed [OF this, of group_answered] have
    "yields typed_group (group_command ''alt.test'' group_answered)" by simp
  with group_answered_run show ?thesis by (simp only: yields_def sum.case)
qed

end
