(* ===== verification/Finding_Laws.thy ===== *)
theory Finding_Laws
  imports Posting Listings Downloader
begin

text \<open>
  What the code does where it departs from what it means to do, or is less uniform than its reader may
  expect.  Each lemma states the behaviour of one branch that is missing.
\<close>

text \<open>What a command makes of a status line it has no branch for: a \<open>Protocol\<close> error.\<close>

definition answers_with ::
  "(nntp_connection \<Rightarrow> 'a nntp_result \<times> nntp_connection) \<Rightarrow> bytes \<Rightarrow> nntp_connection \<Rightarrow> nntp_response \<Rightarrow> 'a nntp_result \<Rightarrow> bool" where
  "answers_with f cmd c st r \<longleftrightarrow>
     (\<forall>c'. state c = Ready \<longrightarrow> exchange cmd (c\<lparr>state := Busy\<rparr>) = (Inr st, c') \<longrightarrow>
        f c = (r, c'\<lparr>state := Error\<rparr>))"

text \<open>A refusal with 403: BODY differs from ARTICLE.\<close>

lemma body_refused_is_protocol_error:
  assumes "code st = 403"
  shows "answers_with (fetch_article gz mid) (''ARTICLE '' @ normalize_message_id mid) c st
           (Inl (PermissionDenied (message st)))"
    and "answers_with (fetch_body_command gz mid) (''BODY '' @ normalize_message_id mid) c st
           (Inl (unexpected ''BODY'' st))"
  using assms
  by (simp_all add: answers_with_def fetch_article_def fetch_body_command_def finish_def)

text \<open>A server that wants a login: the listings and POST differ from ARTICLE.\<close>

lemma login_wanted_is_protocol_error:
  assumes "code st = 480"
  shows "answers_with (fetch_article gz mid) (''ARTICLE '' @ normalize_message_id mid) c st
           (Inl (AuthRequired (message st)))"
    and "answers_with (xover gz a b) (''XOVER '' @ show_nat a @ ''-'' @ show_nat b) c st
           (Inl (unexpected ''XOVER'' st))"
    and "answers_with (xhdr gz h rng) (''XHDR '' @ h @ '' '' @ to_command_arg rng) c st
           (Inl (unexpected ''XHDR'' st))"
    and "ps \<noteq> [] \<Longrightarrow> answers_with (xpat_with_limit gz h rng ps bound)
           (''XPAT '' @ h @ '' '' @ to_command_arg rng @ '' '' @ join '' '' ps) c st
           (Inl (unexpected ''XPAT'' st))"
    and "answers_with (list_active gz None) ''LIST ACTIVE'' c st (Inl (unexpected ''LIST ACTIVE'' st))"
    and "answers_with (post_chunks chunks) ''POST'' c st (Inl (unexpected ''POST'' st))"
  using assms
  by (simp_all add: answers_with_def fetch_article_def xover_def xhdr_def xpat_with_limit_def
      list_active_def post_chunks_def finish_def)

text \<open>A rejected login during a download: the server gets no penalty and its connection goes back.\<close>

lemma rejected_login_not_penalised:
  "penalty_until (after_fetch_error (Auth m) pc t s) = penalty_until s"
  "after_fetch_error (Auth m) pc t s = release_connection pc t (record_failure s)"
  by (simp_all add: after_fetch_error_def release_connection_def record_failure_def)

text \<open>The default number of connections.\<close>

lemma eight_connections: "connections (default_config uuid) = 8"
  by (simp add: default_config_def default_connections_def)

end
