(* ===== verification/Truncation_Laws.thy ===== *)
theory Truncation_Laws
  imports Protocol_Properties Runs
begin

text \<open>
  A response that breaks off is never taken for a whole one: the wire format of a body is prefix-free,
  so no reader accepts a part of it.  A status line alone carries no such mark.
\<close>

section \<open>Bodies are prefix-free\<close>

lemma line_unique:
  assumes "is_line a" and "is_line b" and "a @ x = b @ y"
  shows "a = b \<and> x = y"
proof -
  from assms(1,2) obtain p q where p: "a = p @ [LF]" "LF \<notin> set p" "b = q @ [LF]" "LF \<notin> set q"
    by (auto simp: is_line_snoc)
  with assms(3) have e: "p @ LF # x = q @ LF # y" by simp
  with takeWhile_LF [OF p(2), of x] takeWhile_LF [OF p(4), of y] have "p = q" by simp
  with p e show ?thesis by simp
qed

lemma terminator_is_line: "is_terminator e \<Longrightarrow> is_line e"
  by (auto simp: is_terminator_def is_line_def)

lemma body_parse_Cons [simp]:
  "body_parse (w # ws) e \<longleftrightarrow> is_line w \<and> \<not> is_terminator w \<and> body_parse ws e"
  by (auto simp: body_parse_def)

lemma body_parse_end: "body_parse ws e \<Longrightarrow> is_terminator e \<and> is_line e \<and> e \<noteq> []"
  using terminator_is_line by (auto simp: body_parse_def is_line_def)

lemma body_prefix_free:
  "body_parse ws e \<Longrightarrow> body_parse vs f \<Longrightarrow> (concat ws @ e) @ x = concat vs @ f \<Longrightarrow> x = []"
proof (induction ws arbitrary: vs)
  case Nil
  then have e: "is_terminator e" "is_line e" using body_parse_end by blast+
  show ?case
  proof (cases vs)
    case Nil
    with Nil.prems line_unique [OF e(2), of f x "[]"] body_parse_end show ?thesis by simp
  next
    case (Cons v vs')
    with Nil.prems line_unique [OF e(2), of v x "concat vs' @ f"] e(1) show ?thesis by simp
  qed
next
  case (Cons w ws)
  then have w: "is_line w" "\<not> is_terminator w" "body_parse ws e" by simp_all
  show ?case
  proof (cases vs)
    case Nil
    with Cons.prems line_unique [OF w(1), of f "(concat ws @ e) @ x" "[]"] w(2) body_parse_end
    show ?thesis by auto
  next
    case (Cons v vs')
    with Cons.prems line_unique [OF w(1), of v "(concat ws @ e) @ x" "concat vs' @ f"]
    have "body_parse vs' f" "(concat ws @ e) @ x = concat vs' @ f" by simp_all
    with Cons.IH [OF w(3)] show ?thesis by blast
  qed
qed

lemma no_body_in_part:
  assumes "body_parse ws e" and "strict_prefix r (concat ws @ e)" and "body_parse vs f"
  shows "r \<noteq> (concat vs @ f) @ x"
proof
  assume r: "r = (concat vs @ f) @ x"
  from assms(2) obtain y where y: "concat ws @ e = r @ y" "y \<noteq> []" by (auto elim: strict_prefixE')
  with r have "(concat vs @ f) @ (x @ y) = concat ws @ e" by simp
  from body_prefix_free [OF assms(3,1) this] y(2) show False by simp
qed

text \<open>The reader of bodies itself.\<close>

lemma cut_body_fails:
  assumes "transport c = Some t" and "body_parse ws e" and "strict_prefix (item_bytes (rx t)) (concat ws @ e)"
    and "reads_body c p"
  shows "isl (fst p)"
proof (cases p)
  case (Pair r c')
  show ?thesis
  proof (cases r)
    case (Inr d)
    with Pair assms(4) obtain vs f where "consumed c c' (concat vs @ f)" "body_parse vs f"
      by (auto simp: reads_body_def)
    moreover from this assms(1) obtain x where "item_bytes (rx t) = (concat vs @ f) @ x"
      by (auto simp: traded_def item_bytes_append)
    ultimately show ?thesis using no_body_in_part [OF assms(2,3)] by blast
  qed (use Pair in simp)
qed

section \<open>Codes\<close>

lemma trim_end_crlf_part:
  obtains y where "s = trim_end_crlf s @ y"
proof
  have "rev s = takeWhile (\<lambda>c. c = CR \<or> c = LF) (rev s) @ dropWhile (\<lambda>c. c = CR \<or> c = LF) (rev s)"
    by simp
  then show "s = trim_end_crlf s @ rev (takeWhile (\<lambda>c. c = CR \<or> c = LF) (rev s))"
    unfolding trim_end_crlf_def by (metis rev_append rev_rev_ident)
qed

lemma code_of_line:
  assumes "parse_response_line l = Inr st"
  shows "code st = decimal (take 3 l) \<and> 3 \<le> length l"
proof -
  have t: "3 \<le> length (trim_end_crlf l)" "code st = decimal (take 3 (trim_end_crlf l))"
    using assms by (auto simp: parse_response_line_def Let_def split: if_splits)
  obtain y where y: "l = trim_end_crlf l @ y" by (rule trim_end_crlf_part)
  have "take 3 (trim_end_crlf l @ y) = take 3 (trim_end_crlf l)" "3 \<le> length (trim_end_crlf l @ y)"
    using t(1) by simp_all
  with t(2) y show ?thesis by metis
qed

lemma code_of_part:
  assumes "parse_response_line l = Inr st" and "parse_response_line k = Inr sk" and "l @ x = k @ y"
  shows "code sk = code st"
proof -
  note l = code_of_line [OF assms(1)] and k = code_of_line [OF assms(2)]
  from l have "take 3 (l @ x) = take 3 l" by simp
  moreover from k have "take 3 (k @ y) = take 3 k" by simp
  ultimately show ?thesis using assms(3) l k by metis
qed

section \<open>Commands\<close>

text \<open>A call that succeeds ends \<open>Ready\<close>.\<close>

definition ends_ready :: "'a nntp_result \<times> nntp_connection \<Rightarrow> bool" where
  "ends_ready p \<longleftrightarrow> (case p of (Inl _, _) \<Rightarrow> True | (Inr _, c) \<Rightarrow> state c = Ready)"

named_theorems ending \<open>rules for how a call ends\<close>

lemma ends_simple [ending]:
  "ends_ready (Inl e, c)" "ends_ready (finish Ready r c)" "ends_ready (finish s (Inl e) c)"
  by (auto simp: ends_ready_def finish_def split: sum.split)

lemma ends_if [ending]: "ends_ready p \<Longrightarrow> ends_ready q \<Longrightarrow> ends_ready (if b then p else q)"
  by simp

lemma ends_bind [ending]: "(\<And>a c. ends_ready (k a c)) \<Longrightarrow> ends_ready (rbind p k)"
  by (cases p; cases "fst p") (auto simp: ends_ready_def)

lemma ends_map_result [ending]: "ends_ready p \<Longrightarrow> ends_ready (map_result f p)"
  by (cases p; cases "fst p") (auto simp: ends_ready_def map_result_def)

lemma ends_map_bind: "ends_ready p \<Longrightarrow> ends_ready (rbind p (\<lambda>a c. (Inr (f a), c)))"
  by (cases p; cases "fst p") (auto simp: ends_ready_def)

lemma run_command_ends:
  assumes "\<And>mid m. j \<noteq> Body_Prefix mid m"
  shows "ends_ready (run_command gz j c)"
proof -
  have f: "ends_ready (fetch_article gz mid c)" for mid c
    unfolding fetch_article_def Let_def by (intro ending)
  have g: "(r, c\<lparr>state := Ready\<rparr>) = finish Ready r c" "finish s r (c\<lparr>state := s'\<rparr>) = finish s r c"
    for r :: "group_response nntp_result" and s s' and c
    by (simp_all add: finish_def)
  show ?thesis using assms
    by (cases j) (auto simp: wrapper_defs f fetch_head_number_def fetch_body_def fetch_body_command_def
        stat_article_def ping_def group_command_def g get_overview_format_def xover_lossless_with_limit_def
        xover_def xhdr_def xpat_with_limit_def list_active_def post_chunks_def Let_def
        intro!: ending ends_map_bind)
qed

section \<open>A status line that breaks off\<close>

text \<open>At the end of the stream the start of a status line is parsed as if it were the whole line.\<close>

lemma read_until_cut:
  "LF \<notin> set p \<Longrightarrow> read_until limit w (map RxByte p) = (ReadOk p, [], w)"
  by (induction p) auto

lemma cut_status_line_accepted:
  assumes "transport c = Some t" and "rx t = map RxByte p" and "LF \<notin> set p" and "p \<noteq> []" and "utf8_valid p"
  shows "fst (read_response_line c) = parse_response_line p"
  using assms by (simp add: read_response_line_def read_until_cut tick_io_heartbeat_def)

text \<open>
  So GROUP may report a wrong number of the last article as a success: here the answer
  \<open>211 2 1000 1001 alt.test\<close> is cut inside it.
\<close>

definition cut_group_line :: bytes where "cut_group_line = ''211 2 1000 10''"

lemma cut_group_believed:
  "group_command ''alt.test'' (sample_connection (map RxByte cut_group_line)) =
     (Inr \<lparr>grp_count = 2, grp_first = 1000, grp_last = 10, grp_name = ''alt.test''\<rparr>,
      (sample_connection [])\<lparr>transport := Some ((sample_transport [])\<lparr>tx := ''GROUP alt.test'' @ crlf\<rparr>)\<rparr>)"
  by (simp add: run cut_group_line_def sample_connection_def sample_transport_def new_connection_def cong: run_cong)

section \<open>The property\<close>

lemma cut_response:
  assumes "is_line l" and "parse_response_line l = Inr st" and "code st \<in> B" and "body_parse ws e"
    and "strict_prefix r (l @ concat ws @ e)" and "response (multi_line B) bs"
  shows "r \<noteq> bs @ x"
proof
  assume r: "r = bs @ x"
  from assms(6) obtain k sk rest where k: "bs = k @ rest" "line_or_last k rest"
      "parse_response_line k = Inr sk" "multi_line B (code sk) rest"
    by (auto simp: response_def)
  from assms(5) obtain y where y: "l @ concat ws @ e = r @ y" "y \<noteq> []" by (auto elim: strict_prefixE')
  with r k(1) have eq: "l @ concat ws @ e = k @ rest @ x @ y" by simp
  from code_of_part [OF assms(2) k(3) eq] assms(3) k(4) obtain vs f where
    f: "rest = concat vs @ f" "body_parse vs f" by (auto simp: multi_line_def)
  with k(2) body_parse_end [OF f(2)] have "is_line k" by (auto simp: line_or_last_def)
  from line_unique [OF assms(1) this eq] f(1) have "(concat vs @ f) @ (x @ y) = concat ws @ e" by simp
  from body_prefix_free [OF f(2) assms(4) this] y(2) show False by simp
qed

text \<open>
  C4: A response that breaks off is detected.  When the answer to a command ends anywhere before the
  end of the body that its status line announces, because the connection is closed, resets or falls
  silent, the command never succeeds (but a BODY prefix, which may ask for less), and the connection
  is not \<open>Ready\<close> afterwards, unless the command was refused without touching it.
\<close>

theorem truncation_detected:
  assumes "transport c = Some t" and "is_line l" and "parse_response_line l = Inr st"
    and "reply_tail j = multi_line B" and "code st \<in> B" and "body_parse ws e"
    and "strict_prefix (item_bytes (rx t)) (l @ concat ws @ e)"
  shows "(case run_command gz j c of (res, c') \<Rightarrow>
           (c' = c \<or> state c' \<noteq> Ready) \<and> (isl res \<or> (\<exists>mid m. j = Body_Prefix mid m)))"
proof -
  obtain res c' where run: "run_command gz j c = (res, c')" by force
  have ready: "c' = c \<and> isl res" if "state c' = Ready"
  proof -
    have no: "\<not> (traded c c' w bs \<and> response (multi_line B) bs)" for w bs
    proof
      assume "traded c c' w bs \<and> response (multi_line B) bs"
      then obtain u s where "transport c = Some t" "rx t = s @ u" "item_bytes s = bs"
          and rsp: "response (multi_line B) bs"
        using assms(1) by (auto simp: traded_def)
      then have "item_bytes (rx t) = bs @ item_bytes u" by simp
      with rsp cut_response [OF assms(2,3,5,6,7)] show False by blast
    qed
    from that run_command_synced [of c j gz] run consider "c' = c \<and> isl res"
      | w bs where "traded c c' w bs" "dialogue (command_line (capabilities c) j) (sent_after j) (reply_tail j) w bs"
      by (auto simp: synced_def)
    then show ?thesis
      by cases (use no dialogue_response assms(4) in metis)+
  qed
  moreover have "isl res" if "\<And>mid m. j \<noteq> Body_Prefix mid m"
    using run_command_ends [OF that, of gz c] run ready by (cases res) (auto simp: ends_ready_def)
  ultimately show ?thesis using run by auto
qed

text \<open>An article cut after its first line.\<close>

definition cut_article :: nntp_connection where
  "cut_article = sample_connection (map RxByte (sample_status @ ''A'' @ crlf))"

lemma truncation_detected_witness:
  "isl (fst (fetch_article sample_gunzip ''a@b'' cut_article))
   \<and> \<not> (state (snd (fetch_article sample_gunzip ''a@b'' cut_article)) = Ready
        \<and> snd (fetch_article sample_gunzip ''a@b'' cut_article) \<noteq> cut_article)"
proof -
  have "case run_command sample_gunzip (Article ''a@b'') cut_article of (res, c') \<Rightarrow>
      (c' = cut_article \<or> state c' \<noteq> Ready) \<and> (isl res \<or> (\<exists>mid m. Article ''a@b'' = Body_Prefix mid m))"
  proof (rule truncation_detected)
    show "transport cut_article = Some (sample_transport (map RxByte (sample_status @ ''A'' @ crlf)))"
      by (simp add: cut_article_def sample_connection_def)
    show "is_line sample_status" unfolding sample_status_def by (rule is_line_status_line) simp
    show "parse_response_line sample_status = Inr \<lparr>code = 220, message = ''1 <a@b>'', data = None\<rparr>"
      by (rule sample_status_parses)
    show "code \<lparr>code = 220, message = ''1 <a@b>'', data = None\<rparr> \<in> {220}" by simp
    show "reply_tail (Article ''a@b'') = multi_line {220}" by simp
    show "body_parse [''A'' @ crlf] dot_line"
      by (simp add: body_parse_def is_line_def is_terminator_def dot_line_def)
    show "strict_prefix (item_bytes (rx (sample_transport (map RxByte (sample_status @ ''A'' @ crlf)))))
        (sample_status @ concat [''A'' @ crlf] @ dot_line)"
      unfolding sample_transport_def transport.select_convs item_bytes_map
      by (simp add: strict_prefix_def dot_line_def)
  qed
  then show ?thesis
    by (cases "fetch_article sample_gunzip ''a@b'' cut_article";
        cases "fst (fetch_article sample_gunzip ''a@b'' cut_article)") (auto simp: map_result_def)
qed

end
