(* ===== verification/Fault_Laws.thy ===== *)
theory Fault_Laws
  imports End_To_End Truncation_Laws
begin

text \<open>
  A server with faults: whatever the test server is told to do wrong, and whichever writes its socket
  refuses, it answers like the faultless one up to some point and then falls silent.  So a client that
  never mistakes a part of an answer for a whole one never gets wrong data from it.
\<close>

section \<open>The server with its faults\<close>

text \<open>
  What a handler may do of the writes \<open>ws\<close>: all of them, none when the connection is hung, and else a
  part after which the connection is closed.
\<close>

definition does_part :: "mock_config \<Rightarrow> bytes list \<Rightarrow> mock_conn \<Rightarrow> bool \<times> mock_conn \<Rightarrow> bool" where
  "does_part cfg ws s p \<longleftrightarrow>
     (case p of (ok, s') \<Rightarrow>
        inp s' = inp s \<and> hung s' = hung s \<and> authenticated s' = authenticated s \<and> shared s' = shared s
        \<and> (if hung s then ok \<and> outp s' = outp s
           else prefix (outp s') (outp s @ emit cfg ws) \<and> (ok \<longrightarrow> outp s' = outp s @ emit cfg ws)))"

lemma does_part_none: "does_part cfg [] s (True, s)"
  by (simp add: does_part_def)

lemma delay_write_emits:
  "delay_write cfg s = s\<lparr>outp := outp s @ pause_before cfg, clock := clock s + delay_of cfg\<rparr>"
  by (simp add: delay_write_def pause_before_def delay_of_def split: option.split)

lemma socket_write_part:
  "\<exists>ok y q. socket_write d s = (ok, s\<lparr>outp := outp s @ map RxByte y, peer := q\<rparr>) \<and> prefix y d \<and> (ok \<longrightarrow> y = d)"
proof (cases "peer s")
  case Nil
  then show ?thesis by (intro exI [of _ True] exI [of _ d] exI [of _ "[]"]) (simp add: socket_write_def)
next
  case (Cons ok q)
  then show ?thesis
    by (intro exI [of _ ok] exI [of _ "if ok then d else []"] exI [of _ q]) (simp add: socket_write_def)
qed

lemma does_part_write: "does_part cfg [d] s (mock_write cfg d s)"
proof (cases "hung s")
  case True
  with does_part_none [of cfg s] show ?thesis by (simp add: does_part_def mock_write_def)
next
  case False
  let ?s = "s\<lparr>outp := outp s @ pause_before cfg, clock := clock s + delay_of cfg\<rparr>"
  have part: "prefix (map RxByte y) (map RxByte d)" if "prefix y d" for y
    using that by (rule map_mono_prefix)
  obtain ok y q where full: "socket_write d ?s = (ok, ?s\<lparr>outp := outp ?s @ map RxByte y, peer := q\<rparr>)"
      "prefix y d" "ok \<longrightarrow> y = d" using socket_write_part by blast
  show ?thesis
  proof (cases "silent_close_after_bytes cfg")
    case None
    with False full part show ?thesis by (auto simp: does_part_def mock_write_def delay_write_emits)
  next
    case (Some limit)
    obtain ok' y' q' where some: "socket_write (take (limit - bytes_written s) d) ?s
        = (ok', ?s\<lparr>outp := outp ?s @ map RxByte y', peer := q'\<rparr>)"
        "prefix y' (take (limit - bytes_written s) d)" using socket_write_part by blast
    from some(2) have "prefix y' d" using take_is_prefix prefix_order.trans by blast
    with False full some(1) Some part show ?thesis
      by (auto simp: does_part_def mock_write_def delay_write_emits Let_def)
  qed
qed

lemma does_part_then:
  assumes "does_part cfg ws s (ok, s1)" and "ok \<Longrightarrow> does_part cfg vs s1 p"
  shows "does_part cfg (ws @ vs) s (if ok then p else (False, s1))"
  using assms prefix_prefix [of "outp s1" "outp s @ emit cfg ws" "emit cfg vs"]
  by (cases p; cases ok) (auto simp: does_part_def split: if_splits)

lemma does_part_writes: "does_part cfg ds s (mwrites cfg ds s)"
proof (induction ds arbitrary: s)
  case (Cons d ds)
  obtain ok s1 where w: "mock_write cfg d s = (ok, s1)" by force
  from does_part_then [OF does_part_write [of cfg d s, unfolded w], of ds "mwrites cfg ds s1"] Cons.IH
  show ?case by (simp add: w)
qed (simp add: does_part_none)

text \<open>The answers to the commands that look an article up.\<close>

definition scripted :: "mock_config \<Rightarrow> mock_conn \<Rightarrow> bool" where
  "scripted cfg s \<longleftrightarrow> article_response_overrides cfg \<noteq> [] \<or> article_response_sequences (shared s) \<noteq> None"

lemma does_part_reply: "does_part cfg [l @ crlf] s (reply cfg l s)"
  unfolding reply_def by (rule does_part_writes)

lemma does_part_send:
  "does_part cfg ([st @ '' 0 '' @ in_angles x @ crlf] @ body_writes d) s (send_article cfg st x d s)"
proof -
  let ?l = "st @ '' 0 '' @ in_angles x"
  obtain ok s1 where r: "reply cfg ?l s = (ok, s1)" by force
  then have "send_article cfg st x d s = (if ok then mwrites cfg (body_writes d) s1 else (False, s1))"
    by (simp add: send_article_def write_multiline_body_def in_angles_def del: mwrites.simps)
  then show ?thesis
    using does_part_then [OF does_part_reply [of cfg ?l s, unfolded r] does_part_writes] by simp
qed

lemma does_part_lookup:
  assumes "\<not> scripted cfg s" and "clean_id x" and "\<And>d. does_part cfg ([st @ '' 0 '' @ in_angles x @ crlf] @ rest d) s (found d s)"
  shows "does_part cfg (lookup_writes cfg st rest x) s (article_lookup cfg x found s)"
  using assms(1,3) does_part_reply [of cfg "''430 No article: <'' @ x @ ''>''" s]
  by (simp add: scripted_def article_lookup_def lookup_writes_def in_angles_def split: option.split)

text \<open>A command that looks an article up, and what it writes when nothing goes wrong.\<close>

definition lookup_verb :: "bytes \<Rightarrow> (mock_config \<Rightarrow> bytes \<Rightarrow> bytes list) \<Rightarrow> bool" where
  "lookup_verb v answer \<longleftrightarrow>
     is_verb v
     \<and> (\<forall>upper cfg s x. authenticated s \<longrightarrow> \<not> scripted cfg s \<longrightarrow> clean_id x \<longrightarrow>
          does_part cfg (answer cfg x) s (mock_dispatch upper cfg v [v, in_angles x] s))"

lemma lookup_verbs:
  "lookup_verb ''ARTICLE'' article_writes" "lookup_verb ''BODY'' bare_body_writes" "lookup_verb ''STAT'' stat_writes"
proof -
  have m: "arg_mid [v, in_angles x] = x" if "clean_id x" for v x
    using trim_in_angles [OF that] by (simp add: arg_mid_def arg_def nth_opt_def)
  have l: "does_part cfg (lookup_writes cfg st body_writes x) s (article_lookup cfg x (send_article cfg st x) s)"
    if "\<not> scripted cfg s" "clean_id x" for cfg s x st
    by (rule does_part_lookup [OF that]) (rule does_part_send)
  have t: "does_part cfg (stat_writes cfg x) s (article_lookup cfg x (\<lambda>d. reply cfg (''223 0 <'' @ x @ ''>'')) s)"
    if "\<not> scripted cfg s" "clean_id x" for cfg s x
    unfolding stat_writes_def
    by (rule does_part_lookup [OF that])
       (use does_part_reply [of cfg "''223 0 <'' @ x @ ''>''" s] in \<open>simp add: in_angles_def\<close>)
  show "lookup_verb ''ARTICLE'' article_writes" "lookup_verb ''BODY'' bare_body_writes" "lookup_verb ''STAT'' stat_writes"
    using verbs m l t
    by (simp_all add: lookup_verb_def mock_dispatch_def handle_article_def handle_body_def handle_stat_def
        behind_login_def scripted_def pop_sequenced_def article_writes_def bare_body_writes_def)
qed

lemma faulty_command:
  assumes "lookup_verb v answer" and "id_request upper x" and "authenticated s" and "\<not> scripted cfg s"
    and "mock_command upper cfg (verb_line v x) s = (ok, s')"
  shows "inp s' = inp s \<and> authenticated s' \<and> \<not> scripted cfg s'
    \<and> (hung s' \<and> outp s' = outp s
       \<or> prefix (outp s') (outp s @ emit cfg (answer cfg x))
         \<and> (ok \<longrightarrow> outp s' = outp s @ emit cfg (answer cfg x)))"
proof -
  have v: "splitn 3 (CHR '' '') (verb_line v x) = [v, in_angles x]" "upper v = v" and x: "clean_id x"
    using assms(1,2) verb_line_parts upper_verb by (auto simp: id_request_def lookup_verb_def)
  let ?s = "mark_hung upper cfg v s"
  have m: "inp ?s = inp s" "outp ?s = outp s" "authenticated ?s" "\<not> scripted cfg ?s" "shared ?s = shared s"
    using assms(3,4) by (auto simp: mark_hung_def scripted_def split: option.split)
  obtain ok1 s1 where h: "mock_dispatch upper cfg v [v, in_angles x] ?s = (ok1, s1)" by force
  with assms(1) m(3,4) x have p: "does_part cfg (answer cfg x) ?s (ok1, s1)"
    unfolding lookup_verb_def by metis
  have "(ok1, s1) = (ok, s') \<or> ok1 \<and> s' = counted s1"
    using assms(5) by (auto simp: mock_command_def v arg_def nth_opt_def h counted_def Let_def split: if_splits)
  moreover have "hung (counted s1) = hung s1" by (simp add: counted_def)
  ultimately show ?thesis using p m by (auto simp: does_part_def scripted_def split: if_splits)
qed

text \<open>A hung server is silent for good.\<close>

lemma hung_loop: "hung s \<Longrightarrow> outp (mock_loop upper cfg s) = outp s"
  using hanging.kept_loop [of "outp s" s] by (simp add: silent_at_def)

theorem faults_only_cut:
  "lookup_verb v answer \<Longrightarrow> list_all (id_request upper) xs \<Longrightarrow> authenticated s \<Longrightarrow> \<not> scripted cfg s \<Longrightarrow>
     inp s = ask v xs \<Longrightarrow>
     prefix (outp (mock_loop upper cfg s)) (outp s @ emit cfg (concat (map (answer cfg) xs)))"
proof (induction xs arbitrary: s)
  case Nil
  then show ?case by (simp add: ask_def mock_loop_end)
next
  case (Cons x xs)
  let ?a = "emit cfg (answer cfg x)" and ?r = "emit cfg (concat (map (answer cfg) xs))"
  let ?s = "s\<lparr>inp := ask v xs\<rparr>"
  obtain ok s' where c: "mock_command upper cfg (verb_line v x) ?s = (ok, s')" by force
  have "tidy (verb_line v x)"
    using Cons.prems(1,2) verb_line_tidy by (simp add: id_request_def lookup_verb_def)
  moreover have "inp s = verb_line v x @ crlf @ ask v xs" using Cons.prems(5) by (simp add: ask_def)
  ultimately have l: "mock_loop upper cfg s = (if ok then mock_loop upper cfg s' else s')"
    using mock_loop_line [of "verb_line v x" s] c by simp
  from faulty_command [OF Cons.prems(1) _ _ _ c] Cons.prems(2-)
  have s': "inp s' = ask v xs" "authenticated s'" "\<not> scripted cfg s'"
    and o: "hung s' \<and> outp s' = outp s \<or> prefix (outp s') (outp s @ ?a) \<and> (ok \<longrightarrow> outp s' = outp s @ ?a)"
    by (simp_all add: scripted_def)
  show ?case
  proof (cases "hung s' \<and> outp s' = outp s")
    case True
    with l show ?thesis by (simp add: hung_loop)
  next
    case False
    with o have p: "prefix (outp s') (outp s @ ?a)" "ok \<Longrightarrow> outp s' = outp s @ ?a" by simp_all
    show ?thesis
    proof (cases ok)
      case True
      with Cons.IH [OF Cons.prems(1) _ s'(2,3,1)] Cons.prems(2) l p(2) show ?thesis by simp
    next
      case False
      with l prefix_prefix [OF p(1), of ?r] show ?thesis by simp
    qed
  qed
qed

section \<open>The client with a part of the answers\<close>

lemma strict_prefix_bytes:
  assumes "prefix r (emit cfg ws)" and "r \<noteq> emit cfg ws" and "ws \<noteq> []" and "last ws \<noteq> []"
  shows "strict_prefix (item_bytes r) (concat ws)"
proof -
  from assms(1) obtain y where y: "emit cfg ws = r @ y" by (auto simp: prefix_def)
  with assms(2) have "y \<noteq> []" by auto
  with y emit_last [OF assms(3,4), of cfg] obtain z b where "y = z @ [RxByte b]"
    by (cases y rule: rev_cases) auto
  then have "item_bytes y \<noteq> []" by simp
  moreover have "concat ws = item_bytes r @ item_bytes y" using arg_cong [OF y, of item_bytes] by simp
  ultimately show ?thesis by (auto simp: strict_prefix_def)
qed

lemma body_writes_parse: "\<exists>ws. concat (body_writes d) = concat ws @ dot_line \<and> body_parse ws dot_line"
proof (intro exI conjI)
  let ?ls = "canonical_lines (served_lines d)"
  show "concat (body_writes d) = concat (map stuff_line ?ls) @ dot_line"
    using wire_body_bytes [of "served_lines d"]
    by (cases "d = []") (simp_all add: body_writes_def served_lines_def wire_body_def byte_line_chunks_def)
  have "list_all is_line ?ls"
    using canonical_is_line [of "served_lines d"] served_lines_no_LF by blast
  then show "body_parse (map stuff_line ?ls) dot_line" by (simp add: body_parse_def list_all_iff)
qed

text \<open>The answer to a lookup: a status line, and after a hit what belongs to it.\<close>

lemma lookup_answer:
  assumes "clean_id x" and "100 \<le> n" and "n < 1000"
  obtains l st where "lookup_writes cfg (show_nat n) rest x = l # (case map_of (articles cfg) x of None \<Rightarrow> [] | Some d \<Rightarrow> rest d)"
    and "is_line l" and "utf8_valid l" and "parse_response_line l = Inr st"
    and "code st = (if map_of (articles cfg) x = None then 430 else n)"
proof -
  define m where "m = (if map_of (articles cfg) x = None then ''No article: '' else ''0 '')"
  define k where "k = (if map_of (articles cfg) x = None then 430 else n)"
  have "list_all is_ascii m" "LF \<notin> set m" by (simp_all add: m_def is_ascii_def)
  note msg = id_message [OF assms(1) this]
  have k: "100 \<le> k" "k < 1000" using assms(2,3) by (simp_all add: k_def)
  show thesis
  proof (rule that)
    show "lookup_writes cfg (show_nat n) rest x
        = status_line k (m @ in_angles x) # (case map_of (articles cfg) x of None \<Rightarrow> [] | Some d \<Rightarrow> rest d)"
      by (simp add: lookup_writes_def status_line_def status_digits k_def m_def split: option.split)
    show "is_line (status_line k (m @ in_angles x))" by (rule is_line_status_line [OF msg(2)])
    show "utf8_valid (status_line k (m @ in_angles x))" by (rule utf8_valid_status_line [OF msg(1)])
    show "parse_response_line (status_line k (m @ in_angles x)) = Inr \<lparr>code = k, message = m @ in_angles x, data = None\<rparr>"
      by (rule parse_status_line [OF k disjI2 [OF msg(3)]])
  qed (simp add: k_def)
qed

lemma article_answer:
  assumes "clean_id x"
  obtains l st rest where "concat (article_writes cfg x) = l @ rest" and "is_line l"
    and "parse_response_line l = Inr st"
    and "case map_of (articles cfg) x of None \<Rightarrow> code st = 430 \<and> rest = []
         | Some d \<Rightarrow> code st = 220 \<and> (\<exists>ws. rest = concat ws @ dot_line \<and> body_parse ws dot_line)"
proof -
  obtain l st where l: "lookup_writes cfg (show_nat 220) body_writes x
        = l # (case map_of (articles cfg) x of None \<Rightarrow> [] | Some d \<Rightarrow> body_writes d)"
      "is_line l" "parse_response_line l = Inr st" "code st = (if map_of (articles cfg) x = None then 430 else 220)"
    by (rule lookup_answer [OF assms, of 220]) simp_all
  show thesis
    by (rule that [OF _ l(2,3), of "case map_of (articles cfg) x of None \<Rightarrow> [] | Some d \<Rightarrow> concat (body_writes d)"])
       (use l(1,4) body_writes_parse in \<open>simp_all add: article_writes_def status_digits split: option.split\<close>)
qed

text \<open>The errors that say that the connection is gone.\<close>

definition lost :: "'a nntp_result \<Rightarrow> bool" where
  "lost r \<longleftrightarrow> (\<exists>m. r = Inl (Connection m)) \<or> (\<exists>e. r = Inl (Io e))"

lemma lost_fatal: "lost r \<Longrightarrow> is_fatal r"
  by (auto simp: lost_def)

lemma body_error_lost:
  assumes "transport c = Some t" and "read_multiline_body c = (Inl e, c')"
  shows "lost (Inl e :: nntp_response nntp_result)"
proof -
  have "body_loop None out r n hb = (Inl e, p) \<Longrightarrow> lost (Inl e :: nntp_response nntp_result)" for out r n hb p
  proof (induction "None :: nat option" out r n hb rule: body_loop.induct)
    case (1 out r n hb)
    then show ?case
      by (subst (asm) (2) body_loop.simps) (auto simp: exceeds_def lost_def split: prod.splits read_outcome.splits if_splits)
  qed
  with assms show ?thesis
    by (auto simp: read_multiline_body_def checkout_body_buffer_def read_multiline_body_into_bounded_def
        split: list.splits prod.splits)
qed

lemma read_line_part:
  assumes "transport c = Some tr" and "read_response_line c = (Inr st, c1)"
  obtains l r where "parse_response_line l = Inr st" and "transport c1 = Some (tr\<lparr>rx := r\<rparr>)"
    and "state c1 = state c" and "item_bytes (rx tr) = l @ item_bytes r" and "is_line l \<or> r = []"
proof -
  obtain out r w where u: "read_until READ_LINE_TIMEOUT 0 (rx tr) = (out, r, w)" by (metis surj_pair)
  with assms obtain l where l: "out = ReadOk l" "parse_response_line l = Inr st"
      "transport c1 = Some (tr\<lparr>rx := r\<rparr>)" "state c1 = state c"
    by (cases out) (auto simp: read_response_line_def Let_def tick_io_heartbeat_def split: if_splits)
  from read_until_sound [OF u [unfolded l(1)]] obtain s where
    "rx tr = s @ r" "item_bytes s = l" "is_line l \<or> r = []" by blast
  with that l show thesis by auto
qed

text \<open>What the client makes of a part of an answer: an error, or a miss whose line was cut late enough.\<close>

lemma read_part:
  assumes "clean_id x" and "transport c = Some tr"
    and "strict_prefix (item_bytes (rx tr)) (concat (article_writes cfg x))"
    and "mark_error (read_response_line c) = (Inr st, c1)"
    and "article_outcome q st c1 = (y, c2)" and "req_message_id q = x"
  shows "lost y \<and> state c2 = Error
    \<or> y = article_result cfg x x \<and> (\<exists>r. transport c2 = Some (tr\<lparr>rx := r\<rparr>) \<and> item_bytes r = [])"
proof -
  from assms(4) have m: "read_response_line c = (Inr st, c1)" by (auto simp: mark_error_def split: prod.splits sum.splits)
  obtain k r where k: "parse_response_line k = Inr st" "transport c1 = Some (tr\<lparr>rx := r\<rparr>)"
      "item_bytes (rx tr) = k @ item_bytes r" "is_line k \<or> r = []"
    using read_line_part [OF assms(2) m] by metis
  obtain l sl rest where a: "concat (article_writes cfg x) = l @ rest" "is_line l" "parse_response_line l = Inr sl"
      "case map_of (articles cfg) x of None \<Rightarrow> code sl = 430 \<and> rest = []
         | Some d \<Rightarrow> code sl = 220 \<and> (\<exists>ws. rest = concat ws @ dot_line \<and> body_parse ws dot_line)"
    by (rule article_answer [OF assms(1)])
  from assms(3) obtain z where z: "l @ rest = (k @ item_bytes r) @ z" "z \<noteq> []"
    by (auto simp: a(1) k(3) elim: strict_prefixE')
  then have e: "l @ rest = k @ (item_bytes r @ z)" by simp
  have cd: "code st = code sl" by (rule code_of_part [OF a(3) k(1) e])
  have part: "rest = item_bytes r @ z" if "is_line k" using line_unique [OF a(2) that e] by simp
  show ?thesis
  proof (cases "map_of (articles cfg) x")
    case None
    with a(4) have "code sl = 430" "rest = []" by simp_all
    moreover have "item_bytes r = []" using part k(4) \<open>rest = []\<close> by auto
    moreover have "y = article_result cfg x x" "c2 = c1"
      using assms(5,6) cd \<open>code sl = 430\<close> None by (simp_all add: article_outcome_def article_result_def)
    ultimately show ?thesis using k(2) by blast
  next
    case (Some d)
    with a(4) obtain ws where w: "code sl = 220" "rest = concat ws @ dot_line" "body_parse ws dot_line" by auto
    have "strict_prefix (item_bytes r) (concat ws @ dot_line)"
    proof (cases "is_line k")
      case True
      with part w(2) z(2) show ?thesis by (auto simp: strict_prefix_def)
    next
      case False
      with k(4) show ?thesis by (simp add: strict_prefix_def dot_line_def)
    qed
    then have "isl (fst (read_multiline_body c1))"
      using cut_body_fails [OF k(2) w(3) _ reads_body_plain(1)] by simp
    then obtain e c3 where b: "read_multiline_body c1 = (Inl e, c3)"
      by (cases "read_multiline_body c1"; cases "fst (read_multiline_body c1)") auto
    with body_error_lost [OF k(2) b] assms(5) cd w(1) show ?thesis
      by (auto simp: article_outcome_def finish_def)
  qed
qed

text \<open>One request after the other, with a part of the answers in front of silence.\<close>

definition served_or_failed :: "mock_config \<Rightarrow> bool \<Rightarrow> pipeline_request \<Rightarrow> pipeline_result \<Rightarrow> bool" where
  "served_or_failed cfg failed q x \<longleftrightarrow>
     res_request x = q
     \<and> (res_result x = article_result cfg (req_message_id q) (req_message_id q)
        \<or> failed \<and> lost (res_result x))"

lemma article_writes_end: "article_writes cfg x \<noteq> [] \<and> last (article_writes cfg x) \<noteq> []"
  by (simp add: article_writes_def lookup_writes_def body_writes_def terminator_def split: option.split)

lemma serve_part:
  "quick cfg \<Longrightarrow> list_all clean_id (map req_message_id qs) \<Longrightarrow> transport c = Some tr \<Longrightarrow>
     rx tr = r @ stop \<Longrightarrow> item_bytes stop = [] \<Longrightarrow>
     prefix r (emit cfg (concat (map (\<lambda>q. article_writes cfg (req_message_id q)) qs))) \<Longrightarrow>
     case serve qs c of
       (Inl e, c') \<Rightarrow> state c' = Error
     | (Inr xs, c') \<Rightarrow> list_all2 (served_or_failed cfg (state c' = Error)) qs xs"
proof (induction qs arbitrary: c tr r stop)
  case (Cons q qs)
  let ?x = "req_message_id q"
  let ?a = "emit cfg (article_writes cfg ?x)"
  let ?rest = "emit cfg (concat (map (\<lambda>q. article_writes cfg (req_message_id q)) qs))"
  have x: "clean_id ?x" "list_all clean_id (map req_message_id qs)" using Cons.prems(2) by simp_all
  have right: "case serve (q # qs) c of
       (Inl e, c') \<Rightarrow> state c' = Error
     | (Inr xs, c') \<Rightarrow> list_all2 (served_or_failed cfg (state c' = Error)) (q # qs) xs"
    if "mark_error (read_response_line c) = (Inr st, c1)" and "article_outcome q st c1 = (article_result cfg ?x ?x, c2)"
      and "transport c2 = Some (tr\<lparr>rx := u @ v\<rparr>)" and "prefix u ?rest" and "item_bytes v = []" for st c1 c2 u v
    using Cons.IH [OF Cons.prems(1) x(2) that(3) _ that(5,4)] that(1,2)
    by (cases "serve qs c2"; cases "fst (serve qs c2)") (auto simp: served_or_failed_def)
  have "prefix r (?a @ ?rest)" using Cons.prems(6) by simp
  then consider u where "r = ?a @ u" "prefix u ?rest" | "prefix r ?a" "r \<noteq> ?a"
    by (cases "r = ?a") (auto simp: prefix_append)
  then show ?case
  proof cases
    case (1 u)
    with Cons.prems(4) have "rx tr = ?a @ u @ stop" by simp
    from read_article [OF Cons.prems(1) x(1) Cons.prems(3) this, of q] obtain st c1 c2 where
      "mark_error (read_response_line c) = (Inr st, c1)" "article_outcome q st c1 = (article_result cfg ?x ?x, c2)"
      "transport c2 = Some (tr\<lparr>rx := u @ stop\<rparr>)" by blast
    from right [OF this 1(2) Cons.prems(5)] show ?thesis .
  next
    case 2
    from strict_prefix_bytes [OF 2] article_writes_end Cons.prems(4,5)
    have part: "strict_prefix (item_bytes (rx tr)) (concat (article_writes cfg ?x))" by simp
    obtain res c1 where m: "mark_error (read_response_line c) = (res, c1)" by force
    show ?thesis
    proof (cases res)
      case (Inl e)
      with m have "state c1 = Error" by (auto simp: mark_error_def split: prod.splits sum.splits)
      with Inl m show ?thesis by simp
    next
      case (Inr st)
      obtain y c2 where o: "article_outcome q st c1 = (y, c2)" by force
      from read_part [OF x(1) Cons.prems(3) part m [unfolded Inr] o refl] show ?thesis
      proof (elim disjE conjE exE)
        assume y: "lost y" "state c2 = Error"
        with m Inr o lost_fatal [OF y(1)] show ?thesis
          by (simp add: served_or_failed_def aborted_def lost_def list_all2_map2 list_all2_same)
      next
        fix v assume "y = article_result cfg ?x ?x" "transport c2 = Some (tr\<lparr>rx := v\<rparr>)" "item_bytes v = []"
        with right [of st c1 c2 "[]" v] m Inr o show ?thesis by simp
      qed
    qed
  qed
qed simp

text \<open>
  When the connection ends between two answers, the whole call fails: the articles that have arrived are
  dropped, while those before a connection that ends inside a body are returned.
\<close>

lemma serve_stops:
  "quick cfg \<Longrightarrow> list_all clean_id (map req_message_id qs) \<Longrightarrow> transport c = Some tr \<Longrightarrow>
     rx tr = emit cfg (concat (map (\<lambda>q. article_writes cfg (req_message_id q)) qs)) \<Longrightarrow>
     fst (serve (qs @ q # qs') c) = Inl (Connection ''Server closed connection'')"
proof (induction qs arbitrary: c tr)
  case Nil
  then show ?case by (simp add: read_response_line_def mark_error_def)
next
  case (Cons q0 qs)
  let ?r = "emit cfg (concat (map (\<lambda>q. article_writes cfg (req_message_id q)) qs))"
  from Cons.prems have x: "clean_id (req_message_id q0)" "rx tr = emit cfg (article_writes cfg (req_message_id q0)) @ ?r"
    by simp_all
  from read_article [OF Cons.prems(1) x(1) Cons.prems(3) x(2), of q0] obtain st c1 c2 where
    1: "mark_error (read_response_line c) = (Inr st, c1)"
      "article_outcome q0 st c1 = (article_result cfg (req_message_id q0) (req_message_id q0), c2)"
      "transport c2 = Some (tr\<lparr>rx := ?r\<rparr>)" by blast
  with Cons.IH [OF Cons.prems(1) _ 1(3)] Cons.prems(2) show ?case
    by (cases "serve (qs @ q # qs') c2") simp
qed

lemma received_articles_dropped:
  assumes "quick cfg" and "in_flight p = []" and "pending p = qs @ q # qs'" and "1 \<le> depth p"
    and "list_all clean_id (map req_message_id qs)" and "transport c = Some tr" and "wr tr = []"
    and "rx tr = emit cfg (concat (map (\<lambda>q. article_writes cfg (req_message_id q)) qs))"
  shows "fst (process_all p c) = Inl (Connection ''Server closed connection'')"
  using process_loop_serve [OF assms(6,7,4) refl, of "[]", folded process_all_def]
    serve_stops [OF assms(1,5,6,8), of q qs'] assms(2,3) by (simp add: queue_def)

section \<open>The pipeline against a server with faults\<close>

text \<open>
  C9: The pipeline against a server with faults: whatever bytes after which the server closes, the
  command at which it hangs, the number of commands it takes, and the writes its socket refuses, and
  whether the connection then ends, resets or stays silent.  If \<open>process_all\<close> gives results, there is
  one for each id, in order, and each is the right one, unless it is an error that says the
  connection is gone; then, and whenever \<open>process_all\<close> itself fails, the connection is in \<open>Error\<close>.
\<close>

theorem pipeline_against_faulty_server:
  assumes "authenticated s" and "\<not> scripted cfg s" and "ascii_case upper" and "quick cfg"
    and "list_all clean_id (map req_message_id (pending p))" and "in_flight p = []" and "1 \<le> depth p"
    and "inp s = ask ''ARTICLE'' (map req_message_id (pending p))" and "outp s = []"
    and "transport c = Some tr" and "wr tr = []"
    and "rx tr = outp (mock_loop upper cfg s) @ stop" and "item_bytes stop = []"
  shows "case process_all p c of
      (Inl e, p', c') \<Rightarrow> state c' = Error
    | (Inr xs, p', c') \<Rightarrow> list_all2 (served_or_failed cfg (state c' = Error)) (pending p) xs"
proof -
  have "list_all (id_request upper) (map req_message_id (pending p))"
    using assms(3,5) by (simp add: id_request_def list_all_iff)
  from faults_only_cut [OF lookup_verbs(1) this assms(1,2,8)] assms(9)
  have "prefix (outp (mock_loop upper cfg s))
      (emit cfg (concat (map (\<lambda>q. article_writes cfg (req_message_id q)) (pending p))))"
    by (simp add: comp_def)
  note part = serve_part [OF assms(4,5,10,12,13) this]
  obtain r p' c' where p: "process_all p c = (r, p', c')" by (metis surj_pair)
  obtain r0 c0 where s: "serve (pending p) c = (r0, c0)" by force
  have q: "queue p = pending p" using assms(6) by (simp add: queue_def)
  note run = process_loop_serve [OF assms(10,11,7) refl, of "[]", folded process_all_def, unfolded p s q fst_conv snd_conv]
  from run have "r = r0" by (cases r0) simp_all
  moreover have "state c' = state c0" using arg_cong [OF conjunct2 [OF run], of state] by simp
  ultimately show ?thesis using part unfolding p s by (cases r0) simp_all
qed

text \<open>A server that closes in the middle of its first article, and a client whose read then resets.\<close>

definition closing_server :: mock_config where
  "closing_server = sample_server\<lparr>silent_close_after_bytes := Some 17\<rparr>"

definition closing_answers :: "rx_item list" where
  "closing_answers =
     outp (mock_loop to_ascii_uppercase closing_server (sample_side (ask ''ARTICLE'' [''a@b'', ''c''])))"

lemma pipeline_against_faulty_server_witness:
  "case process_all sample_requests (sample_connection (closing_answers @ [RxErr (IoError OtherKind ''connection reset'')])) of
     (Inl e, p', c') \<Rightarrow> state c' = Error
   | (Inr xs, p', c') \<Rightarrow> list_all2 (served_or_failed closing_server (state c' = Error)) (pending sample_requests) xs"
proof (rule pipeline_against_faulty_server)
  let ?r = "closing_answers @ [RxErr (IoError OtherKind ''connection reset'')]"
  show "transport (sample_connection ?r) = Some (sample_transport ?r)" "wr (sample_transport ?r) = []"
    "rx (sample_transport ?r) = outp (mock_loop to_ascii_uppercase closing_server
        (sample_side (ask ''ARTICLE'' (map req_message_id (pending sample_requests)))))
      @ [RxErr (IoError OtherKind ''connection reset'')]"
    by (simp_all add: sample_connection_def sample_transport_def closing_answers_def sample_requests_def
        submit_def pipeline_new_def)
  show "quick closing_server" using sample_server_plain(2)
    by (simp add: closing_server_def quick_def delay_of_def)
qed (simp_all add: scripted_def closing_server_def sample_server_def sample_side_def mock_conn_new_def
      mock_default_def shared_default_def ascii_case_refl sample_requests_def submit_def pipeline_new_def sample_ids)

end
