(* ===== verification/Stat_Faults.thy ===== *)
theory Stat_Faults
  imports Fault_Laws
begin

text \<open>
  The STAT checker against a server with faults: it may fail, but what it says of an article is true.
\<close>

section \<open>The STAT checker against a server with faults\<close>

definition stat_truth :: "mock_config \<Rightarrow> bytes \<Rightarrow> stat_result" where
  "stat_truth cfg x = \<lparr>sr_message_id = x, sr_exists = (map_of (articles cfg) x \<noteq> None)\<rparr>"

text \<open>What is still to be read is a part of some writes, and then nothing.\<close>

definition cut_from :: "rx_item list \<Rightarrow> rx_item list \<Rightarrow> bool" where
  "cut_from e x \<longleftrightarrow> (\<exists>r stop. x = r @ stop \<and> item_bytes stop = [] \<and> prefix r e)"

definition awaits :: "rx_item list \<Rightarrow> nntp_connection \<Rightarrow> bool" where
  "awaits e c \<longleftrightarrow> (\<exists>t. transport c = Some t \<and> cut_from e (rx t))"

text \<open>Whatever part of it arrives: a status line that is read has the code of the answer.\<close>

lemma read_stat_line:
  assumes "quick cfg" and "clean_id x" and "awaits (emit cfg (stat_writes cfg x) @ e) c"
    and "mark_error (read_response_line c) = (Inr st, c1)"
  shows "code st = (if map_of (articles cfg) x = None then 430 else 223) \<and> awaits e c1"
proof -
  let ?a = "emit cfg (stat_writes cfg x)"
  from assms(4) have m: "read_response_line c = (Inr st, c1)" by (auto simp: mark_error_def split: prod.splits sum.splits)
  from assms(3) obtain t r stop where t: "transport c = Some t" "rx t = r @ stop" "item_bytes stop = []"
      "prefix r (?a @ e)" by (auto simp: awaits_def cut_from_def)
  obtain l sl where "lookup_writes cfg (show_nat 223) (\<lambda>d. []) x
        = l # (case map_of (articles cfg) x of None \<Rightarrow> [] | Some d \<Rightarrow> [])"
      and a: "is_line l" "utf8_valid l" "parse_response_line l = Inr sl"
        "code sl = (if map_of (articles cfg) x = None then 430 else 223)"
    by (rule lookup_answer [OF assms(2), of 223]) simp_all
  then have w: "stat_writes cfg x = [l]" by (simp add: stat_writes_def status_digits split: option.splits)
  consider u where "r = ?a @ u" "prefix u e" | "prefix r ?a" "r \<noteq> ?a"
    using t(4) by (cases "r = ?a") (auto simp: prefix_append)
  then show ?thesis
  proof cases
    case (1 u)
    have "delivers READ_LINE_TIMEOUT ?a l"
      using emit_delivers [of "[l]" cfg READ_LINE_TIMEOUT] w a(1) quick_line [OF assms(1)] by (simp add: is_line_nonempty)
    from read_response_line_ok [OF t(1) _ this a(2), of "u @ stop"] t(2) 1(1) m a(3)
    have "st = sl" "transport c1 = Some (t\<lparr>rx := u @ stop\<rparr>)" by auto
    with a(4) 1(2) t(3) show ?thesis by (auto simp: awaits_def cut_from_def)
  next
    case 2
    from strict_prefix_bytes [OF 2] w a(1) is_line_nonempty have "strict_prefix (item_bytes r) l" by simp
    then obtain z where z: "l = item_bytes r @ z" "z \<noteq> []" by (auto elim: strict_prefixE')
    obtain k v where k: "parse_response_line k = Inr st" "transport c1 = Some (t\<lparr>rx := v\<rparr>)"
        "item_bytes (rx t) = k @ item_bytes v" "is_line k \<or> v = []"
      using read_line_part [OF t(1) m] by metis
    with z(1) t(2,3) have e: "l @ [] = k @ (item_bytes v @ z)" by simp
    have "code st = code sl" by (rule code_of_part [OF a(3) k(1) e])
    moreover have "v = []" using k(4) line_unique [OF a(1) _ e] z(2) by auto
    ultimately show ?thesis using a(4) k(2) by (auto simp: awaits_def cut_from_def)
  qed
qed

lemma read_stat_part:
  assumes "quick cfg" and "clean_id x" and "awaits (emit cfg (stat_writes cfg x) @ e) c"
    and "mark_error (read_response_line c) = (Inr st, c1)" and "stat_outcome x st c1 = (Inr res, c2)"
  shows "res = stat_truth cfg x \<and> awaits e c2"
  using read_stat_line [OF assms(1-4)] assms(5)
  by (auto simp: stat_outcome_def stat_truth_def split: if_splits)

lemma awaits_state [simp]: "awaits e (c\<lparr>state := s\<rparr>) = awaits e c"
  by (simp add: awaits_def)

lemma read_stats_part:
  "quick cfg \<Longrightarrow> list_all clean_id xs \<Longrightarrow> awaits (emit cfg (concat (map (stat_writes cfg) xs)) @ e) c \<Longrightarrow>
     read_stats xs c = (Inr rs, c') \<Longrightarrow> rs = map (stat_truth cfg) xs \<and> awaits e c'"
proof (induction xs arbitrary: c rs)
  case (Cons x xs)
  from Cons.prems(4) obtain st c1 where r: "mark_error (read_response_line c) = (Inr st, c1)"
    and k: "rbind (stat_outcome x st c1) (\<lambda>r c. rbind (read_stats xs c) (\<lambda>rs c. (Inr (r # rs), c))) = (Inr rs, c')"
    by (auto elim: rbind_okE)
  from k obtain res c2 where o: "stat_outcome x st c1 = (Inr res, c2)"
    and k2: "rbind (read_stats xs c2) (\<lambda>rs c. (Inr (res # rs), c)) = (Inr rs, c')" by (rule rbind_okE)
  from k2 obtain rs' where q: "read_stats xs c2 = (Inr rs', c')" "rs = res # rs'" by (auto elim: rbind_okE)
  have "awaits (emit cfg (stat_writes cfg x) @ emit cfg (concat (map (stat_writes cfg) xs)) @ e) c"
    using Cons.prems(3) by simp
  from read_stat_part [OF Cons.prems(1) _ this r o] Cons.prems(2)
  have "res = stat_truth cfg x" "awaits (emit cfg (concat (map (stat_writes cfg) xs)) @ e) c2" by simp_all
  with Cons.IH [OF Cons.prems(1) _ _ q(1)] Cons.prems(2) q(2) show ?case by simp
qed simp

lemma awaits_conn_write:
  assumes "conn_write w c = (r, c')" and "\<And>limit t. rx (snd (w limit t)) = rx t" and "awaits e c"
  shows "awaits e c'"
proof -
  from assms(3) obtain t where t: "transport c = Some t" by (auto simp: awaits_def)
  obtain x t' where w: "w (write_timeout c) t = (x, t')" by force
  with assms(2) [of "write_timeout c" t] have "rx t' = rx t" by simp
  with assms(1,3) t w show ?thesis by (auto simp: conn_write_def awaits_def)
qed

lemma awaits_mark: "mark_error (r, c) = (r', c') \<Longrightarrow> awaits e c' = awaits e c"
  by (auto simp: mark_error_def split: sum.splits)

lemma send_stats_awaits: "awaits e c \<Longrightarrow> send_stats xs c = (Inr (), c') \<Longrightarrow> awaits e c'"
proof (induction xs arbitrary: c)
  case (Cons x xs)
  obtain r c0 where s: "send_command_no_flush (''STAT '' @ normalize_message_id x) c = (r, c0)" by force
  with Cons.prems(1) have "awaits e c0"
    by (auto simp: send_command_no_flush_def intro: awaits_conn_write)
  with Cons s show ?case by (auto simp: mark_error_def elim!: rbind_okE split: sum.splits)
qed simp

lemma stat_batch_part:
  assumes "quick cfg" and "list_all clean_id xs" and "awaits (emit cfg (concat (map (stat_writes cfg) xs)) @ e) c"
    and "stat_batch xs c = (Inr rs, c')"
  shows "rs = map (stat_truth cfg) xs \<and> awaits e c'"
proof -
  let ?e = "emit cfg (concat (map (stat_writes cfg) xs)) @ e"
  from assms(4) obtain c1 c2 c3 where 1: "send_stats xs (c\<lparr>state := Busy\<rparr>) = (Inr (), c1)"
      "mark_error (flush c1) = (Inr (), c2)" "read_stats xs c2 = (Inr rs, c3)" "c' = c3\<lparr>state := Ready\<rparr>"
    by (auto simp: stat_batch_def finish_def elim!: rbind_okE)
  from send_stats_awaits [OF _ 1(1)] assms(3) have "awaits ?e c1" by simp
  moreover obtain r c0 where f: "flush c1 = (r, c0)" by force
  ultimately have "awaits ?e c0" by (auto simp: flush_def intro: awaits_conn_write)
  with awaits_mark [OF 1(2) [unfolded f]] have "awaits ?e c2" by blast
  from read_stats_part [OF assms(1,2) this 1(3)] 1(4) show ?thesis by simp
qed

lemma stat_batches_part:
  "quick cfg \<Longrightarrow> list_all clean_id xs \<Longrightarrow> awaits (emit cfg (concat (map (stat_writes cfg) xs))) c \<Longrightarrow>
     stat_batches xs c = (Inr rs, c') \<Longrightarrow> rs = map (stat_truth cfg) xs"
proof (induction "length xs" arbitrary: xs c rs rule: less_induct)
  case less
  show ?case
  proof (cases "xs = []")
    case True
    with less.prems(4) show ?thesis by (simp add: stat_batches.simps)
  next
    case False
    let ?n = STAT_BATCH_SIZE
    let ?w = "\<lambda>xs. emit cfg (concat (map (stat_writes cfg) xs))"
    from less.prems(4) False obtain r1 c1 where 1: "stat_batch (take ?n xs) c = (Inr r1, c1)"
      and k: "rbind (stat_batches (drop ?n xs) c1) (\<lambda>rs' c. (Inr (r1 @ rs'), c)) = (Inr rs, c')"
      by (auto simp: stat_batches.simps [of xs] elim: rbind_okE)
    from k obtain r2 where 2: "stat_batches (drop ?n xs) c1 = (Inr r2, c')" "rs = r1 @ r2" by (auto elim: rbind_okE)
    have w: "?w xs = ?w (take ?n xs) @ ?w (drop ?n xs)"
      by (subst append_take_drop_id [of ?n xs, symmetric], simp only: map_append concat_append emit_simps)
    have x: "list_all clean_id (take ?n xs)" "list_all clean_id (drop ?n xs)"
      using less.prems(2) by (auto simp: list_all_iff dest: in_set_takeD in_set_dropD)
    note p = stat_batch_part [OF less.prems(1) x(1) less.prems(3) [unfolded w] 1]
    have "length (drop ?n xs) < length xs" using False by (cases xs) (simp_all add: STAT_BATCH_SIZE_def)
    from less.hyps [OF this less.prems(1) x(2) conjunct2 [OF p] 2(1)]
    have "r2 = map (stat_truth cfg) (drop ?n xs)" .
    with p 2(2) show ?thesis by (metis append_take_drop_id map_append)
  qed
qed

text \<open>
  C29: The STAT checker against a server with faults: whatever bytes after which the server closes, the
  command at which it hangs, the number of commands it takes, the writes its socket refuses, and
  whichever of the client's own writes fail.  A check that succeeds reports as existing exactly the
  articles the server has, in order, and leaves the connection \<open>Ready\<close>; every other leaves it in
  \<open>Error\<close>, and the queue is empty in both cases.
\<close>

theorem stat_against_faulty_server:
  assumes "authenticated s" and "\<not> scripted cfg s" and "ascii_case upper" and "quick cfg"
    and "list_all clean_id (stat_pending q)" and "inp s = ask ''STAT'' (stat_pending q)" and "outp s = []"
    and "transport c = Some tr" and "rx tr = outp (mock_loop upper cfg s) @ stop" and "item_bytes stop = []"
  shows "case stat_execute q c of
      (Inl e, q', c') \<Rightarrow> stat_pending q' = [] \<and> state c' = Error
    | (Inr rs, q', c') \<Rightarrow>
        stat_pending q' = [] \<and> rs = map (stat_truth cfg) (stat_pending q) \<and> (stat_pending q = [] \<or> state c' = Ready)"
proof -
  have "list_all (id_request upper) (stat_pending q)" using assms(3,5) by (simp add: id_request_def list_all_iff)
  from faults_only_cut [OF lookup_verbs(3) this assms(1,2,6)] assms(7-10)
  have part: "awaits (emit cfg (concat (map (stat_writes cfg) (stat_pending q)))) c"
    by (auto simp: awaits_def cut_from_def)
  obtain r c' where b: "stat_batches (stat_pending q) c = (r, c')" by force
  show ?thesis
  proof (cases r)
    case (Inl e)
    with b fails_closed_stat_batches [of "stat_pending q" c] show ?thesis
      by (simp add: stat_execute_def fails_closed_def)
  next
    case (Inr rs)
    with b stat_batches_part [OF assms(4,5) part] stat_batches_ids [of "stat_pending q" c rs c'] show ?thesis
      by (auto simp: stat_execute_def)
  qed
qed

text \<open>A server that hangs at the first STAT, and a client that waits.\<close>

definition hanging_server :: mock_config where
  "hanging_server = sample_server\<lparr>hang_after_command := Some ''STAT''\<rparr>"

definition hanging_answers :: "rx_item list" where
  "hanging_answers =
     outp (mock_loop to_ascii_uppercase hanging_server (sample_side (ask ''STAT'' [''a@b'', ''c''])))"

lemma stat_against_faulty_server_witness:
  "case stat_execute (stat_add ''c'' (stat_add ''a@b'' stat_new)) (sample_connection (hanging_answers @ [RxWait 100000])) of
     (Inl e, q', c') \<Rightarrow> stat_pending q' = [] \<and> state c' = Error
   | (Inr rs, q', c') \<Rightarrow>
       stat_pending q' = []
       \<and> rs = map (stat_truth hanging_server) (stat_pending (stat_add ''c'' (stat_add ''a@b'' stat_new)))
       \<and> (stat_pending (stat_add ''c'' (stat_add ''a@b'' stat_new)) = [] \<or> state c' = Ready)"
proof (rule stat_against_faulty_server)
  let ?r = "hanging_answers @ [RxWait 100000]"
  show "transport (sample_connection ?r) = Some (sample_transport ?r)"
    "rx (sample_transport ?r) = outp (mock_loop to_ascii_uppercase hanging_server
        (sample_side (ask ''STAT'' (stat_pending (stat_add ''c'' (stat_add ''a@b'' stat_new)))))) @ [RxWait 100000]"
    by (simp_all add: sample_connection_def sample_transport_def hanging_answers_def stat_add_def stat_new_def)
  show "quick hanging_server" using sample_server_plain(2)
    by (simp add: hanging_server_def quick_def delay_of_def)
qed (simp_all add: scripted_def hanging_server_def sample_server_def sample_side_def mock_conn_new_def
      mock_default_def shared_default_def ascii_case_refl stat_add_def stat_new_def sample_ids)

end
