(* ===== verification/Tests_Parsing.thy ===== *)
theory Tests_Parsing
  imports Runs
begin

text \<open>
  The repository's unit tests of its parsers and other pure code, run in the model: \<open>error.rs\<close>,
  \<open>config.rs\<close>, \<open>capabilities.rs\<close>, \<open>overview.rs\<close> and the helpers of \<open>connection.rs\<close>.  Each test is a
  predicate with the assertions of the Rust function of that name, and a lemma says that it holds.
\<close>

text \<open>\<open>unwrap\<close> followed by assertions, and \<open>matches!(.., Err(..))\<close>.\<close>

definition ok_with :: "'e + 'a \<Rightarrow> ('a \<Rightarrow> bool) \<Rightarrow> bool" where
  "ok_with r P \<longleftrightarrow> (case r of Inl _ \<Rightarrow> False | Inr x \<Rightarrow> P x)"

definition err_with :: "'e + 'a \<Rightarrow> ('e \<Rightarrow> bool) \<Rightarrow> bool" where
  "err_with r P \<longleftrightarrow> (case r of Inl e \<Rightarrow> P e | Inr _ \<Rightarrow> False)"

definition tabbed :: "bytes list \<Rightarrow> bytes" where
  "tabbed fs = join [HT] fs @ crlf"

fun is_protocol_error :: "nntp_error \<Rightarrow> bool" where
  "is_protocol_error (Protocol _) = True"
| "is_protocol_error _ = False"

fun is_connection_error :: "nntp_error \<Rightarrow> bool" where
  "is_connection_error (Connection _) = True"
| "is_connection_error _ = False"

declare ok_with_def [run] err_with_def [run] tabbed_def [run]

section \<open>Errors\<close>

definition idle_timeout_is_a_connection_failure :: bool where
  "idle_timeout_is_a_connection_failure \<longleftrightarrow>
     is_connection_error (unexpected_article_response 400 ''Idle timeout.'')
     \<and> is_connection_error (unexpected_article_response 400 ''Session expired'')"

definition unrelated_unexpected_response_remains_protocol_failure :: bool where
  "unrelated_unexpected_response_remains_protocol_failure \<longleftrightarrow>
     is_protocol_error (unexpected_article_response 400 ''Bad command'')
     \<and> is_protocol_error (unexpected_article_response 499 ''Idle timeout'')"

lemma error_tests: idle_timeout_is_a_connection_failure unrelated_unexpected_response_remains_protocol_failure
  by (simp_all add: run idle_timeout_is_a_connection_failure_def
      unrelated_unexpected_response_remains_protocol_failure_def cong: run_cong)

section \<open>Configuration\<close>

text \<open>What a file gives: the fields it has.  The TOML and JSON texts themselves are \<open>serde\<close>'s.\<close>

definition no_fields :: partial_config where
  "no_fields =
     \<lparr>p_id = None, p_name = None, p_host = None, p_port = None, p_ssl = None, p_ssl_verify = None,
      p_username = None, p_password = None, p_connections = None, p_priority = None, p_enabled = None,
      p_retention = None, p_pipelining = None, p_optional = None, p_compress = None,
      p_ramp_up_delay_ms = None, p_recv_buffer_size = None, p_proxy_url = None,
      p_trusted_fingerprint = None, p_connect_timeout_secs = None\<rparr>"

definition server_config_minimal_toml_uses_defaults :: "bytes \<Rightarrow> bool" where
  "server_config_minimal_toml_uses_defaults uuid \<longleftrightarrow>
     ok_with (deserialize_config (no_fields\<lparr>p_host := Some ''news.example.com'', p_username := Some ''user'',
         p_password := Some ''pass''\<rparr>))
       (\<lambda>server. host server = ''news.example.com'' \<and> cfg_id server = [] \<and> cfg_name server = []
          \<and> port server = 563 \<and> ssl server \<and> ssl_verify server \<and> enabled server \<and> \<not> optional server
          \<and> priority server = 0 \<and> retention server = 0
          \<and> connections server = connections (default_config uuid)
          \<and> pipelining server = pipelining (default_config uuid)
          \<and> connect_timeout_secs server = connect_timeout_secs (default_config uuid))"

definition server_config_partial_json_uses_defaults :: bool where
  "server_config_partial_json_uses_defaults \<longleftrightarrow>
     ok_with (deserialize_config (no_fields\<lparr>p_host := Some ''news.example.com'', p_port := Some 119, p_ssl := Some False\<rparr>))
       (\<lambda>server. port server = 119 \<and> \<not> ssl server \<and> ssl_verify server \<and> enabled server \<and> retention server = 0)"

definition round_trip_config :: server_config where
  "round_trip_config =
     \<lparr>cfg_id = ''srv1'', cfg_name = ''My Server'', host = ''news.example.com'', port = 563, ssl = True,
      ssl_verify = True, username = Some ''user'', password = Some ''pass'', connections = 8, priority = 0,
      enabled = True, retention = 3000, pipelining = 1, optional = False, compress = True,
      ramp_up_delay_ms = 500, recv_buffer_size = 2 * 1024 * 1024, proxy_url = Some ''socks5://proxy:1080'',
      trusted_fingerprint = None, connect_timeout_secs = 30\<rparr>"

definition test_server_config_serde_roundtrip :: bool where
  "test_server_config_serde_roundtrip \<longleftrightarrow>
     ok_with (deserialize_config (serialize_config round_trip_config))
       (\<lambda>d. cfg_id d = ''srv1'' \<and> host d = ''news.example.com'' \<and> port d = 563 \<and> ssl d \<and> connections d = 8
          \<and> retention d = 3000 \<and> compress d \<and> proxy_url d = Some ''socks5://proxy:1080'')"

definition test_article_serde_roundtrip :: bool where
  "test_article_serde_roundtrip \<longleftrightarrow>
     ok_with (deserialize_article (serialize_article
         \<lparr>message_id = ''abc123@example.com'', segment_number = 1, art_bytes = 500000, downloaded = False,
          data_begin = Some 0, data_size = Some 499000, crc32 = Some 0xDEADBEEF,
          tried_servers = [''server1''], tries = 2\<rparr>))
       (\<lambda>d. message_id d = ''abc123@example.com'' \<and> segment_number d = 1 \<and> art_bytes d = 500000
          \<and> \<not> downloaded d \<and> data_begin d = Some 0 \<and> data_size d = Some 499000
          \<and> crc32 d = Some 0xDEADBEEF \<and> tried_servers d = [''server1''] \<and> tries d = 2)"

definition test_list_active_entry_serde :: bool where
  "test_list_active_entry_serde \<longleftrightarrow>
     ok_with (deserialize_entry (serialize_entry
         \<lparr>la_name = ''alt.binaries.test'', la_high = 1000000, la_low = 1, la_status = ''y''\<rparr>))
       (\<lambda>d. la_name d = ''alt.binaries.test'' \<and> la_high d = 1000000 \<and> la_low d = 1 \<and> la_status d = ''y'')"

lemma serde_tests: test_article_serde_roundtrip test_list_active_entry_serde
  by (simp_all add: test_article_serde_roundtrip_def test_list_active_entry_serde_def ok_with_def)

text \<open>Any non-empty text stands for the random identifier.\<close>

definition test_server_config_defaults :: "bytes \<Rightarrow> bool" where
  "test_server_config_defaults uuid \<longleftrightarrow>
     (let config = default_config uuid
      in (uuid \<noteq> [] \<longrightarrow> cfg_id config \<noteq> []) \<and> port config = 563 \<and> ssl config \<and> ssl_verify config
         \<and> connections config = 8 \<and> priority config = 0 \<and> enabled config \<and> retention config = 0
         \<and> pipelining config = 4 \<and> \<not> optional config \<and> \<not> compress config \<and> ramp_up_delay_ms config = 50
         \<and> proxy_url config = None \<and> connect_timeout_secs config = 30)"

definition test_server_config_missing_ramp_up_uses_default :: "bytes \<Rightarrow> bool" where
  "test_server_config_missing_ramp_up_uses_default uuid \<longleftrightarrow>
     ok_with (deserialize_config ((serialize_config (default_config uuid))\<lparr>p_ramp_up_delay_ms := None\<rparr>))
       (\<lambda>config. ramp_up_delay_ms config = 50)"

definition test_server_config_missing_pipelining_uses_default :: "bytes \<Rightarrow> bool" where
  "test_server_config_missing_pipelining_uses_default uuid \<longleftrightarrow>
     ok_with (deserialize_config ((serialize_config (default_config uuid))\<lparr>p_pipelining := None\<rparr>))
       (\<lambda>config. pipelining config = 4)"

lemma config_tests:
  "server_config_minimal_toml_uses_defaults uuid" server_config_partial_json_uses_defaults
  test_server_config_serde_roundtrip "test_server_config_defaults uuid"
  "test_server_config_missing_ramp_up_uses_default uuid"
  "test_server_config_missing_pipelining_uses_default uuid"
  by (simp_all add: run default_config_def no_fields_def round_trip_config_def
      server_config_minimal_toml_uses_defaults_def server_config_partial_json_uses_defaults_def
      test_server_config_serde_roundtrip_def test_server_config_defaults_def
      test_server_config_missing_ramp_up_uses_default_def
      test_server_config_missing_pipelining_uses_default_def)

section \<open>Capabilities\<close>

definition parses_typical_inn_response :: bool where
  "parses_typical_inn_response \<longleftrightarrow>
     (let caps = caps_parse (crlf_lines [''VERSION 2'', ''READER'', ''IHAVE'', ''POST'', ''NEWNEWS'', ''HDR'',
                    ''OVER MSGID'', ''LIST ACTIVE NEWSGROUPS OVERVIEW.FMT'', ''IMPLEMENTATION INN 2.7.2''])
      in probed caps \<and> reader caps \<and> hdr caps \<and> over caps \<and> over_msgid caps \<and> have_body caps
         \<and> have_stat caps \<and> have_article caps \<and> have_head caps \<and> version caps = Some ''2''
         \<and> implementation caps = Some ''INN 2.7.2'' \<and> ''ACTIVE'' \<in> set (list_keywords caps)
         \<and> ''OVERVIEW.FMT'' \<in> set (list_keywords caps))"

definition parses_mode_reader_required :: bool where
  "parses_mode_reader_required \<longleftrightarrow>
     (let caps = caps_parse (crlf_lines [''VERSION 2'', ''MODE-READER'', ''IHAVE''])
      in mode_reader_required caps \<and> \<not> reader caps \<and> have_body caps \<and> have_stat caps)"

definition lenient_on_nonstandard_server :: bool where
  "lenient_on_nonstandard_server \<longleftrightarrow>
     (let caps = caps_parse (crlf_lines [''VERSION 2'', ''OVER'', ''HDR''])
      in \<not> reader caps \<and> have_body caps \<and> have_stat caps)"

definition strict_when_only_transit :: bool where
  "strict_when_only_transit \<longleftrightarrow>
     (let caps = caps_parse (crlf_lines [''VERSION 2''])
      in \<not> reader caps \<and> \<not> have_body caps \<and> \<not> have_stat caps)"

definition default_assumed_is_permissive :: bool where
  "default_assumed_is_permissive \<longleftrightarrow>
     (let caps = default_assumed
      in \<not> probed caps \<and> have_body caps \<and> have_stat caps \<and> have_article caps \<and> have_head caps)"

text \<open>Lines of ASCII text need not be decoded and split byte by byte.\<close>

lemma utf8_crlf_lines: "list_all (list_all is_ascii) ls \<Longrightarrow> utf8_valid (crlf_lines ls)"
  by (rule utf8_valid_ascii) (auto simp: crlf_lines_def list_all_iff is_ascii_def)

lemma caps_parse_lines:
  assumes "list_all (list_all (\<lambda>c. is_ascii c \<and> c \<noteq> LF)) ls"
  shows "caps_parse (crlf_lines ls) = derive_flags (foldl caps_line (caps_default\<lparr>probed := True\<rparr>) ls)"
proof -
  have "list_all (list_all is_ascii) ls" "\<forall>l \<in> set ls. LF \<notin> set l" using assms by (auto simp: list_all_iff)
  then show ?thesis by (simp add: caps_parse_def utf8_crlf_lines str_lines_crlf_lines del: utf8_valid.simps)
qed

lemma capability_tests:
  parses_typical_inn_response parses_mode_reader_required lenient_on_nonstandard_server
  strict_when_only_transit default_assumed_is_permissive
  by (simp_all add: run caps_parse_lines parses_typical_inn_response_def parses_mode_reader_required_def
      lenient_on_nonstandard_server_def strict_when_only_transit_def default_assumed_is_permissive_def
      del: crlf_lines_simps caps_parse_def cong: run_cong)

section \<open>Lossless overview\<close>

definition announced_format :: "bytes list" where
  "announced_format = [''Subject:'', ''From:'', ''Date:'', ''Message-ID:'', ''References:'', '':bytes'', '':lines'', ''Xref:full'']"

definition format_requires_the_standard_prefix_and_preserves_optional_fields :: bool where
  "format_requires_the_standard_prefix_and_preserves_optional_fields \<longleftrightarrow>
     ok_with (parse_overview_format (crlf_lines announced_format))
       (\<lambda>fmt. length (fmt_fields fmt) = 8 \<and> fmt_fields fmt ! 7 = ''Xref:full'')
     \<and> err_with (parse_overview_format (crlf_lines [''From:'', ''Subject:''])) (\<lambda>_. True)"

definition format_accepts_and_preserves_the_alternative_metadata_names :: bool where
  "format_accepts_and_preserves_the_alternative_metadata_names \<longleftrightarrow>
     ok_with (parse_overview_format (crlf_lines [''Subject:'', ''From:'', ''Date:'', ''Message-ID:'', ''References:'',
         ''Bytes:'', ''Lines:'', ''Xref:full'']))
       (\<lambda>fmt. fmt_fields fmt ! 5 = ''Bytes:'' \<and> fmt_fields fmt ! 6 = ''Lines:'')
     \<and> err_with (parse_overview_format (crlf_lines [''Subject:'', ''From:'', ''Date:'', ''Message-ID:'', ''References:'',
         ''Bytes:'', '':lines''])) (\<lambda>_. True)"

definition espana :: bytes where "espana = ''Espa'' @ [CHR 0xF1] @ ''a''"

definition rows_preserve_legacy_bytes_and_negotiated_order :: bool where
  "rows_preserve_legacy_bytes_and_negotiated_order \<longleftrightarrow>
     ok_with (parse_overview_format (crlf_lines announced_format)) (\<lambda>fmt.
       let parsed = parse_lossless_overview_rows
             (tabbed [''42'', espana, ''Poster'', ''Date'', ''<id@example>'', [], ''10'', ''1'', ''server group:42'']) fmt 40 50
       in defective_rows parsed = [] \<and> row_number (rows parsed ! 0) = 42
          \<and> row_fields (rows parsed ! 0) ! 0 = espana \<and> row_fields (rows parsed ! 0) ! 7 = ''server group:42'')"

definition malformed_rows_remain_exact_and_typed :: bool where
  "malformed_rows_remain_exact_and_typed \<longleftrightarrow>
     ok_with (parse_overview_format (crlf_lines announced_format)) (\<lambda>fmt.
       let parsed = parse_lossless_overview_rows
             (tabbed [''bad'', ''Subject'', ''Poster'', ''Date'', ''<id@example>'', [], ''10'', ''1'', ''server group:1'']
              @ tabbed [''43'', ''Sub'', ''ject'', ''Poster'', ''Date'', ''<id@example>'', [], ''10'', ''1'', ''server group:43''])
             fmt 40 50
       in length (defective_rows parsed) = 2
          \<and> failure_code (defective_rows parsed ! 0) = ArticleNumberInvalid
          \<and> take 3 (wire_line (defective_rows parsed ! 0)) = ''bad''
          \<and> failure_code (defective_rows parsed ! 1) = FieldCountInvalid)"

lemma overview_tests:
  format_requires_the_standard_prefix_and_preserves_optional_fields
  format_accepts_and_preserves_the_alternative_metadata_names
  rows_preserve_legacy_bytes_and_negotiated_order malformed_rows_remain_exact_and_typed
  by (simp_all add: run announced_format_def espana_def
      format_requires_the_standard_prefix_and_preserves_optional_fields_def
      format_accepts_and_preserves_the_alternative_metadata_names_def
      rows_preserve_legacy_bytes_and_negotiated_order_def malformed_rows_remain_exact_and_typed_def cong: run_cong)

section \<open>Status lines\<close>

definition test_parse_response_line :: bool where
  "test_parse_response_line \<longleftrightarrow>
     ok_with (parse_response_line (''200 NNTP Service Ready'' @ crlf))
       (\<lambda>resp. code resp = 200 \<and> message resp = ''NNTP Service Ready'')"

definition test_parse_response_line_no_message :: bool where
  "test_parse_response_line_no_message \<longleftrightarrow>
     ok_with (parse_response_line (''200'' @ crlf)) (\<lambda>resp. code resp = 200 \<and> message resp = [])"

definition test_parse_response_line_too_short :: bool where
  "test_parse_response_line_too_short \<longleftrightarrow> err_with (parse_response_line (''20'' @ crlf)) (\<lambda>_. True)"

definition test_parse_response_line_invalid_code :: bool where
  "test_parse_response_line_invalid_code \<longleftrightarrow> err_with (parse_response_line (''ABC some message'' @ crlf)) (\<lambda>_. True)"

definition euro :: bytes where "euro = [CHR 0xE2, CHR 0x82, CHR 0xAC]"
definition e_acute :: bytes where "e_acute = [CHR 0xC3, CHR 0xA9]"

definition test_parse_response_line_multibyte_does_not_panic :: bool where
  "test_parse_response_line_multibyte_does_not_panic \<longleftrightarrow>
     err_with (parse_response_line (''2'' @ euro @ ''0 bogus'' @ crlf)) is_protocol_error
     \<and> err_with (parse_response_line (euro @ euro @ '' hi'' @ crlf)) is_protocol_error
     \<and> ok_with (parse_response_line (''200'' @ e_acute @ ''t'' @ e_acute @ crlf))
         (\<lambda>resp. code resp = 200 \<and> message resp = ''t'' @ e_acute)
     \<and> ok_with (parse_response_line (''200 Caf'' @ e_acute @ '' ready'' @ crlf))
         (\<lambda>resp. message resp = ''Caf'' @ e_acute @ '' ready'')"

definition test_parse_response_line_rejects_signed_code :: bool where
  "test_parse_response_line_rejects_signed_code \<longleftrightarrow> err_with (parse_response_line (''+20 nope'' @ crlf)) (\<lambda>_. True)"

definition test_parse_response_line_with_extra_spaces :: bool where
  "test_parse_response_line_with_extra_spaces \<longleftrightarrow>
     ok_with (parse_response_line (''200  Multiple  Spaces'' @ crlf))
       (\<lambda>resp. code resp = 200 \<and> message resp = '' Multiple  Spaces'')"

definition test_parse_response_line_bare_lf :: bool where
  "test_parse_response_line_bare_lf \<longleftrightarrow>
     ok_with (parse_response_line (''200 OK'' @ [LF])) (\<lambda>resp. code resp = 200 \<and> message resp = ''OK'')"

definition common_codes :: "(nat \<times> bytes) list" where
  "common_codes =
     [(200, ''Service available, posting allowed''), (201, ''Service available, posting prohibited''),
      (205, ''Closing connection''), (211, ''1234 5 6789 alt.test''), (215, ''List of newsgroups follows''),
      (220, ''0 <msg@id> Article follows''), (221, ''Header follows''), (222, ''0 <msg@id> Body follows''),
      (223, ''0 <msg@id> Article exists''), (224, ''Overview information follows''),
      (281, ''Authentication accepted''), (290, ''Compression enabled''), (381, ''Password required''),
      (411, ''No such newsgroup''), (412, ''No newsgroup selected''), (420, ''No article selected''),
      (430, ''No such article''), (480, ''Authentication required''), (481, ''Authentication rejected''),
      (482, ''Authentication rejected (temp)''), (500, ''Command not recognized''),
      (502, ''Service permanently unavailable'')]"

definition test_parse_response_line_all_status_codes :: bool where
  "test_parse_response_line_all_status_codes \<longleftrightarrow>
     list_all (\<lambda>(cd, msg). ok_with (parse_response_line (show_nat cd @ '' '' @ msg @ crlf))
       (\<lambda>resp. code resp = cd \<and> message resp = msg)) common_codes"

lemma response_line_tests:
  test_parse_response_line test_parse_response_line_no_message test_parse_response_line_too_short
  test_parse_response_line_invalid_code test_parse_response_line_multibyte_does_not_panic
  test_parse_response_line_rejects_signed_code test_parse_response_line_with_extra_spaces
  test_parse_response_line_bare_lf
  by (simp_all add: run euro_def e_acute_def test_parse_response_line_def test_parse_response_line_no_message_def
      test_parse_response_line_too_short_def test_parse_response_line_invalid_code_def
      test_parse_response_line_multibyte_does_not_panic_def test_parse_response_line_rejects_signed_code_def
      test_parse_response_line_with_extra_spaces_def test_parse_response_line_bare_lf_def cong: run_cong)

lemma status_code_test: test_parse_response_line_all_status_codes
  unfolding test_parse_response_line_all_status_codes_def common_codes_def
  by (simp add: run cong: run_cong)

definition test_response_is_success :: bool where
  "test_response_is_success \<longleftrightarrow>
     is_success \<lparr>code = 200, message = ''OK'', data = None\<rparr>
     \<and> is_success \<lparr>code = 220, message = ''OK'', data = None\<rparr>
     \<and> is_success \<lparr>code = 281, message = ''OK'', data = None\<rparr>
     \<and> \<not> is_success \<lparr>code = 430, message = ''Not found'', data = None\<rparr>
     \<and> \<not> is_success \<lparr>code = 502, message = ''Err'', data = None\<rparr>"

definition test_response_needs_auth :: bool where
  "test_response_needs_auth \<longleftrightarrow>
     needs_auth \<lparr>code = 480, message = ''Auth'', data = None\<rparr>
     \<and> \<not> needs_auth \<lparr>code = 200, message = ''OK'', data = None\<rparr>"

lemma response_tests: test_response_is_success test_response_needs_auth
  by (simp_all add: run test_response_is_success_def test_response_needs_auth_def)

end
