(* ===== verification/Tests_Connection.thy ===== *)
theory Tests_Connection
  imports Tests_Wire
begin

text \<open>
  The tests of \<open>connection.rs\<close> that talk to the mock server: connecting and logging in, GROUP, XOVER,
  articles, posting.  Client and server both run in the model.
\<close>

definition no_gunzip :: gunzip where "no_gunzip = (\<lambda>_. ([], None))"

fun is_no_such_group :: "nntp_error \<Rightarrow> bool" where
  "is_no_such_group (NoSuchGroup _) = True"
| "is_no_such_group _ = False"

fun is_article_not_found :: "nntp_error \<Rightarrow> bool" where
  "is_article_not_found (ArticleNotFound _) = True"
| "is_article_not_found _ = False"

fun is_response_too_large :: "nntp_error \<Rightarrow> bool" where
  "is_response_too_large (ResponseTooLarge _) = True"
| "is_response_too_large _ = False"

fun is_unsupported_command :: "nntp_error \<Rightarrow> bool" where
  "is_unsupported_command (UnsupportedCommand _) = True"
| "is_unsupported_command _ = False"

fun is_auth_required :: "nntp_error \<Rightarrow> bool" where
  "is_auth_required (AuthRequired _) = True"
| "is_auth_required _ = False"

abbreviation with_articles :: "(bytes \<times> bytes) list \<Rightarrow> mock_config" where
  "with_articles as \<equiv> mock_default\<lparr>articles := as\<rparr>"

section \<open>Connecting\<close>

definition test_connect_plain :: bool where
  "test_connect_plain \<longleftrightarrow> passes mock_default [] (\<lambda>conn. check (state conn = Ready \<and> is_connected conn) conn)"

definition test_connect_read_only_server :: bool where
  "test_connect_read_only_server \<longleftrightarrow>
     passes (mock_default\<lparr>welcome_code := 201, welcome_message := ''Read-only''\<rparr>) []
       (\<lambda>conn. check (state conn = Ready) conn)"

definition test_connect_with_auth :: bool where
  "test_connect_with_auth \<longleftrightarrow>
     talks (mock_default\<lparr>auth_required := True, valid_credentials := Some (''myuser'', ''mypass'')\<rparr>)
       (test_config_with_auth 119 ''myuser'' ''mypass'')
       (crlf_lines [''AUTHINFO USER myuser'', ''AUTHINFO PASS mypass'', ''CAPABILITIES''])
       (\<lambda>conn. check (state conn = Ready) conn)"

text \<open>A failing \<open>connect\<close>: its error, and the state it leaves.\<close>

definition connect_fails :: "mock_config \<Rightarrow> server_config \<Rightarrow> bytes \<Rightarrow> bool" where
  "connect_fails cfg sc sent \<longleftrightarrow>
     (case connect (mock_net cfg sent) None sc (new_connection ''test'') of
        (Inr _, _) \<Rightarrow> False
      | (Inl _, c) \<Rightarrow> state c = Error \<and> (case transport c of None \<Rightarrow> True | Some t \<Rightarrow> tx t = sent))"

definition test_connect_auth_wrong_password :: bool where
  "test_connect_auth_wrong_password \<longleftrightarrow>
     connect_fails (mock_default\<lparr>auth_required := True, valid_credentials := Some (''myuser'', ''correct'')\<rparr>)
       (test_config_with_auth 119 ''myuser'' ''wrong'')
       (crlf_lines [''AUTHINFO USER myuser'', ''AUTHINFO PASS wrong''])"

definition test_connect_auth_rejected :: bool where
  "test_connect_auth_rejected \<longleftrightarrow>
     connect_fails (mock_default\<lparr>auth_required := True, fail_auth := True\<rparr>)
       (test_config_with_auth 119 ''user'' ''pass'') (crlf_lines [''AUTHINFO USER user''])"

definition test_connect_service_unavailable :: bool where
  "test_connect_service_unavailable \<longleftrightarrow>
     connect_fails (mock_default\<lparr>service_unavailable := True\<rparr>) (test_config 119) []"

text \<open>A port that nobody listens on.\<close>

definition refusing_net :: net_env where
  "refusing_net = (net_with [])\<lparr>tcp_connect := (\<lambda>_. Inl ''Connection refused (os error 111)'')\<rparr>"

definition test_connect_refused :: bool where
  "test_connect_refused \<longleftrightarrow>
     (case connect refusing_net None (test_config 19999) (new_connection ''test'') of
        (Inr _, _) \<Rightarrow> False
      | (Inl _, conn) \<Rightarrow> state conn = Error)"

definition test_auth_required_but_no_credentials :: bool where
  "test_auth_required_but_no_credentials \<longleftrightarrow>
     passes (mock_default\<lparr>auth_required := True\<rparr>) [''GROUP alt.test''] (\<lambda>conn.
       check_first (state conn = Ready)
         (rbind (fails_with (group_command ''alt.test'' conn) is_auth_required) (\<lambda>_. check True)))"

definition test_auth_any_credentials_accepted :: bool where
  "test_auth_any_credentials_accepted \<longleftrightarrow>
     talks (mock_default\<lparr>auth_required := True, valid_credentials := None\<rparr>)
       (test_config_with_auth 119 ''any_user'' ''any_pass'')
       (crlf_lines [''AUTHINFO USER any_user'', ''AUTHINFO PASS any_pass'', ''CAPABILITIES''])
       (\<lambda>conn. check (state conn = Ready) conn)"

text \<open>
  Eight connections that start at the same instant.  Each has a clock of its own, as they run side by
  side; nothing else connects them.
\<close>

definition zero_ramp_up_allows_configured_connections_to_start_together :: bool where
  "zero_ramp_up_allows_configured_connections_to_start_together \<longleftrightarrow>
     (\<forall>i \<in> {0..<8}.
        case connect (mock_net (mock_default\<lparr>response_delay := Some 10\<rparr>) hello) None (test_config 119)
               (new_connection (''parallel-'' @ show_nat i)) of
          (Inl _, _) \<Rightarrow> False
        | (Inr _, conn) \<Rightarrow> now conn < 300 \<and> transport conn \<noteq> None \<and> tx (the (transport conn)) = hello)"

text \<open>The short cut for the usual opening does not apply to these servers; the whole opening is run.\<close>

lemmas run_opening =
  connect_def mock_connection_def mock_conn_new_def new_connection_def net_with_def test_config_def
  connect_fails_def hello_def refusing_net_def

lemma test_connect_plain_passes: test_connect_plain
  by (simp add: run test_connect_plain_def cong: run_cong)

lemma test_connect_read_only_server_passes: test_connect_read_only_server
  by (simp add: run run_opening test_connect_read_only_server_def cong: run_cong)

lemma test_connect_with_auth_passes: test_connect_with_auth
  by (simp add: run run_opening test_connect_with_auth_def cong: run_cong)

lemma failing_connect_tests:
  test_connect_auth_wrong_password test_connect_auth_rejected test_connect_service_unavailable test_connect_refused
  by (simp_all add: run run_opening test_connect_auth_wrong_password_def test_connect_auth_rejected_def
      test_connect_service_unavailable_def test_connect_refused_def cong: run_cong)

lemma test_auth_required_but_no_credentials_passes: test_auth_required_but_no_credentials
  by (simp add: run run_opening test_auth_required_but_no_credentials_def cong: run_cong)

lemma test_auth_any_credentials_accepted_passes: test_auth_any_credentials_accepted
  by (simp add: run run_opening test_auth_any_credentials_accepted_def cong: run_cong)

lemma zero_ramp_up_test: zero_ramp_up_allows_configured_connections_to_start_together
proof -
  have "case connect (mock_net (mock_default\<lparr>response_delay := Some 10\<rparr>) hello) None (test_config 119) (new_connection n) of
          (Inl _, _) \<Rightarrow> False
        | (Inr _, conn) \<Rightarrow> now conn < 300 \<and> transport conn \<noteq> None \<and> tx (the (transport conn)) = hello" for n
    by (simp add: run run_opening handle_capabilities_def query_capabilities_def cong: run_cong)
  then show ?thesis
    by (simp only: zero_ramp_up_allows_configured_connections_to_start_together_def) blast
qed

end
