(* ===== verification/Tests_Commands.thy ===== *)
theory Tests_Commands
  imports Tests_Connection
begin

text \<open>
  The tests of \<open>connection.rs\<close> that run commands on an open connection: GROUP, HEAD, ARTICLE, BODY, the
  BODY prefix, STAT, POST, QUIT, and sequences of them.
\<close>

section \<open>GROUP and HEAD\<close>

abbreviation with_groups :: "(bytes \<times> nat \<times> nat \<times> nat) list \<Rightarrow> mock_config" where
  "with_groups gs \<equiv> mock_default\<lparr>groups := gs\<rparr>"

definition test_group_success :: bool where
  "test_group_success \<longleftrightarrow>
     passes (with_groups [(''alt.binaries.test'', 5000, 1, 5000)]) [''GROUP alt.binaries.test''] (\<lambda>conn.
       rbind (group_command ''alt.binaries.test'' conn) (\<lambda>group conn.
         check (grp_count group = 5000 \<and> grp_first group = 1 \<and> grp_last group = 5000
            \<and> grp_name group = ''alt.binaries.test'' \<and> state conn = Ready) conn))"

definition test_group_not_found :: bool where
  "test_group_not_found \<longleftrightarrow>
     passes mock_default [''GROUP nonexistent.group''] (\<lambda>conn.
       rbind (fails_with (group_command ''nonexistent.group'' conn) is_no_such_group) (\<lambda>_ conn.
         check (state conn = Ready) conn))"

definition head_by_article_number_is_exact_and_bounded :: bool where
  "head_by_article_number_is_exact_and_bounded \<longleftrightarrow>
     (let headers = ''Date: Wed, 07 May 2025 20:50:00 +0000'' @ crlf @ ''Xref: news 42'' @ crlf;
          gs = [(''alt.binaries.test'', 1, 42, 42)];
          cmds = [''GROUP alt.binaries.test'', ''HEAD 42'']
      in passes ((with_groups gs)\<lparr>heads := [(42, headers)]\<rparr>) cmds (\<lambda>conn.
           rbind (group_command ''alt.binaries.test'' conn) (\<lambda>_ conn.
           rbind (fetch_head_number no_gunzip 42 (length headers) conn) (\<lambda>response conn.
             check (code response = 221 \<and> data response = Some headers) conn)))
       \<and> passes ((with_groups gs)\<lparr>heads := [(42, ''Header: value that exceeds the bound'' @ crlf)]\<rparr>) cmds (\<lambda>conn.
           rbind (group_command ''alt.binaries.test'' conn) (\<lambda>_ conn.
           rbind (fails_with (fetch_head_number no_gunzip 42 8 conn) is_response_too_large) (\<lambda>_ conn.
             check (state conn = Error) conn))))"

lemma test_group_success_passes: test_group_success
  by (simp add: run test_group_success_def cong: run_cong)

lemma test_group_not_found_passes: test_group_not_found
  by (simp add: run test_group_not_found_def cong: run_cong)

lemma head_by_article_number_is_exact_and_bounded_passes: head_by_article_number_is_exact_and_bounded
  by (simp add: run head_by_article_number_is_exact_and_bounded_def cong: run_cong)

section \<open>ARTICLE and BODY\<close>

definition body_contains :: "nntp_response \<Rightarrow> bytes \<Rightarrow> bool" where
  "body_contains r p \<longleftrightarrow> (case data r of None \<Rightarrow> False | Some d \<Rightarrow> contains p (from_utf8_lossy d))"

declare body_contains_def [run] no_gunzip_def [run]

definition test_fetch_article_success :: bool where
  "test_fetch_article_success \<longleftrightarrow>
     passes (with_articles [(''art1@test'', ''This is article body data'')]) [''ARTICLE <art1@test>''] (\<lambda>conn.
       rbind (fetch_article no_gunzip ''art1@test'' conn) (\<lambda>response conn.
         check (code response = 220 \<and> body_contains response ''This is article body data''
            \<and> state conn = Ready) conn))"

definition test_fetch_article_not_found :: bool where
  "test_fetch_article_not_found \<longleftrightarrow>
     passes mock_default [''ARTICLE <nonexistent@test>''] (\<lambda>conn.
       rbind (fails_with (fetch_article no_gunzip ''nonexistent@test'' conn) is_article_not_found) (\<lambda>_ conn.
         check (state conn = Ready) conn))"

text \<open>The data of a response is a buffer of the default capacity or more.\<close>

definition released :: "bytes \<Rightarrow> nntp_connection \<Rightarrow> nntp_connection" where
  "released d conn =
     release_body_buffer \<lparr>buf_bytes = d, buf_capacity = max BODY_BUFFER_CAPACITY (length d)\<rparr> conn"

definition fetch_article_body_pool_round_trip_is_correct :: bool where
  "fetch_article_body_pool_round_trip_is_correct \<longleftrightarrow>
     passes (with_articles [(''art1@test'', ''first article payload''),
          (''art2@test'', ''second, differently sized article payload with more bytes'')])
       [''ARTICLE <art1@test>'', ''ARTICLE <art2@test>''] (\<lambda>conn.
       rbind (fetch_article no_gunzip ''art1@test'' conn) (\<lambda>first conn.
       check_first (body_contains first ''first article payload'')
       (rbind (fetch_article no_gunzip ''art2@test'' (released (the (data first)) conn)) (\<lambda>second conn.
         check (body_contains second ''second, differently sized article payload with more bytes''
            \<and> \<not> body_contains second ''first article payload'') conn))))"

definition test_fetch_body_success :: bool where
  "test_fetch_body_success \<longleftrightarrow>
     passes (with_articles [(''body1@test'', ''Body content here'')]) [''BODY <body1@test>''] (\<lambda>conn.
       rbind (fetch_body no_gunzip ''body1@test'' conn) (\<lambda>response conn.
         check (code response = 222 \<and> body_contains response ''Body content here'' \<and> state conn = Ready) conn))"

definition body_prefix_retires_an_incomplete_connection_without_exceeding_the_bound :: bool where
  "body_prefix_retires_an_incomplete_connection_without_exceeding_the_bound \<longleftrightarrow>
     passes (with_articles [(''prefix@test'', ''first line'' @ crlf @ ''second line'' @ crlf)]) [''BODY <prefix@test>''] (\<lambda>conn.
       rbind (fetch_body_prefix ''prefix@test'' 8 conn) (\<lambda>prefix conn.
         check (prefix_data prefix = ''first li'' \<and> \<not> body_prefix_response.complete prefix \<and> state conn = Disconnected
            \<and> \<not> is_connected conn) conn))"

definition body_prefix_keeps_a_complete_bounded_connection_ready :: bool where
  "body_prefix_keeps_a_complete_bounded_connection_ready \<longleftrightarrow>
     passes (with_articles [(''small@test'', ''small'' @ crlf)]) [''BODY <small@test>''] (\<lambda>conn.
       rbind (fetch_body_prefix ''small@test'' 1024 conn) (\<lambda>prefix conn.
         check (prefix_data prefix = ''small'' @ crlf \<and> body_prefix_response.complete prefix \<and> state conn = Ready) conn))"

definition test_io_heartbeat_optional_noop_when_unset :: bool where
  "test_io_heartbeat_optional_noop_when_unset \<longleftrightarrow>
     passes (with_articles [(''noop@test'', ''payload'')]) [''BODY <noop@test>''] (\<lambda>conn.
       rbind (fetch_body no_gunzip ''noop@test'' conn) (\<lambda>response. check (code response = 222)))"

definition test_fetch_body_not_found :: bool where
  "test_fetch_body_not_found \<longleftrightarrow>
     passes mock_default [''BODY <missing@test>''] (\<lambda>conn.
       rbind (fails_with (fetch_body no_gunzip ''missing@test'' conn) is_article_not_found) (\<lambda>_ conn.
         check (state conn = Ready) conn))"

definition test_article_with_dot_stuffed_body :: bool where
  "test_article_with_dot_stuffed_body \<longleftrightarrow>
     passes (with_articles [(''dot@test'', join [LF] [''Line one'', ''.This starts with dot'', ''..Two dots'', ''End''])])
       [''ARTICLE <dot@test>''] (\<lambda>conn.
       rbind (fetch_article no_gunzip ''dot@test'' conn) (\<lambda>response.
         check (body_contains response ''.This starts with dot'' \<and> body_contains response ''..Two dots'')))"

definition test_article_empty_body :: bool where
  "test_article_empty_body \<longleftrightarrow>
     passes (with_articles [(''empty@test'', [])]) [''ARTICLE <empty@test>''] (\<lambda>conn.
       rbind (fetch_article no_gunzip ''empty@test'' conn) (\<lambda>response.
         check (code response = 220 \<and> data response \<noteq> None)))"

lemma article_tests:
  test_fetch_article_success test_fetch_article_not_found test_article_empty_body
  by (simp_all add: run test_fetch_article_success_def test_fetch_article_not_found_def
      test_article_empty_body_def cong: run_cong)

lemma article_pool_test: fetch_article_body_pool_round_trip_is_correct
  by (simp add: run released_def fetch_article_body_pool_round_trip_is_correct_def cong: run_cong)

lemma body_tests:
  test_fetch_body_success test_fetch_body_not_found test_io_heartbeat_optional_noop_when_unset
  by (simp_all add: run test_fetch_body_success_def test_fetch_body_not_found_def
      test_io_heartbeat_optional_noop_when_unset_def cong: run_cong)

lemma body_prefix_tests:
  body_prefix_retires_an_incomplete_connection_without_exceeding_the_bound
  body_prefix_keeps_a_complete_bounded_connection_ready
  by (simp_all add: run body_prefix_retires_an_incomplete_connection_without_exceeding_the_bound_def
      body_prefix_keeps_a_complete_bounded_connection_ready_def cong: run_cong)

lemma dot_stuffing_test: test_article_with_dot_stuffed_body
  by (simp add: run test_article_with_dot_stuffed_body_def cong: run_cong)

section \<open>POST\<close>

definition binary_article :: bytes where
  "binary_article =
     crlf_lines [''From: test@example.com'', ''Newsgroups: alt.binaries.test'', ''Subject: binary-post'', [],
       ''plain-line'', ''.leading-dot'', ''..double-dot'', [CHR 0xFF, CHR 0x00, CHR 0x80]]"

definition capturing :: mock_shared where
  "capturing = shared_default\<lparr>posted_articles := Some []\<rparr>"

text \<open>The server that captures what is posted, after it has been sent the article.\<close>

definition test_post_article_bytes_success_preserves_binary_and_dot_lines :: bool where
  "test_post_article_bytes_success_preserves_binary_and_dot_lines \<longleftrightarrow>
     (let sent = hello @ ''POST'' @ crlf @ crlf_lines [''From: test@example.com'', ''Newsgroups: alt.binaries.test'',
                   ''Subject: binary-post'', [], ''plain-line'', ''..leading-dot'', ''...double-dot'',
                   [CHR 0xFF, CHR 0x00, CHR 0x80], ''.''];
          server = mock_connection to_ascii_uppercase mock_default (mock_conn_new capturing [] 0 sent);
          (r, conn) = rbind (connect (net_with (outp server)) None (test_config 119) (new_connection ''test''))
             (\<lambda>_. post_article_bytes binary_article)
      in case r of
           Inl _ \<Rightarrow> False
         | Inr response \<Rightarrow>
             code response = 240 \<and> state conn = Ready \<and> map_option tx (transport conn) = Some sent
             \<and> posted_articles (shared server) = Some [binary_article])"

definition test_post_article_bytes_not_permitted :: bool where
  "test_post_article_bytes_not_permitted \<longleftrightarrow>
     passes (mock_default\<lparr>post_not_permitted := True\<rparr>) [''POST''] (\<lambda>conn.
       rbind (post_article_bytes (crlf_lines [''From: a'', [], ''body'']) conn) (\<lambda>response conn.
         check (code response = 440 \<and> state conn = Ready) conn))"

definition test_post_article_bytes_wrong_state :: bool where
  "test_post_article_bytes_wrong_state \<longleftrightarrow>
     err_with (fst (post_article_bytes (crlf_lines [''From: a'', [], ''body'']) (new_connection ''test'')))
       is_protocol_error"

lemma posting_test: test_post_article_bytes_success_preserves_binary_and_dot_lines
  by (simp add: run binary_article_def capturing_def
      test_post_article_bytes_success_preserves_binary_and_dot_lines_def cong: run_cong)

lemma post_refused_test: test_post_article_bytes_not_permitted
  by (simp add: run test_post_article_bytes_not_permitted_def cong: run_cong)

lemma post_state_test: test_post_article_bytes_wrong_state
  by (simp add: run new_connection_def test_post_article_bytes_wrong_state_def)

section \<open>STAT and QUIT\<close>

definition test_stat_article_exists :: bool where
  "test_stat_article_exists \<longleftrightarrow>
     passes (with_articles [(''stat1@test'', ''data'')]) [''STAT <stat1@test>''] (\<lambda>conn.
       rbind (stat_article ''stat1@test'' conn) (\<lambda>response conn.
         check (code response = 223 \<and> state conn = Ready) conn))"

definition test_stat_article_not_found :: bool where
  "test_stat_article_not_found \<longleftrightarrow>
     passes mock_default [''STAT <missing@test>''] (\<lambda>conn.
       rbind (fails_with (stat_article ''missing@test'' conn) is_article_not_found) (\<lambda>_ conn.
         check (state conn = Ready) conn))"

definition test_quit_graceful :: bool where
  "test_quit_graceful \<longleftrightarrow>
     passes mock_default [''QUIT''] (\<lambda>conn.
       check_first (is_connected conn)
         (rbind (quit conn) (\<lambda>_ conn. check (state conn = Disconnected \<and> \<not> is_connected conn) conn)))"

definition test_quit_when_not_connected :: bool where
  "test_quit_when_not_connected \<longleftrightarrow>
     (let (r, conn) = quit (new_connection ''test'') in r = Inr () \<and> state conn = Disconnected)"

definition test_command_in_wrong_state :: bool where
  "test_command_in_wrong_state \<longleftrightarrow>
     (let conn = new_connection ''test''
      in err_with (fst (fetch_article no_gunzip ''test@msg'' conn)) is_protocol_error
         \<and> err_with (fst (fetch_body no_gunzip ''test@msg'' conn)) is_protocol_error
         \<and> err_with (fst (stat_article ''test@msg'' conn)) is_protocol_error
         \<and> err_with (fst (group_command ''test.group'' conn)) is_protocol_error
         \<and> err_with (fst (xover no_gunzip 1 10 conn)) is_protocol_error
         \<and> err_with (fst (xhdr no_gunzip ''subject'' (Range 1 10) conn)) is_protocol_error
         \<and> err_with (fst (xpat no_gunzip ''subject'' (Range 1 10) [''*test*''] conn)) is_protocol_error)"

lemma stat_tests: test_stat_article_exists test_stat_article_not_found
  by (simp_all add: run test_stat_article_exists_def test_stat_article_not_found_def cong: run_cong)

lemma test_quit_graceful_passes: test_quit_graceful
  by (simp add: run test_quit_graceful_def cong: run_cong)

lemma test_quit_when_not_connected_passes: test_quit_when_not_connected
  by (simp add: run new_connection_def test_quit_when_not_connected_def)

lemma wrong_state_test: test_command_in_wrong_state
  by (simp add: run new_connection_def test_command_in_wrong_state_def cong: run_cong)

section \<open>Sequences\<close>

definition test_multiple_commands_sequentially :: bool where
  "test_multiple_commands_sequentially \<longleftrightarrow>
     passes ((with_articles [(''a1@test'', ''data1''), (''a2@test'', ''data2'')])\<lparr>groups := [(''alt.test'', 100, 1, 100)]\<rparr>)
       [''GROUP alt.test'', ''STAT <a1@test>'', ''ARTICLE <a1@test>'', ''BODY <a2@test>'', ''STAT <missing@test>'', ''QUIT''] (\<lambda>conn.
       rbind (group_command ''alt.test'' conn) (\<lambda>group conn. check_first (grp_count group = 100)
       (rbind (stat_article ''a1@test'' conn) (\<lambda>stat conn. check_first (code stat = 223)
       (rbind (fetch_article no_gunzip ''a1@test'' conn) (\<lambda>art conn. check_first (code art = 220)
       (rbind (fetch_body no_gunzip ''a2@test'' conn) (\<lambda>body conn. check_first (code body = 222)
       (rbind (fails_with (stat_article ''missing@test'' conn) (\<lambda>_. True)) (\<lambda>_ conn. check_first (state conn = Ready)
       (rbind (quit conn) (\<lambda>_ conn. check (state conn = Disconnected) conn))))))))))))"

definition test_group_then_xover_then_article :: bool where
  "test_group_then_xover_then_article \<longleftrightarrow>
     passes ((with_articles [(''a1@test'', ''Article one body'')])\<lparr>groups := [(''alt.test'', 10, 1, 10)],
          xover_entries := [join [HT] [''1'', ''Subject'', ''poster@x'', ''Date'', ''<a1@test>'', [], ''1000'', ''20'']]\<rparr>)
       [''GROUP alt.test'', ''XOVER 1-10'', ''ARTICLE <a1@test>''] (\<lambda>conn.
       rbind (group_command ''alt.test'' conn) (\<lambda>group conn. check_first (grp_count group = 10)
       (rbind (xover no_gunzip 1 10 conn) (\<lambda>overview conn.
          check_first (length overview = 1 \<and> xo_message_id (overview ! 0) = ''a1@test'')
       (rbind (fetch_article no_gunzip (xo_message_id (overview ! 0)) conn) (\<lambda>art.
          check (code art = 220 \<and> body_contains art ''Article one body'')))))))"

definition test_stat_then_article_workflow :: bool where
  "test_stat_then_article_workflow \<longleftrightarrow>
     passes (with_articles [(''check@test'', ''fetched after stat'')]) [''STAT <check@test>'', ''ARTICLE <check@test>''] (\<lambda>conn.
       rbind (stat_article ''check@test'' conn) (\<lambda>stat conn. check_first (code stat = 223)
       (rbind (fetch_article no_gunzip ''check@test'' conn) (\<lambda>art.
          check (code art = 220 \<and> body_contains art ''fetched after stat'')))))"

definition test_commands_after_successful_auth :: bool where
  "test_commands_after_successful_auth \<longleftrightarrow>
     talks ((with_articles [(''authed@test'', ''secured data'')])\<lparr>auth_required := True,
          valid_credentials := Some (''user'', ''pass''), groups := [(''alt.test'', 50, 1, 50)]\<rparr>)
       (test_config_with_auth 119 ''user'' ''pass'')
       (crlf_lines [''AUTHINFO USER user'', ''AUTHINFO PASS pass'', ''CAPABILITIES'', ''GROUP alt.test'',
          ''STAT <authed@test>'', ''ARTICLE <authed@test>'', ''BODY <authed@test>'']) (\<lambda>conn.
       rbind (group_command ''alt.test'' conn) (\<lambda>group conn. check_first (grp_count group = 50)
       (rbind (stat_article ''authed@test'' conn) (\<lambda>stat conn. check_first (code stat = 223)
       (rbind (fetch_article no_gunzip ''authed@test'' conn) (\<lambda>art conn. check_first (code art = 220)
       (rbind (fetch_body no_gunzip ''authed@test'' conn) (\<lambda>body. check (code body = 222)))))))))"

lemma test_multiple_commands_sequentially_passes: test_multiple_commands_sequentially
  by (simp add: run test_multiple_commands_sequentially_def cong: run_cong)

lemma test_group_then_xover_then_article_passes: test_group_then_xover_then_article
  by (simp add: run map_filter_simps test_group_then_xover_then_article_def cong: run_cong)

lemma test_stat_then_article_workflow_passes: test_stat_then_article_workflow
  by (simp add: run test_stat_then_article_workflow_def cong: run_cong)

lemma test_commands_after_successful_auth_passes: test_commands_after_successful_auth
  by (simp add: run run_opening test_commands_after_successful_auth_def cong: run_cong)

section \<open>Write timeouts against a peer that stops reading\<close>

text \<open>
  The peer of these tests answers every command with 500 until it sees STALL or POST (answered with
  340); then it stops reading and keeps the socket open.  Here it is given the lines it reads.  The
  writes that still fit into the socket's buffers succeed; the one of the huge payload, whatever its
  bytes, does not come to an end.
\<close>

fun stalling_answers :: "bytes list \<Rightarrow> bytes" where
  "stalling_answers [] = []"
| "stalling_answers (line # lines) =
     (if starts_with ''STALL'' line then []
      else if starts_with ''POST'' line then ''340 send'' @ crlf
      else ''500 what'' @ crlf @ stalling_answers lines)"

definition stalling_net :: "bytes list \<Rightarrow> nat \<Rightarrow> net_env" where
  "stalling_net lines fit = (net_with [])
     \<lparr>tcp_connect := (\<lambda>_. Inr
        \<lparr>rx = map RxByte (''200 ready'' @ crlf @ stalling_answers lines) @ [RxWait (3600 * 1000)],
         wr = replicate fit WrOk @ [WrStall], tx = [], tls = False\<rparr>)\<rparr>"

fun write_timed_out :: "nntp_error \<Rightarrow> bool" where
  "write_timed_out (Io e) \<longleftrightarrow> io_kind e = TimedOut"
| "write_timed_out _ \<longleftrightarrow> False"

text \<open>The last call fails with a timeout, within 30 seconds, after what went before has been sent.\<close>

definition stalls ::
  "bytes list \<Rightarrow> nat \<Rightarrow> bytes \<Rightarrow> (nntp_connection \<Rightarrow> unit nntp_result \<times> nntp_connection) \<Rightarrow> (nntp_connection \<Rightarrow> bool) \<Rightarrow> bool" where
  "stalls lines fit sent body P \<longleftrightarrow>
     (case rbind (connect (stalling_net lines fit) None (test_config 119) (new_connection ''stall''))
             (\<lambda>_ conn. body (conn\<lparr>write_timeout := 300\<rparr>)) of
        (Inr _, _) \<Rightarrow> False
      | (Inl e, conn) \<Rightarrow>
          write_timed_out e \<and> now conn < 30 * 1000 \<and> P conn
          \<and> (case transport conn of None \<Rightarrow> True | Some t \<Rightarrow> tx t = sent))"

definition test_send_command_times_out_when_peer_stops_reading :: "bytes \<Rightarrow> bool" where
  "test_send_command_times_out_when_peer_stops_reading payload \<longleftrightarrow>
     (let lines = [''CAPABILITIES'', ''STALL'']
      in stalls lines 4 (crlf_lines lines)
           (\<lambda>conn. rbind (send_command ''STALL'' conn) (\<lambda>_. send_command payload)) (\<lambda>_. True))"

definition test_post_body_write_times_out_when_peer_stops_reading :: "bytes \<Rightarrow> bool" where
  "test_post_body_write_times_out_when_peer_stops_reading payload \<longleftrightarrow>
     (let lines = [''CAPABILITIES'', ''POST'']
      in stalls lines 12 (crlf_lines (lines @ [''Subject: x'', []]))
           (\<lambda>conn. rbind (post_article_bytes (''Subject: x'' @ crlf @ crlf @ payload) conn) (\<lambda>_ c. (Inr (), c)))
           (\<lambda>conn. state conn = Error))"

lemmas run_stalling =
  stalling_net_def stalls_def query_capabilities_def

lemma test_send_command_times_out_when_peer_stops_reading_passes:
  "test_send_command_times_out_when_peer_stops_reading payload"
  by (simp add: run run_opening run_stalling test_send_command_times_out_when_peer_stops_reading_def cong: run_cong)

lemma payload_chunks:
  assumes "payload \<noteq> []"
  obtains d ds where "concat (map byte_line_chunks (byte_lines payload)) = d # ds"
proof (cases "concat (map byte_line_chunks (byte_lines payload))")
  case Nil
  with assms show thesis by (cases payload) (simp_all add: byte_line_chunks_def)
qed (rule that)

lemma test_post_body_write_times_out_when_peer_stops_reading_passes:
  assumes "payload \<noteq> []"
  shows "test_post_body_write_times_out_when_peer_stops_reading payload"
proof -
  from payload_chunks [OF assms] obtain d ds
    where "concat (map byte_line_chunks (byte_lines payload)) = d # ds" .
  then show ?thesis
    by (simp add: run run_opening run_stalling
        test_post_body_write_times_out_when_peer_stops_reading_def cong: run_cong)
qed

end
