(* ===== verification/Tests_Listings.thy ===== *)
theory Tests_Listings
  imports Tests_Commands
begin

text \<open>
  The tests of \<open>connection.rs\<close> for the listing commands: XOVER in its lenient and its lossless form,
  XHDR, XPAT and LIST ACTIVE, against the mock server.
\<close>

section \<open>XOVER\<close>

definition a_group :: "nat \<Rightarrow> (bytes \<times> nat \<times> nat \<times> nat) list" where
  "a_group n = [(''alt.binaries.test'', n, 1, n)]"

abbreviation select_group :: bytes where
  "select_group \<equiv> ''GROUP alt.binaries.test''"

text \<open>Most of them select the group first.\<close>

definition in_group ::
  "(nntp_connection \<Rightarrow> bool nntp_result \<times> nntp_connection) \<Rightarrow> nntp_connection \<Rightarrow> bool nntp_result \<times> nntp_connection" where
  "in_group body conn = rbind (group_command ''alt.binaries.test'' conn) (\<lambda>_. body)"

declare a_group_def [run] in_group_def [run] map_filter_simps [run]

definition test_xover_success :: bool where
  "test_xover_success \<longleftrightarrow>
     passes ((with_groups (a_group 100))\<lparr>xover_entries :=
          [join [HT] [''1'', ''Test Subject 1'', ''poster@test.com'', ''Mon, 01 Jan 2024'', ''<art1@test>'', [], ''50000'', ''100''],
           join [HT] [''2'', ''Test Subject 2'', ''poster@test.com'', ''Mon, 01 Jan 2024'', ''<art2@test>'', [], ''60000'', ''120'']]\<rparr>)
       [select_group, ''XOVER 1-100''] (in_group (\<lambda>conn.
       rbind (xover no_gunzip 1 100 conn) (\<lambda>entries conn.
         check (length entries = 2 \<and> xo_article_num (entries ! 0) = 1 \<and> xo_subject (entries ! 0) = ''Test Subject 1''
            \<and> xo_message_id (entries ! 0) = ''art1@test'' \<and> xo_bytes (entries ! 0) = 50000
            \<and> xo_article_num (entries ! 1) = 2 \<and> xo_bytes (entries ! 1) = 60000 \<and> state conn = Ready) conn)))"

definition lossless_overview_negotiates_format_and_retains_defects :: bool where
  "lossless_overview_negotiates_format_and_retains_defects \<longleftrightarrow>
     passes ((with_groups (a_group 2))\<lparr>xover_raw_entries :=
          [join [HT] [''1'', espana, ''poster@test'', ''Date'', ''<one@test>'', [], ''10'', ''1''],
           join [HT] [''2'', ''Sub'', ''ject'', ''poster@test'', ''Date'', ''<two@test>'', [], ''10'', ''1'']]\<rparr>)
       [select_group, ''LIST OVERVIEW.FMT'', ''XOVER 1-2''] (in_group (\<lambda>conn.
       rbind (get_overview_format no_gunzip conn) (\<lambda>fmt conn.
       rbind (xover_lossless no_gunzip 1 2 fmt conn) (\<lambda>overview conn.
         check (length (fmt_fields fmt) = 7 \<and> row_fields (rows overview ! 0) ! 0 = espana
            \<and> def_number (defective_rows overview ! 0) = Some 2
            \<and> failure_code (defective_rows overview ! 0) = FieldCountInvalid \<and> state conn = Ready) conn))))"

definition test_xover_empty_range :: bool where
  "test_xover_empty_range \<longleftrightarrow>
     passes (with_groups (a_group 100)) [select_group, ''XOVER 1-100''] (in_group (\<lambda>conn.
       rbind (xover no_gunzip 1 100 conn) (\<lambda>entries conn. check (entries = [] \<and> state conn = Ready) conn)))"

definition test_xover_no_group_selected :: bool where
  "test_xover_no_group_selected \<longleftrightarrow>
     passes mock_default [''XOVER 1-100''] (\<lambda>conn.
       rbind (fails_with (xover no_gunzip 1 100 conn) is_no_such_group) (\<lambda>_. check True))"

definition traitors :: bytes where
  "traitors = join [HT] [''1'', ''Traitors Espana S02E01'', ''poster'', ''Wed, 07 May 2025 20:50:00 +0000'', ''<1@test>'', [], ''100'', ''1'']"

definition unsupported_xpat_keeps_the_connection_ready_for_bounded_xover :: bool where
  "unsupported_xpat_keeps_the_connection_ready_for_bounded_xover \<longleftrightarrow>
     passes ((with_groups (a_group 1))\<lparr>xpat_unsupported := True, xover_entries := [traitors]\<rparr>)
       [select_group, ''LIST OVERVIEW.FMT'', ''XPAT Subject 1-1 *Traitors*'', ''XOVER 1-1''] (in_group (\<lambda>conn.
       rbind (get_overview_format no_gunzip conn) (\<lambda>fmt conn.
       rbind (fails_with (xpat_bounded no_gunzip ''Subject'' (Range 1 1) [''*Traitors*''] 1024 conn)
           is_unsupported_command) (\<lambda>_ conn. check_first (state conn = Ready)
       (rbind (xover_lossless_bounded no_gunzip 1 1 fmt 1024 conn) (\<lambda>overview.
         check (length (rows (br_value overview)) = 1)))))))"

definition bounded_lossless_xover_fails_before_retaining_an_oversized_response :: bool where
  "bounded_lossless_xover_fails_before_retaining_an_oversized_response \<longleftrightarrow>
     passes ((with_groups (a_group 1))\<lparr>xover_entries := [traitors]\<rparr>)
       [select_group, ''LIST OVERVIEW.FMT'', ''XOVER 1-1''] (in_group (\<lambda>conn.
       rbind (get_overview_format no_gunzip conn) (\<lambda>fmt conn.
       rbind (fails_with (xover_lossless_bounded no_gunzip 1 1 fmt 8 conn) is_response_too_large) (\<lambda>_ conn.
         check (state conn = Error) conn))))"

lemma test_xover_success_passes: test_xover_success
  by (simp add: run test_xover_success_def cong: run_cong)

lemma lossless_overview_test: lossless_overview_negotiates_format_and_retains_defects
  by (simp add: run espana_def lossless_overview_negotiates_format_and_retains_defects_def cong: run_cong)

lemma empty_xover_tests: test_xover_empty_range test_xover_no_group_selected
  by (simp_all add: run test_xover_empty_range_def test_xover_no_group_selected_def cong: run_cong)

lemma xpat_fallback_test: unsupported_xpat_keeps_the_connection_ready_for_bounded_xover
  by (simp add: run traitors_def unsupported_xpat_keeps_the_connection_ready_for_bounded_xover_def cong: run_cong)

lemma bounded_xover_test: bounded_lossless_xover_fails_before_retaining_an_oversized_response
  by (simp add: run traitors_def bounded_lossless_xover_fails_before_retaining_an_oversized_response_def cong: run_cong)

section \<open>XHDR and XPAT\<close>

definition test_xhdr_success :: bool where
  "test_xhdr_success \<longleftrightarrow>
     passes ((with_groups (a_group 100))\<lparr>xhdr_entries :=
          [''1 Agent Zeta S01E01 720p'', ''2 Agent Zeta S01E02 1080p'', ''3 Breaking Bad S05E16'']\<rparr>)
       [select_group, ''XHDR subject 1-100''] (in_group (\<lambda>conn.
       rbind (xhdr no_gunzip ''subject'' (Range 1 100) conn) (\<lambda>entries conn.
         check (length entries = 3 \<and> he_article_num (entries ! 0) = 1 \<and> he_value (entries ! 0) = ''Agent Zeta S01E01 720p''
            \<and> he_article_num (entries ! 2) = 3 \<and> he_value (entries ! 2) = ''Breaking Bad S05E16''
            \<and> state conn = Ready) conn)))"

definition test_xhdr_empty_range :: bool where
  "test_xhdr_empty_range \<longleftrightarrow>
     passes (with_groups (a_group 100)) [select_group, ''XHDR subject 1-100''] (in_group (\<lambda>conn.
       rbind (xhdr no_gunzip ''subject'' (Range 1 100) conn) (\<lambda>entries conn.
         check (entries = [] \<and> state conn = Ready) conn)))"

definition test_xhdr_no_group_selected :: bool where
  "test_xhdr_no_group_selected \<longleftrightarrow>
     passes mock_default [''XHDR subject 1-100''] (\<lambda>conn.
       rbind (xhdr no_gunzip ''subject'' (Range 1 100) conn) (\<lambda>entries. check (entries = [])))"

definition test_xpat_success :: bool where
  "test_xpat_success \<longleftrightarrow>
     passes ((with_groups (a_group 100000))\<lparr>xpat_entries :=
          [''500 Agent Zeta S01E01 720p WEB-DL'', ''12345 Agent Zeta S01E02 1080p BluRay'']\<rparr>)
       [select_group, ''XPAT subject 1-99999999 *Agent Zeta*''] (in_group (\<lambda>conn.
       rbind (xpat no_gunzip ''subject'' (Range 1 99999999) [''*Agent Zeta*''] conn) (\<lambda>entries conn.
         check (length entries = 2 \<and> he_article_num (entries ! 0) = 500 \<and> contains ''Agent Zeta'' (he_value (entries ! 0))
            \<and> he_article_num (entries ! 1) = 12345 \<and> state conn = Ready) conn)))"

definition test_xpat_no_matches :: bool where
  "test_xpat_no_matches \<longleftrightarrow>
     passes (with_groups (a_group 100)) [select_group, ''XPAT subject 1-100 *NonExistent*''] (in_group (\<lambda>conn.
       rbind (xpat no_gunzip ''subject'' (Range 1 100) [''*NonExistent*''] conn) (\<lambda>entries conn.
         check (entries = [] \<and> state conn = Ready) conn)))"

definition test_xpat_multiple_patterns :: bool where
  "test_xpat_multiple_patterns \<longleftrightarrow>
     passes ((with_groups (a_group 100))\<lparr>xpat_entries := [''10 Agent Zeta S01E01'', ''20 Breaking Bad S05E16'']\<rparr>)
       [select_group, ''XPAT subject 1-100 *Agent Zeta* *Breaking Bad*''] (in_group (\<lambda>conn.
       rbind (xpat no_gunzip ''subject'' (Range 1 100) [''*Agent Zeta*'', ''*Breaking Bad*''] conn) (\<lambda>entries.
         check (length entries = 2))))"

definition test_xpat_no_group_selected :: bool where
  "test_xpat_no_group_selected \<longleftrightarrow>
     passes mock_default [''XPAT subject 1-100 *test*''] (\<lambda>conn.
       rbind (xpat no_gunzip ''subject'' (Range 1 100) [''*test*''] conn) (\<lambda>entries. check (entries = [])))"

definition test_xpat_empty_patterns_error :: bool where
  "test_xpat_empty_patterns_error \<longleftrightarrow>
     passes (with_groups (a_group 100)) [select_group] (in_group (\<lambda>conn.
       rbind (fails_with (xpat no_gunzip ''subject'' (Range 1 100) [] conn) is_protocol_error) (\<lambda>_ conn.
         check (state conn = Ready) conn)))"

lemma test_xhdr_success_passes: test_xhdr_success
  by (simp add: run test_xhdr_success_def cong: run_cong)

lemma empty_xhdr_tests: test_xhdr_empty_range test_xhdr_no_group_selected
  by (simp_all add: run test_xhdr_empty_range_def test_xhdr_no_group_selected_def cong: run_cong)

lemma test_xpat_success_passes: test_xpat_success
  by (simp add: run test_xpat_success_def cong: run_cong)

lemma empty_xpat_tests: test_xpat_no_matches test_xpat_no_group_selected test_xpat_empty_patterns_error
  by (simp_all add: run test_xpat_no_matches_def test_xpat_no_group_selected_def
      test_xpat_empty_patterns_error_def cong: run_cong)

lemma test_xpat_multiple_patterns_passes: test_xpat_multiple_patterns
  by (simp add: run test_xpat_multiple_patterns_def cong: run_cong)

section \<open>LIST ACTIVE\<close>

definition test_list_active_success :: bool where
  "test_list_active_success \<longleftrightarrow>
     passes (mock_default\<lparr>list_active_entries :=
          [''alt.binaries.test 50000 1 y'', ''alt.binaries.misc 99999 500 n'', ''comp.lang.rust 3000 1 m'']\<rparr>)
       [''LIST ACTIVE''] (\<lambda>conn.
       rbind (list_active no_gunzip None conn) (\<lambda>entries conn.
         check (length entries = 3 \<and> la_name (entries ! 0) = ''alt.binaries.test'' \<and> la_high (entries ! 0) = 50000
            \<and> la_low (entries ! 0) = 1 \<and> la_status (entries ! 0) = ''y'' \<and> la_name (entries ! 1) = ''alt.binaries.misc''
            \<and> la_status (entries ! 1) = ''n'' \<and> la_status (entries ! 2) = ''m'' \<and> state conn = Ready) conn))"

definition test_list_active_empty :: bool where
  "test_list_active_empty \<longleftrightarrow>
     passes mock_default [''LIST ACTIVE''] (\<lambda>conn.
       rbind (list_active no_gunzip None conn) (\<lambda>entries conn. check (entries = [] \<and> state conn = Ready) conn))"

definition test_list_active_with_wildmat :: bool where
  "test_list_active_with_wildmat \<longleftrightarrow>
     passes (mock_default\<lparr>list_active_entries := [''alt.binaries.test 1000 1 y'']\<rparr>)
       [''LIST ACTIVE alt.binaries.*''] (\<lambda>conn.
       rbind (list_active no_gunzip (Some ''alt.binaries.*'') conn) (\<lambda>entries. check (length entries = 1)))"

lemma test_list_active_success_passes: test_list_active_success
  by (simp add: run test_list_active_success_def cong: run_cong)

lemma small_list_active_tests: test_list_active_empty test_list_active_with_wildmat
  by (simp_all add: run test_list_active_empty_def test_list_active_with_wildmat_def cong: run_cong)

end
