(* ===== verification/Tests_Pipeline.thy ===== *)
theory Tests_Pipeline
  imports Tests_Commands
begin

text \<open>The tests of \<open>pipeline.rs\<close>: the ARTICLE pipeline and the STAT checker against the mock server.\<close>

section \<open>The queues\<close>

definition test_pipeline_submit_and_counts :: bool where
  "test_pipeline_submit_and_counts \<longleftrightarrow>
     (let pipe0 = pipeline_new 5;
          pipe = submit ''def@example.com'' 2 (submit ''abc@example.com'' 1 pipe0)
      in pipeline_is_empty pipe0 \<and> pending_count pipe = 2 \<and> in_flight_count pipe = 0 \<and> \<not> pipeline_is_empty pipe)"

definition test_pipeline_depth_minimum :: bool where
  "test_pipeline_depth_minimum \<longleftrightarrow> depth (pipeline_new 0) = 1"

definition test_pipeline_depth_values :: bool where
  "test_pipeline_depth_values \<longleftrightarrow>
     depth (pipeline_new 1) = 1 \<and> depth (pipeline_new 5) = 5 \<and> depth (pipeline_new 255) = 255"

definition test_pipeline_empty_after_creation :: bool where
  "test_pipeline_empty_after_creation \<longleftrightarrow>
     (let pipe = pipeline_new 10 in pipeline_is_empty pipe \<and> in_flight_count pipe = 0 \<and> pending_count pipe = 0)"

lemma queue_tests:
  test_pipeline_submit_and_counts test_pipeline_depth_minimum test_pipeline_depth_values
  test_pipeline_empty_after_creation
  by (simp_all add: run test_pipeline_submit_and_counts_def test_pipeline_depth_minimum_def
      test_pipeline_depth_values_def test_pipeline_empty_after_creation_def)

section \<open>The ARTICLE pipeline\<close>

text \<open>Going on with the connection when the pipeline is not used again.\<close>

definition on_conn :: "'a nntp_result \<times> 'p \<times> nntp_connection \<Rightarrow> 'a nntp_result \<times> nntp_connection" where
  "on_conn x = (fst x, snd (snd x))"

definition is_ok :: "'e + 'a \<Rightarrow> bool" where
  "is_ok r \<longleftrightarrow> ok_with r (\<lambda>_. True)"

declare on_conn_def [run] is_ok_def [run]

definition test_pipeline_process_all_single_article :: bool where
  "test_pipeline_process_all_single_article \<longleftrightarrow>
     passes (with_articles [(''pipe1@test'', ''Pipeline article 1'')]) [''ARTICLE <pipe1@test>''] (\<lambda>conn.
       rbind (on_conn (process_all (submit ''pipe1@test'' 1 (pipeline_new 1)) conn)) (\<lambda>results.
         check (length results = 1 \<and> req_tag (res_request (results ! 0)) = 1
            \<and> req_message_id (res_request (results ! 0)) = ''pipe1@test''
            \<and> ok_with (res_result (results ! 0)) (\<lambda>resp. code resp = 220 \<and> data resp \<noteq> None))))"

definition test_pipeline_process_all_multiple_articles :: bool where
  "test_pipeline_process_all_multiple_articles \<longleftrightarrow>
     passes (with_articles [(''p1@test'', ''Body 1''), (''p2@test'', ''Body 2''), (''p3@test'', ''Body 3'')])
       [''ARTICLE <p1@test>'', ''ARTICLE <p2@test>'', ''ARTICLE <p3@test>''] (\<lambda>conn.
       rbind (on_conn (process_all
           (submit ''p3@test'' 30 (submit ''p2@test'' 20 (submit ''p1@test'' 10 (pipeline_new 3)))) conn)) (\<lambda>results.
         check (length results = 3
            \<and> list_all (\<lambda>result. ok_with (res_result result) (\<lambda>resp. code resp = 220)) results
            \<and> req_tag (res_request (results ! 0)) = 10 \<and> req_tag (res_request (results ! 1)) = 20
            \<and> req_tag (res_request (results ! 2)) = 30)))"

definition test_pipeline_with_missing_articles :: bool where
  "test_pipeline_with_missing_articles \<longleftrightarrow>
     passes (with_articles [(''exists@test'', ''Found it'')])
       [''ARTICLE <exists@test>'', ''ARTICLE <missing@test>'', ''ARTICLE <exists@test>''] (\<lambda>conn.
       rbind (on_conn (process_all
           (submit ''exists@test'' 3 (submit ''missing@test'' 2 (submit ''exists@test'' 1 (pipeline_new 3)))) conn)) (\<lambda>results.
         check (length results = 3 \<and> is_ok (res_result (results ! 0))
            \<and> err_with (res_result (results ! 1)) is_article_not_found \<and> is_ok (res_result (results ! 2)))))"

definition test_pipeline_depth_one_sequential :: bool where
  "test_pipeline_depth_one_sequential \<longleftrightarrow>
     passes (with_articles [(''seq1@test'', ''Sequential 1''), (''seq2@test'', ''Sequential 2'')])
       [''ARTICLE <seq1@test>'', ''ARTICLE <seq2@test>''] (\<lambda>conn.
       rbind (on_conn (process_all (submit ''seq2@test'' 2 (submit ''seq1@test'' 1 (pipeline_new 1))) conn)) (\<lambda>results.
         check (length results = 2 \<and> is_ok (res_result (results ! 0)) \<and> is_ok (res_result (results ! 1)))))"

definition test_pipeline_flush_and_receive_manually :: bool where
  "test_pipeline_flush_and_receive_manually \<longleftrightarrow>
     passes (with_articles [(''manual@test'', ''Manual pipeline'')]) [''ARTICLE <manual@test>''] (\<lambda>conn.
       on_conn (rbind (flush_sends (submit ''manual@test'' 1 (pipeline_new 5)) conn) (\<lambda>_ (pipe, conn).
         rbind (receive_one pipe conn) (\<lambda>result s.
           (Inr (in_flight_count pipe = 1 \<and> pending_count pipe = 0
              \<and> (case result of None \<Rightarrow> False
                 | Some r \<Rightarrow> is_ok (res_result r) \<and> req_message_id (res_request r) = ''manual@test'')), s)))))"

definition test_pipeline_receive_with_nothing_in_flight :: bool where
  "test_pipeline_receive_with_nothing_in_flight \<longleftrightarrow>
     passes mock_default [] (\<lambda>conn.
       rbind (on_conn (receive_one (pipeline_new 5) conn)) (\<lambda>result. check (result = None)))"

definition test_pipeline_empty_process_all :: bool where
  "test_pipeline_empty_process_all \<longleftrightarrow>
     passes mock_default [] (\<lambda>conn.
       rbind (on_conn (process_all (pipeline_new 5) conn)) (\<lambda>results. check (results = [])))"

lemma pipeline_article_tests:
  test_pipeline_process_all_single_article test_pipeline_flush_and_receive_manually
  test_pipeline_receive_with_nothing_in_flight test_pipeline_empty_process_all
  by (simp_all add: run test_pipeline_process_all_single_article_def test_pipeline_flush_and_receive_manually_def
      test_pipeline_receive_with_nothing_in_flight_def test_pipeline_empty_process_all_def cong: run_cong)

lemma test_pipeline_process_all_multiple_articles_passes: test_pipeline_process_all_multiple_articles
  by (simp add: run test_pipeline_process_all_multiple_articles_def cong: run_cong)

lemma test_pipeline_with_missing_articles_passes: test_pipeline_with_missing_articles
  by (simp add: run test_pipeline_with_missing_articles_def cong: run_cong)

lemma test_pipeline_depth_one_sequential_passes: test_pipeline_depth_one_sequential
  by (simp add: run test_pipeline_depth_one_sequential_def cong: run_cong)

section \<open>The STAT checker\<close>

definition stat_all :: "bytes list \<Rightarrow> stat_pipeline" where
  "stat_all ids = fold stat_add ids stat_new"

declare stat_all_def [run]

definition test_stat_pipeline_all_exist :: bool where
  "test_stat_pipeline_all_exist \<longleftrightarrow>
     passes (with_articles [(''s1@test'', ''data''), (''s2@test'', ''data''), (''s3@test'', ''data'')])
       [''STAT <s1@test>'', ''STAT <s2@test>'', ''STAT <s3@test>''] (\<lambda>conn.
       let stat = stat_all [''s1@test'', ''s2@test'', ''s3@test'']
       in check_first (length (stat_pending stat) = 3)
         (rbind (on_conn (stat_execute stat conn)) (\<lambda>results conn.
           check (length results = 3 \<and> list_all sr_exists results \<and> state conn = Ready) conn)))"

definition test_stat_pipeline_mixed_results :: bool where
  "test_stat_pipeline_mixed_results \<longleftrightarrow>
     passes (with_articles [(''found@test'', ''data'')]) [''STAT <found@test>'', ''STAT <missing@test>'', ''STAT <found@test>''] (\<lambda>conn.
       rbind (on_conn (stat_execute (stat_all [''found@test'', ''missing@test'', ''found@test'']) conn)) (\<lambda>results.
         check (length results = 3 \<and> sr_exists (results ! 0) \<and> \<not> sr_exists (results ! 1) \<and> sr_exists (results ! 2))))"

definition test_stat_pipeline_none_exist :: bool where
  "test_stat_pipeline_none_exist \<longleftrightarrow>
     passes mock_default [''STAT <no1@test>'', ''STAT <no2@test>''] (\<lambda>conn.
       rbind (on_conn (stat_execute (stat_all [''no1@test'', ''no2@test'']) conn)) (\<lambda>results.
         check (length results = 2 \<and> \<not> sr_exists (results ! 0) \<and> \<not> sr_exists (results ! 1))))"

definition test_stat_pipeline_empty :: bool where
  "test_stat_pipeline_empty \<longleftrightarrow>
     passes mock_default [] (\<lambda>conn.
       check_first (stat_pending stat_new = [])
         (rbind (on_conn (stat_execute stat_new conn)) (\<lambda>results conn. check (results = [] \<and> state conn = Ready) conn)))"

definition test_stat_pipeline_default :: bool where
  "test_stat_pipeline_default \<longleftrightarrow> stat_pending stat_new = [] \<and> length (stat_pending stat_new) = 0"

definition test_stat_pipeline_with_bracketed_ids :: bool where
  "test_stat_pipeline_with_bracketed_ids \<longleftrightarrow>
     passes (with_articles [(''bracketed@test'', ''data'')]) [''STAT <bracketed@test>'', ''STAT <bracketed@test>''] (\<lambda>conn.
       rbind (on_conn (stat_execute (stat_all [''<bracketed@test>'', ''bracketed@test'']) conn)) (\<lambda>results.
         check (length results = 2 \<and> sr_exists (results ! 0) \<and> sr_exists (results ! 1))))"

definition test_stat_pipeline_io_failure_marks_connection_error :: bool where
  "test_stat_pipeline_io_failure_marks_connection_error \<longleftrightarrow>
     passes ((with_articles [(''a0@test'', ''body''), (''a1@test'', ''body''), (''a2@test'', ''body''), (''a3@test'', ''body'')])
          \<lparr>close_after_n_commands := Some 2\<rparr>)
       [''STAT <a0@test>'', ''STAT <a1@test>'', ''STAT <a2@test>'', ''STAT <a3@test>''] (\<lambda>conn.
       rbind (fails_with (on_conn (stat_execute (stat_all [''a0@test'', ''a1@test'', ''a2@test'', ''a3@test'']) conn))
           (\<lambda>_. True)) (\<lambda>_ conn. check (state conn = Error) conn))"

definition test_stat_pipeline_unknown_response_fails_closed :: bool where
  "test_stat_pipeline_unknown_response_fails_closed \<longleftrightarrow>
     passes (mock_default\<lparr>article_response_overrides := [(''unknown@test'', 499)]\<rparr>) [''STAT <unknown@test>''] (\<lambda>conn.
       rbind (fails_with (on_conn (stat_execute (stat_all [''unknown@test'']) conn)) is_protocol_error) (\<lambda>_. check True))"

lemma stat_pipeline_tests:
  test_stat_pipeline_none_exist test_stat_pipeline_empty test_stat_pipeline_default
  test_stat_pipeline_unknown_response_fails_closed
  by (simp_all add: run test_stat_pipeline_none_exist_def test_stat_pipeline_empty_def test_stat_pipeline_default_def
      test_stat_pipeline_unknown_response_fails_closed_def cong: run_cong)

lemma test_stat_pipeline_all_exist_passes: test_stat_pipeline_all_exist
  by (simp add: run test_stat_pipeline_all_exist_def cong: run_cong)

lemma test_stat_pipeline_mixed_results_passes: test_stat_pipeline_mixed_results
  by (simp add: run test_stat_pipeline_mixed_results_def cong: run_cong)

lemma test_stat_pipeline_with_bracketed_ids_passes: test_stat_pipeline_with_bracketed_ids
  by (simp add: run test_stat_pipeline_with_bracketed_ids_def cong: run_cong)

lemma stat_failure_test: test_stat_pipeline_io_failure_marks_connection_error
  by (simp add: run run_opening test_stat_pipeline_io_failure_marks_connection_error_def cong: run_cong)

end
