(* ===== verification/Tests_Long.thy ===== *)
theory Tests_Long
  imports Tests_Pipeline Truncation_Laws Mock_Answers
begin

text \<open>
  The two tests with bodies too long to be run byte by byte, one of \<open>pipeline.rs\<close> and one of
  \<open>connection.rs\<close>: the body stays a name, and lemmas say what the server writes of it and what the
  client makes of that.
\<close>

section \<open>A server that closes in the middle of a body\<close>

text \<open>\<open>silent_close_after_bytes\<close> cuts a run of writes at exactly its limit.\<close>

lemma mwrites_cut:
  assumes "\<not> hung s" and "response_delay cfg = None" and "peer s = []"
    and "silent_close_after_bytes cfg = Some limit" and "bytes_written s \<le> limit"
    and "limit < bytes_written s + length (concat ds)"
  shows "mwrites cfg ds s =
    (False, s\<lparr>outp := outp s @ map RxByte (take (limit - bytes_written s) (concat ds)), bytes_written := limit\<rparr>)"
  using assms
proof (induction ds arbitrary: s)
  case (Cons d ds)
  show ?case
  proof (cases "limit < bytes_written s + length d \<or> limit \<le> bytes_written s")
    case True
    with Cons.prems show ?thesis
      by (auto simp: mock_write_def delay_write_def socket_write_def Let_def)
  next
    case False
    let ?s = "s\<lparr>outp := outp s @ map RxByte d, bytes_written := bytes_written s + length d\<rparr>"
    from False Cons.prems have w: "mock_write cfg d s = (True, ?s)"
      by (simp add: mock_write_def delay_write_def socket_write_def Let_def)
    from False Cons.prems Cons.IH [of ?s] have "mwrites cfg ds ?s =
        (False, ?s\<lparr>outp := outp ?s @ map RxByte (take (limit - bytes_written ?s) (concat ds)), bytes_written := limit\<rparr>)"
      by simp
    moreover from False have "length d \<le> limit - bytes_written s" by linarith
    then have "take (limit - bytes_written s) (concat (d # ds))
        = d @ take (limit - bytes_written ?s) (concat ds)" by simp
    ultimately show ?thesis using w by simp
  qed
qed simp

text \<open>The body of the test: 10000 lines.\<close>

definition cut_line :: bytes where "cut_line = ''line of article data''"
definition cut_body :: bytes where "cut_body = crlf_lines (replicate 10000 cut_line)"

lemma cut_body_wire: "concat (body_writes cut_body) = concat (replicate 10000 (cut_line @ crlf)) @ dot_line"
proof -
  have "byte_lines cut_body = replicate 10000 cut_line"
    unfolding cut_body_def by (rule byte_lines_crlf_lines) (simp add: cut_line_def)
  moreover have "cut_body \<noteq> []"
    by (simp add: cut_body_def crlf_lines_def)
  moreover have "stuff_line (cut_line @ crlf) = cut_line @ crlf"
    by (simp add: stuff_line_def cut_line_def)
  ultimately show ?thesis
    using wire_body_bytes [of "replicate 10000 cut_line"]
    by (simp add: body_writes_def wire_body_def canonical_lines_def map_replicate_const)
qed

lemma cut_body_length: "length (concat (body_writes cut_body)) = 220003"
  by (simp add: cut_body_wire length_concat sum_list_replicate cut_line_def dot_line_def)

lemma cut_body_parse: "body_parse (replicate 10000 (cut_line @ crlf)) dot_line"
  by (simp add: body_parse_def list_all_iff cut_line_def is_line_def is_terminator_def dot_line_def)

text \<open>What the client makes of a part of it.\<close>

definition cut_rest :: "nat \<Rightarrow> rx_item list" where
  "cut_rest n = map RxByte (take n (concat (body_writes cut_body)))"

lemma cut_outcome:
  assumes "transport c = Some t" and "rx t = cut_rest n" and "n < 220003" and "code st = 220"
  shows "isl (fst (article_outcome req st c))" and "state (snd (article_outcome req st c)) = Error"
    and "(case transport (snd (article_outcome req st c)) of None \<Rightarrow> True | Some t' \<Rightarrow> tx t' = x) \<longleftrightarrow> tx t = x"
proof -
  have "strict_prefix (item_bytes (rx t)) (concat (replicate 10000 (cut_line @ crlf)) @ dot_line)"
    using assms(2,3) cut_body_length
    by (auto simp: cut_rest_def cut_body_wire [symmetric] strict_prefix_def take_is_prefix)
  from cut_body_fails [OF assms(1) cut_body_parse this reads_body_plain(1)] obtain e c' where
    r: "read_multiline_body c = (Inl e, c')" by (cases "read_multiline_body c"; cases "fst (read_multiline_body c)") auto
  with assms(1) obtain r where "transport c' = Some (t\<lparr>rx := r\<rparr>)"
    by (auto simp: read_multiline_body_def checkout_body_buffer_def read_multiline_body_into_bounded_def
        split: list.splits prod.splits)
  with r assms(4) show "isl (fst (article_outcome req st c))" "state (snd (article_outcome req st c)) = Error"
    "(case transport (snd (article_outcome req st c)) of None \<Rightarrow> True | Some t' \<Rightarrow> tx t' = x) \<longleftrightarrow> tx t = x"
    by (simp_all add: article_outcome_def finish_def)
qed

lemma err_case: "(case r of Inl e \<Rightarrow> True | Inr a \<Rightarrow> False) = isl r"
  by (cases r) simp_all

definition test_receive_one_body_failure_marks_connection_error :: bool where
  "test_receive_one_body_failure_marks_connection_error \<longleftrightarrow>
     passes ((with_articles [(''cut@test'', cut_body)])\<lparr>silent_close_after_bytes := Some 50000\<rparr>)
       [''ARTICLE <cut@test>''] (\<lambda>conn.
       case flush_sends (submit ''cut@test'' 0 (pipeline_new 1)) conn of
         (Inl e, _, conn) \<Rightarrow> (Inl e, conn)
       | (Inr _, pipe, conn) \<Rightarrow>
           (case receive_one pipe conn of
              (Inl e, _, conn) \<Rightarrow> (Inl e, conn)
            | (Inr None, _, conn) \<Rightarrow> check False conn
            | (Inr (Some res), _, conn) \<Rightarrow> check (err_with (res_result res) (\<lambda>_. True) \<and> state conn = Error) conn))"

lemma cut_body_server:
  "mock_net ((with_articles [(''cut@test'', cut_body)])\<lparr>silent_close_after_bytes := Some 50000\<rparr>)
     (hello @ crlf_lines [''ARTICLE <cut@test>'']) =
   net_with (greeting @ map RxByte (''220 0 <cut@test>'' @ crlf) @ cut_rest 49819)"
  by (simp add: run mock_connection_def mock_conn_new_def hello_def greeting_def caps_answer_def
      handle_capabilities_def write_multiline_body_def mwrites_cut cut_body_length cut_rest_def [symmetric]
      del: body_writes_def cong: run_cong)

lemma cut_body_test: test_receive_one_body_failure_marks_connection_error
  unfolding test_receive_one_body_failure_marks_connection_error_def passes_def talks_def cut_body_server
  by (simp add: run cut_outcome err_case split_beta
      del: article_outcome_def cong: run_cong)

section \<open>The heartbeat during a long read\<close>

text \<open>The body of the test: one line of 16384 bytes.\<close>

definition hb_body :: bytes where "hb_body = replicate 16384 (CHR ''x'')"
definition hb_rest :: "rx_item list" where "hb_rest = map RxByte (concat (body_writes hb_body))"
definition hb_data :: bytes where "hb_data = concat (canonical_lines (served_lines hb_body))"

lemma hb_reads:
  assumes "transport c = Some tr" and "rx tr = hb_rest"
  shows "read_multiline_body c =
    (Inr hb_data,
     c\<lparr>transport := Some (tr\<lparr>rx := []\<rparr>), io_heartbeat := tick (now c) (io_heartbeat c),
       body_pool := butlast (body_pool c)\<rparr>)"
proof -
  have "quick mock_default" by (simp add: quick_def delay_of_def mock_default_def READ_BODY_LINE_TIMEOUT_def)
  then obtain ss where "emit mock_default (body_writes hb_body) = concat ss"
      and d: "delivers_body ss (canonical_lines (served_lines hb_body))"
    using body_delivered by blast
  then have "hb_rest = concat ss"
    by (simp add: hb_rest_def emit_def pause_before_def mock_default_def map_concat del: body_writes_def)
  moreover from this have "pause_of (concat ss) = 0" unfolding hb_rest_def by (metis pause_of_map)
  ultimately show ?thesis
    using assms d by (simp add: read_multiline_body_ok [where ss = ss and r = "[]"] hb_data_def)
qed

definition heartbeat :: "nntp_connection \<Rightarrow> nat" where
  "heartbeat c = (case io_heartbeat c of None \<Rightarrow> 0 | Some h \<Rightarrow> timestamp_ms h)"

text \<open>The two pauses of the test are the clock's: 5 ms before the connection, 5 ms before the fetch.\<close>

definition test_io_heartbeat_ticks_on_every_read :: bool where
  "test_io_heartbeat_ticks_on_every_read \<longleftrightarrow>
     (case connect (mock_net (with_articles [(''hb@test'', hb_body)]) (hello @ crlf_lines [''BODY <hb@test>'']))
          None (test_config 119) (set_io_heartbeat 0 0 ((new_connection ''test'')\<lparr>now := 5\<rparr>)) of
        (Inl _, _) \<Rightarrow> False
      | (Inr _, conn) \<Rightarrow>
          (let after_connect = heartbeat conn in
           0 < after_connect
           \<and> (case fetch_body no_gunzip ''hb@test'' (conn\<lparr>now := now conn + 5\<rparr>) of
                (Inl _, _) \<Rightarrow> False
              | (Inr _, conn) \<Rightarrow>
                  after_connect < heartbeat conn
                  \<and> map_option tx (transport conn) = Some (hello @ crlf_lines [''BODY <hb@test>'']))))"

lemma hb_server:
  "mock_net (with_articles [(''hb@test'', hb_body)]) (hello @ crlf_lines [''BODY <hb@test>'']) =
   net_with (greeting @ map RxByte (''222 0 <hb@test>'' @ crlf) @ hb_rest)"
  by (simp add: run mwrites_sound sound_run_def wrote_def emit_def pause_before_def delay_of_def
      hb_rest_def map_concat del: body_writes_def cong: run_cong)

lemma hb_learns_caps:
  "query_capabilities
     \<lparr>server_id = i, state = Ready, transport = Some \<lparr>rx = caps_answer @ r, wr = [], tx = x, tls = b\<rparr>,
      compress_enabled = z, io_heartbeat = Some h, capabilities = k, body_pool = [], write_timeout = w, now = n\<rparr> =
   (Inr (),
     \<lparr>server_id = i, state = Ready,
      transport = Some \<lparr>rx = r, wr = [], tx = x @ ''CAPABILITIES'' @ crlf, tls = b\<rparr>,
      compress_enabled = z, io_heartbeat = Some (h\<lparr>timestamp_ms := n - epoch h\<rparr>), capabilities = usual_caps,
      body_pool = [], write_timeout = w, now = n\<rparr>)"
  by (simp add: run query_capabilities_def caps_answer_def usual_caps_def cong: run_cong)

lemma heartbeat_test: test_io_heartbeat_ticks_on_every_read
  unfolding test_io_heartbeat_ticks_on_every_read_def hb_server
  by (simp add: run connect_def net_with_def test_config_def new_connection_def greeting_def hello_def
      hb_learns_caps hb_reads heartbeat_def
      del: read_multiline_body_def cong: run_cong)

end
