(* ===== verification/Tests_Pool.thy ===== *)
theory Tests_Pool
  imports Tests_Connection
begin

text \<open>
  The tests of \<open>pool.rs\<close>.  Every connection a pool opens runs against its own mock
  connection; the tests also look at what a connection has sent, so that it is just what its server was
  given.
\<close>

section \<open>Running a pool\<close>

text \<open>The opening depends on the address and the login, not on how the pool uses the server.\<close>

lemma connect_config [run]:
  "connect net l (cfg\<lparr>connections := n\<rparr>) c = connect net l cfg c"
  "connect net l (cfg\<lparr>priority := k\<rparr>) c = connect net l cfg c"
  "connect net l (cfg\<lparr>cfg_id := i\<rparr>) c = connect net l cfg c"
  "connect net l (cfg\<lparr>cfg_name := m\<rparr>) c = connect net l cfg c"
  by (simp_all add: connect_def connect_inner_def dial_def addr_of_def install_transport_def
      build_tls_config_def authenticate_def auth_password_def probe_server_def
      cong: if_cong sum.case_cong option.case_cong)

lemma test_config_fields [run]:
  "cfg_id (test_config p) = ''test-server''" "cfg_name (test_config p) = ''Test Server''"
  "connections (test_config p) = 4" "ramp_up_delay_ms (test_config p) = 0"
  "priority (test_config p) = 0" "enabled (test_config p)" "connect_timeout_secs (test_config p) = 30"
  by (simp_all add: test_config_def)

lemma new_connection_now [run]: "now (new_connection i) = 0"
  by (simp add: new_connection_def)

definition pool_net :: "(bytes \<Rightarrow> net_env) \<Rightarrow> pool_env" where
  "pool_net nets = \<lparr>net_for = nets, lapse_for = (\<lambda>_. None), meanwhile = []\<rparr>"

text \<open>\<open>pool.acquire().await.unwrap()\<close>, and the assertion that it fails.\<close>

definition acquired ::
  "pool_env \<Rightarrow> connection_pool \<Rightarrow> int \<Rightarrow> (pooled_connection \<Rightarrow> connection_pool \<Rightarrow> int \<Rightarrow> bool) \<Rightarrow> bool" where
  "acquired env pool t k =
     (case acquire env pool t of (Inl _, _, _) \<Rightarrow> False | (Inr pooled, pool, t) \<Rightarrow> k pooled pool t)"

definition not_acquired ::
  "pool_env \<Rightarrow> connection_pool \<Rightarrow> int \<Rightarrow> (connection_pool \<Rightarrow> int \<Rightarrow> bool) \<Rightarrow> bool" where
  "not_acquired env pool t k =
     (case acquire env pool t of (Inl _, pool, t) \<Rightarrow> k pool t | (Inr _, _, _) \<Rightarrow> False)"

lemma acquired_run [run_cong]:
  "env = env' \<Longrightarrow> pool = pool' \<Longrightarrow> t = t' \<Longrightarrow> acquired env pool t k = acquired env' pool' t' k"
  by simp

declare pool_net_def [run] acquired_def [run] not_acquired_def [run]

definition has_sent :: "bytes \<Rightarrow> pooled_connection \<Rightarrow> bool" where
  "has_sent sent pc \<longleftrightarrow> (case transport (pc_conn pc) of None \<Rightarrow> False | Some t \<Rightarrow> tx t = sent)"

declare has_sent_def [run]

text \<open>The connection parked first, as the tests age or poison it.\<close>

definition with_first_idle ::
  "(pooled_connection \<Rightarrow> pooled_connection) \<Rightarrow> connection_pool \<Rightarrow> connection_pool" where
  "with_first_idle f pool = pool\<lparr>idle := (idle pool)[0 := f (idle pool ! 0)]\<rparr>"

declare with_first_idle_def [run]

abbreviation usual_pool :: pool_env where
  "usual_pool \<equiv> pool_net (\<lambda>_. mock_net mock_default hello)"

section \<open>Pool\<close>

definition test_pool_new :: bool where
  "test_pool_new \<longleftrightarrow>
     (let pool = pool_new (test_config 12345) 0
      in idle_count pool = 0 \<and> cfg_id (pool_config pool) = ''test-server'' \<and> permits pool = 4)"

definition test_pool_acquire_creates_connection :: bool where
  "test_pool_acquire_creates_connection \<longleftrightarrow>
     acquired usual_pool (pool_new (test_config 119) 0) 0 (\<lambda>pooled pool t.
       has_sent hello pooled
       \<and> state (pc_conn pooled) = Ready \<and> is_connected (pc_conn pooled) \<and> idle_count pool = 0
       \<and> idle_count (release pooled pool t) = 1)"

definition test_pool_release_and_reuse :: bool where
  "test_pool_release_and_reuse \<longleftrightarrow>
     acquired usual_pool (pool_new (test_config 119) 0) 0 (\<lambda>pooled pool t.
       let first_id = server_id (pc_conn pooled); pool = release pooled pool t
       in idle_count pool = 1
          \<and> acquired usual_pool pool t (\<lambda>pooled pool t.
              has_sent hello pooled \<and> server_id (pc_conn pooled) = first_id \<and> idle_count pool = 0))"

definition test_pool_discard_frees_slot :: bool where
  "test_pool_discard_frees_slot \<longleftrightarrow>
     acquired usual_pool (pool_new ((test_config 119)\<lparr>connections := 2\<rparr>) 0) 0 (\<lambda>c1 pool t.
     acquired usual_pool pool t (\<lambda>c2 pool t.
       has_sent hello c1 \<and> has_sent hello c2 \<and> permits pool = 0
       \<and> (let pool = discard c1 pool in permits pool = 1 \<and> idle_count pool = 0)))"

definition test_pool_health_check_reuses_live_stale_connection :: bool where
  "test_pool_health_check_reuses_live_stale_connection \<longleftrightarrow>
     (let env = pool_net (\<lambda>_. mock_net mock_default (hello @ crlf_lines [''DATE'']))
      in acquired env (pool_new (test_config 119) 0) 0 (\<lambda>c1 pool t.
           let first_id = server_id (pc_conn c1);
               pool = with_first_idle (\<lambda>pc. pc\<lparr>last_used := t - IDLE_TIMEOUT - 1000\<rparr>) (release c1 pool t)
           in acquired env pool t (\<lambda>c2 pool t.
                has_sent (hello @ crlf_lines [''DATE'']) c2
                \<and> server_id (pc_conn c2) = first_id \<and> state (pc_conn c2) = Ready)))"

text \<open>
  The server closes every session after the CAPABILITIES exchange; the client believes that STAT is
  missing.
\<close>

definition test_pool_health_check_detects_dead_idle_connection_without_stat :: bool where
  "test_pool_health_check_detects_dead_idle_connection_without_stat \<longleftrightarrow>
     (let env = pool_net (\<lambda>_. mock_net (mock_default\<lparr>close_after_n_commands := Some 1\<rparr>) hello)
      in acquired env (pool_new (test_config 119) 0) 0 (\<lambda>c1 pool t.
           let first_id = server_id (pc_conn c1);
               c1' = c1\<lparr>pc_conn := (pc_conn c1)\<lparr>capabilities := default_assumed\<lparr>have_stat := False\<rparr>\<rparr>\<rparr>;
               pool = with_first_idle (\<lambda>pc. pc\<lparr>last_used := t - IDLE_TIMEOUT - 1000\<rparr>) (release c1' pool t)
           in has_sent hello c1
              \<and> acquired env pool t (\<lambda>c2 pool t. has_sent hello c2 \<and> server_id (pc_conn c2) \<noteq> first_id)))"

definition test_pool_close_idle :: bool where
  "test_pool_close_idle \<longleftrightarrow>
     (let env = pool_net (\<lambda>_. mock_net mock_default (hello @ crlf_lines [''QUIT'']))
      in acquired env (pool_new (test_config 119) 0) 0 (\<lambda>c1 pool t.
         acquired env pool t (\<lambda>c2 pool t.
           let pool = release c2 (release c1 pool t) t
           in idle_count pool = 2 \<and> permits pool = 4
              \<and> (let (pool, t) = close_idle pool t in idle_count pool = 0 \<and> permits pool = 4))))"

definition test_pool_failed_connect_does_not_inflate_permits :: bool where
  "test_pool_failed_connect_does_not_inflate_permits \<longleftrightarrow>
     (let env = pool_net (\<lambda>_. refusing_net); pool = pool_new (test_config 119) 0
      in permits pool = 4
         \<and> not_acquired env pool 0 (\<lambda>pool t. permits pool = 4
             \<and> not_acquired env pool t (\<lambda>pool t. permits pool = 4
                 \<and> not_acquired env pool t (\<lambda>pool t. permits pool = 4))))"

definition test_pool_bad_idle_connection_does_not_inflate_permits :: bool where
  "test_pool_bad_idle_connection_does_not_inflate_permits \<longleftrightarrow>
     acquired usual_pool (pool_new (test_config 119) 0) 0 (\<lambda>c1 pool t.
       let pool = release c1 pool t
       in idle_count pool = 1 \<and> permits pool = 4
          \<and> acquired usual_pool
              (with_first_idle (\<lambda>pc. pc\<lparr>pc_conn := (pc_conn pc)\<lparr>state := Error\<rparr>\<rparr>) pool) t (\<lambda>c2 pool t.
              has_sent hello c2 \<and> state (pc_conn c2) = Ready \<and> idle_count pool = 0 \<and> permits pool = 3
              \<and> permits (release c2 pool t) = 4))"

definition test_pool_idle_count_tracking :: bool where
  "test_pool_idle_count_tracking \<longleftrightarrow>
     (let pool = pool_new (test_config 119) 0
      in idle_count pool = 0
         \<and> acquired usual_pool pool 0 (\<lambda>c1 pool t.
             idle_count pool = 0
             \<and> acquired usual_pool pool t (\<lambda>c2 pool t.
                 idle_count pool = 0
                 \<and> (let pool = release c1 pool t
                    in idle_count pool = 1 \<and> idle_count (release c2 pool t) = 2))))"

lemma test_pool_new_passes: test_pool_new
  by (simp add: run test_pool_new_def cong: run_cong)

lemma test_pool_acquire_creates_connection_passes: test_pool_acquire_creates_connection
  by (simp add: run test_pool_acquire_creates_connection_def cong: run_cong)

lemma test_pool_release_and_reuse_passes: test_pool_release_and_reuse
  by (simp add: run test_pool_release_and_reuse_def cong: run_cong)

lemma test_pool_discard_frees_slot_passes: test_pool_discard_frees_slot
  by (simp add: run test_pool_discard_frees_slot_def cong: run_cong)

lemma test_pool_health_check_reuses_live_stale_connection_passes:
  test_pool_health_check_reuses_live_stale_connection
  by (simp add: run test_pool_health_check_reuses_live_stale_connection_def cong: run_cong)

lemma test_pool_health_check_detects_dead_idle_connection_without_stat_passes:
  test_pool_health_check_detects_dead_idle_connection_without_stat
  by (simp add: run run_opening test_pool_health_check_detects_dead_idle_connection_without_stat_def cong: run_cong)

lemma test_pool_close_idle_passes: test_pool_close_idle
  by (simp add: run test_pool_close_idle_def cong: run_cong)

lemma test_pool_failed_connect_does_not_inflate_permits_passes:
  test_pool_failed_connect_does_not_inflate_permits
  by (simp add: run run_opening test_pool_failed_connect_does_not_inflate_permits_def cong: run_cong)

lemma test_pool_bad_idle_connection_does_not_inflate_permits_passes:
  test_pool_bad_idle_connection_does_not_inflate_permits
  by (simp add: run test_pool_bad_idle_connection_does_not_inflate_permits_def cong: run_cong)

lemma test_pool_idle_count_tracking_passes: test_pool_idle_count_tracking
  by (simp add: run test_pool_idle_count_tracking_def cong: run_cong)

end
