(* ===== verification/Tests_Server.thy ===== *)
theory Tests_Server
  imports Tests_Pool
begin

text \<open>
  The tests of \<open>server.rs\<close>.  They take no time worth speaking of: all calls of a test happen at the
  same instant \<open>t\<close>, which is arbitrary.
\<close>

definition make_config :: server_config where
  "make_config =
     \<lparr>cfg_id = ''srv-1'', cfg_name = ''Test NNTP'', host = ''127.0.0.1'', port = 563, ssl = False,
      ssl_verify = False, username = None, password = None, connections = 4, priority = 0,
      enabled = True, retention = 0, pipelining = 1, optional = False, compress = False,
      ramp_up_delay_ms = 0, recv_buffer_size = 0, proxy_url = None, trusted_fingerprint = None,
      connect_timeout_secs = 30\<rparr>"

definition test_new_server_state :: "int \<Rightarrow> bool" where
  "test_new_server_state t \<longleftrightarrow>
     (let s = server_new make_config t
      in active s \<and> connections_active s = 0 \<and> articles_tried s = 0 \<and> articles_failed s = 0
         \<and> bytes_downloaded s = 0 \<and> penalty_until s = None \<and> last_error s = None
         \<and> cfg_id (srv_config s) = ''srv-1'')"

definition test_new_disabled_server :: "int \<Rightarrow> bool" where
  "test_new_disabled_server t \<longleftrightarrow>
     (let s = server_new (make_config\<lparr>enabled := False\<rparr>) t in \<not> active s \<and> \<not> is_available s t)"

definition test_is_available_active_no_penalty :: "int \<Rightarrow> bool" where
  "test_is_available_active_no_penalty t \<longleftrightarrow> is_available (server_new make_config t) t"

definition test_is_available_penalized :: "int \<Rightarrow> bool" where
  "test_is_available_penalized t \<longleftrightarrow>
     (let s = penalize ''test error'' (60 * 1000) t (server_new make_config t)
      in \<not> is_available s t \<and> penalty_until s \<noteq> None \<and> last_error s = Some ''test error'')"

definition test_penalize_expired :: "int \<Rightarrow> bool" where
  "test_penalize_expired t \<longleftrightarrow>
     is_available ((server_new make_config t)\<lparr>penalty_until := Some (t - 1000)\<rparr>) t"

text \<open>\<open>penalty_until.unwrap().duration_since(now)\<close>, in milliseconds.\<close>

definition remaining :: "server_state \<Rightarrow> int \<Rightarrow> int" where
  "remaining s t = (case penalty_until s of None \<Rightarrow> 0 | Some until \<Rightarrow> max 0 (until - t))"

definition test_penalize_for_auth :: "int \<Rightarrow> bool" where
  "test_penalize_for_auth t \<longleftrightarrow>
     (let s = penalize_for ''Authentication failed'' t (server_new make_config t)
      in \<not> is_available s t \<and> remaining s t > 500 * 1000)"

definition test_penalize_for_timeout :: "int \<Rightarrow> bool" where
  "test_penalize_for_timeout t \<longleftrightarrow>
     remaining (penalize_for ''Connection timeout'' t (server_new make_config t)) t > 500 * 1000"

definition test_penalize_for_unknown :: "int \<Rightarrow> bool" where
  "test_penalize_for_unknown t \<longleftrightarrow>
     (let r = remaining (penalize_for ''some random error'' t (server_new make_config t)) t
      in r > 150 * 1000 \<and> r < 200 * 1000)"

definition test_clear_penalty :: "int \<Rightarrow> bool" where
  "test_clear_penalty t \<longleftrightarrow>
     (let s = penalize ''error'' (600 * 1000) t (server_new make_config t); s' = clear_penalty s
      in \<not> is_available s t \<and> is_available s' t \<and> penalty_until s' = None \<and> last_error s' = None)"

definition test_record_success :: "int \<Rightarrow> bool" where
  "test_record_success t \<longleftrightarrow>
     (let s = record_success 50000 t (server_new make_config t); s' = record_success 30000 t s
      in articles_tried s = 1 \<and> articles_failed s = 0 \<and> bytes_downloaded s = 50000
         \<and> articles_tried s' = 2 \<and> bytes_downloaded s' = 80000)"

definition test_record_failure :: "int \<Rightarrow> bool" where
  "test_record_failure t \<longleftrightarrow>
     (let s = record_failure (server_new make_config t)
      in articles_tried s = 1 \<and> articles_failed s = 1)"

definition test_failure_ratio :: "int \<Rightarrow> bool" where
  "test_failure_ratio t \<longleftrightarrow>
     (let s = server_new make_config t;
          s' = record_failure (record_success 1000 t (record_success 1000 t s))
      in failure_ratio s = 0 \<and> \<bar>failure_ratio s' - 1 / 3\<bar> < 1 / 1000)"

definition test_failure_ratio_all_failed :: "int \<Rightarrow> bool" where
  "test_failure_ratio_all_failed t \<longleftrightarrow>
     failure_ratio (record_failure (record_failure (server_new make_config t))) = 1"

definition test_speed_bps_no_samples :: "int \<Rightarrow> bool" where
  "test_speed_bps_no_samples t \<longleftrightarrow> speed_bps (server_new make_config t) = 0"

definition test_idle_connection_count :: "int \<Rightarrow> bool" where
  "test_idle_connection_count t \<longleftrightarrow> idle_connection_count (server_new make_config t) = 0"

lemma new_server_tests:
  "test_new_server_state t" "test_new_disabled_server t" "test_speed_bps_no_samples t"
  "test_idle_connection_count t"
  by (simp_all add: run_server run_pool make_config_def remaining_def Let_def starts_with_def test_new_server_state_def test_new_disabled_server_def
      test_speed_bps_no_samples_def test_idle_connection_count_def)

lemma availability_tests:
  "test_is_available_active_no_penalty t" "test_is_available_penalized t" "test_penalize_expired t"
  "test_clear_penalty t"
  by (simp_all add: run_server run_pool make_config_def remaining_def Let_def starts_with_def test_is_available_active_no_penalty_def test_is_available_penalized_def
      test_penalize_expired_def test_clear_penalty_def)

lemma penalty_tests:
  "test_penalize_for_auth t" "test_penalize_for_timeout t" "test_penalize_for_unknown t"
  by (simp_all add: run_server run_pool make_config_def remaining_def Let_def starts_with_def test_penalize_for_auth_def test_penalize_for_timeout_def
      test_penalize_for_unknown_def)

lemma counter_tests:
  "test_record_success t" "test_record_failure t" "test_failure_ratio t"
  "test_failure_ratio_all_failed t"
  by (simp_all add: server_new_def record_success_def record_failure_def failure_ratio_def Let_def
      test_record_success_def test_record_failure_def test_failure_ratio_def
      test_failure_ratio_all_failed_def)

end
