(* ===== verification/Tests_Downloader.thy ===== *)
theory Tests_Downloader
  imports Tests_Pool
begin

text \<open>
  The tests of \<open>downloader.rs\<close>: the whole stack, from the queue of articles through server choice, pool,
  connection and commands to the mock servers.  A network is given for the connection of each name; the
  tests also look at the parked connections, so that each has sent just what its server was given.
\<close>

definition make_article :: "bytes \<Rightarrow> nat \<Rightarrow> article" where
  "make_article mid segment =
     \<lparr>message_id = mid, segment_number = segment, art_bytes = 1000, downloaded = False,
      data_begin = None, data_size = None, crc32 = None, tried_servers = [], tries = 0\<rparr>"

declare make_article_def [run]

definition quiet_env :: "(bytes \<Rightarrow> net_env) \<Rightarrow> dl_env" where
  "quiet_env nets =
     \<lparr>controls_at = (\<lambda>_. []), polls_at = (\<lambda>_. []), pool_env_at = (\<lambda>_. pool_net nets)\<rparr>"

declare quiet_env_def [run]

text \<open>\<open>download(...).await.unwrap()\<close>: what it sends to the channel, and the downloader it leaves.\<close>

definition downloads ::
  "(bytes \<Rightarrow> net_env) \<Rightarrow> downloader \<Rightarrow> article list \<Rightarrow> (article_result list \<Rightarrow> downloader \<Rightarrow> bool) \<Rightarrow> bool" where
  "downloads nets d arts k \<longleftrightarrow>
     (case download no_gunzip (quiet_env nets) arts d 0 of
        (Returned (Inr _), results, d, _) \<Rightarrow> k results d
      | _ \<Rightarrow> False)"

definition parked_sent :: "server_state \<Rightarrow> bytes list \<Rightarrow> bool" where
  "parked_sent s sents \<longleftrightarrow>
     length (idle (srv_pool s)) = length sents \<and> list_all2 has_sent sents (idle (srv_pool s))"

declare downloads_def [run] parked_sent_def [run]

definition gives :: "article_result \<Rightarrow> (bytes \<Rightarrow> bool) \<Rightarrow> bool" where
  "gives r P \<longleftrightarrow> (case ar_result r of Inl _ \<Rightarrow> False | Inr d \<Rightarrow> P d)"

definition is_exhausted :: "article_result \<Rightarrow> bool" where
  "is_exhausted r \<longleftrightarrow>
     (case ar_result r of Inl (AllServersExhausted _) \<Rightarrow> True | _ \<Rightarrow> False)"

declare gives_def [run] is_exhausted_def [run] no_gunzip_def [run]

definition test_downloader_single_article_success :: bool where
  "test_downloader_single_article_success \<longleftrightarrow>
     (let sent = hello @ crlf_lines [''ARTICLE <dl1@test>'']
      in downloads (\<lambda>_. mock_net (with_articles [(''dl1@test'', ''Downloaded content'')]) sent)
           (downloader_new [test_config 119] 0 0) [make_article ''dl1@test'' 1] (\<lambda>results d.
           case results of
             [result] \<Rightarrow>
               message_id (ar_article result) = ''dl1@test'' \<and> ar_server_id result \<noteq> None
               \<and> gives result (\<lambda>d. contains ''Downloaded content'' (from_utf8_lossy d))
               \<and> parked_sent (servers d ! 0) [sent]
           | _ \<Rightarrow> False))"

definition reuse_id :: "nat \<Rightarrow> bytes" where "reuse_id i = ''reuse'' @ show_nat i @ ''@test''"

lemma reuse_ids [run]:
  "[0..<5] = [0, Suc 0, 2, 3, 4]" "reuse_id 0 = ''reuse0@test''" "reuse_id (Suc 0) = ''reuse1@test''"
  "reuse_id 2 = ''reuse2@test''" "reuse_id 3 = ''reuse3@test''" "reuse_id 4 = ''reuse4@test''"
  by (simp_all add: reuse_id_def run_rust_str char_of_run bit_Suc_0_iff upt_rec)

definition test_downloader_reuses_pooled_connections :: bool where
  "test_downloader_reuses_pooled_connections \<longleftrightarrow>
     (let sent = hello @ crlf_lines (map (\<lambda>i. ''ARTICLE <'' @ reuse_id i @ ''>'') [0..<5]);
          config = test_config 119
      in downloads (\<lambda>_. mock_net (with_articles (map (\<lambda>i. (reuse_id i, ''payload'')) [0..<5])) sent)
           (downloader_new [config] 0 0) (map (\<lambda>i. make_article (reuse_id i) (i + 1)) [0..<5]) (\<lambda>results d.
           length results = 5 \<and> list_all (\<lambda>r. gives r (\<lambda>_. True)) results
           \<and> parked_sent (servers d ! 0) [sent]
           \<and> idle_connection_count (servers d ! 0) = 1
           \<and> permits (srv_pool (servers d ! 0)) = connections config))"

definition test_downloader_article_not_found :: bool where
  "test_downloader_article_not_found \<longleftrightarrow>
     (let sent = hello @ crlf_lines [''ARTICLE <missing@test>'']
      in downloads (\<lambda>_. mock_net mock_default sent) (downloader_new [test_config 119] 0 0)
           [make_article ''missing@test'' 1] (\<lambda>results d.
           length results = 1 \<and> is_exhausted (results ! 0) \<and> parked_sent (servers d ! 0) [sent]))"

definition test_downloader_multiple_articles :: bool where
  "test_downloader_multiple_articles \<longleftrightarrow>
     (let sent = hello @ crlf_lines [''ARTICLE <m1@test>'', ''ARTICLE <m2@test>'', ''ARTICLE <m3@test>'']
      in downloads
           (\<lambda>_. mock_net (with_articles [(''m1@test'', ''Article 1''), (''m2@test'', ''Article 2''),
              (''m3@test'', ''Article 3'')]) sent)
           (downloader_new [test_config 119] 0 0)
           [make_article ''m1@test'' 1, make_article ''m2@test'' 2, make_article ''m3@test'' 3] (\<lambda>results d.
           length (filter (\<lambda>r. gives r (\<lambda>_. True)) results) = 3 \<and> parked_sent (servers d ! 0) [sent]))"

text \<open>Two servers, told apart by the names of their connections.\<close>

definition two_nets :: "bytes \<Rightarrow> net_env \<Rightarrow> net_env \<Rightarrow> bytes \<Rightarrow> net_env" where
  "two_nets sid net net' conn_id = (if starts_with (sid @ ''#'') conn_id then net else net')"

lemma two_nets_run [run]:
  "two_nets sid net net' (x # s) = (if starts_with (sid @ ''#'') (x # s) then net else net')"
  by (simp add: two_nets_def)

definition test_downloader_failover_to_second_server :: bool where
  "test_downloader_failover_to_second_server \<longleftrightarrow>
     (let sent = hello @ crlf_lines [''ARTICLE <failover@test>''];
          config1 = (test_config 119)\<lparr>cfg_id := ''server-1'', cfg_name := ''Server 1'', priority := 0\<rparr>;
          config2 = (test_config 120)\<lparr>cfg_id := ''server-2'', cfg_name := ''Server 2'', priority := 1\<rparr>
      in downloads
           (two_nets ''server-1'' (mock_net mock_default sent)
              (mock_net (with_articles [(''failover@test'', ''Found on server 2'')]) sent))
           (downloader_new [config1, config2] 0 0) [make_article ''failover@test'' 1] (\<lambda>results d.
           length results = 1 \<and> gives (results ! 0) (\<lambda>_. True)
           \<and> ar_server_id (results ! 0) = Some ''server-2''
           \<and> list_all (\<lambda>s. parked_sent s [sent]) (servers d)))"

definition test_downloader_empty_article_list :: bool where
  "test_downloader_empty_article_list \<longleftrightarrow>
     downloads (\<lambda>_. mock_net mock_default []) (downloader_new [test_config 119] 0 0) []
       (\<lambda>results d. results = [])"

definition test_downloader_pause_resume :: bool where
  "test_downloader_pause_resume \<longleftrightarrow>
     (let d = downloader_new [] 0 0; d1 = pause d; d2 = resume d1
      in \<not> is_paused d \<and> is_paused d1 \<and> \<not> is_paused d2)"

definition test_downloader_shutdown_signal :: bool where
  "test_downloader_shutdown_signal \<longleftrightarrow>
     (case download no_gunzip
             (quiet_env (\<lambda>_. mock_net (with_articles [(''a@test'', ''data'')]) []))
             [make_article ''a@test'' 1] (shutdown (downloader_new [test_config 119] 0 0)) 0 of
        (Returned (Inl Shutdown), _) \<Rightarrow> True
      | _ \<Rightarrow> False)"

definition test_downloader_disabled_servers_filtered :: bool where
  "test_downloader_disabled_servers_filtered \<longleftrightarrow>
     downloads (\<lambda>_. mock_net mock_default [])
       (downloader_new [(test_config 119)\<lparr>enabled := False\<rparr>] 0 0) [make_article ''art@test'' 1]
       (\<lambda>results d. length results = 1 \<and> is_exhausted (results ! 0))"

definition test_downloader_priority_ordering :: bool where
  "test_downloader_priority_ordering \<longleftrightarrow>
     (let sent = hello @ crlf_lines [''ARTICLE <prio@test>''];
          server = with_articles [(''prio@test'', ''priority data'')];
          config_high =
            (test_config 119)\<lparr>cfg_id := ''high-prio'', cfg_name := ''High Priority'', priority := 0\<rparr>;
          config_low =
            (test_config 120)\<lparr>cfg_id := ''low-prio'', cfg_name := ''Low Priority'', priority := 1\<rparr>
      in downloads (two_nets ''high-prio'' (mock_net server sent) (mock_net server sent))
           (downloader_new [config_low, config_high] 0 0) [make_article ''prio@test'' 1] (\<lambda>results d.
           length results = 1 \<and> gives (results ! 0) (\<lambda>_. True)
           \<and> ar_server_id (results ! 0) = Some ''high-prio'' \<and> parked_sent (servers d ! 0) [sent]))"

definition test_downloader_service_unavailable_penalizes :: bool where
  "test_downloader_service_unavailable_penalizes \<longleftrightarrow>
     (let sent = hello @ crlf_lines [''ARTICLE <pen@test>''];
          config1 = (test_config 119)\<lparr>cfg_id := ''bad-server'', cfg_name := ''Bad Server'', priority := 0\<rparr>;
          config2 = (test_config 120)\<lparr>cfg_id := ''good-server'', cfg_name := ''Good Server'', priority := 1\<rparr>
      in downloads
           (two_nets ''bad-server'' (mock_net (mock_default\<lparr>service_unavailable := True\<rparr>) [])
              (mock_net (with_articles [(''pen@test'', ''backup data'')]) sent))
           (downloader_new [config1, config2] 0 0) [make_article ''pen@test'' 1] (\<lambda>results d.
           length results = 1 \<and> gives (results ! 0) (\<lambda>_. True)
           \<and> ar_server_id (results ! 0) = Some ''good-server'' \<and> parked_sent (servers d ! 1) [sent]))"

lemma test_downloader_single_article_success_passes: test_downloader_single_article_success
  by (simp add: run test_downloader_single_article_success_def cong: run_cong)

lemma test_downloader_reuses_pooled_connections_passes: test_downloader_reuses_pooled_connections
  by (simp add: run test_downloader_reuses_pooled_connections_def cong: run_cong)

lemma test_downloader_article_not_found_passes: test_downloader_article_not_found
  by (simp add: run test_downloader_article_not_found_def cong: run_cong)

lemma test_downloader_multiple_articles_passes: test_downloader_multiple_articles
  by (simp add: run test_downloader_multiple_articles_def cong: run_cong)

lemma test_downloader_failover_to_second_server_passes: test_downloader_failover_to_second_server
  by (simp add: run test_downloader_failover_to_second_server_def cong: run_cong)

lemma test_downloader_flag_tests:
  test_downloader_empty_article_list test_downloader_pause_resume test_downloader_shutdown_signal
  test_downloader_disabled_servers_filtered
  by (simp_all add: run test_downloader_empty_article_list_def test_downloader_pause_resume_def
      test_downloader_shutdown_signal_def test_downloader_disabled_servers_filtered_def cong: run_cong)

lemma test_downloader_priority_ordering_passes: test_downloader_priority_ordering
  by (simp add: run test_downloader_priority_ordering_def cong: run_cong)

lemma test_downloader_service_unavailable_penalizes_passes: test_downloader_service_unavailable_penalizes
  by (simp add: run run_opening test_downloader_service_unavailable_penalizes_def cong: run_cong)

end
