(* ===== verification/Spec2Isabelle.thy ===== *)
theory Spec2Isabelle
  imports Overview_Laws Server_Laws Timeout_Laws Download_Trace Typing_Laws Finding_Laws Stat_Faults
    Tests_Listings Tests_Long Tests_Server Tests_Downloader
begin

text \<open>
  A verification development for \<open>nzb-nntp\<close>, an asynchronous NNTP client library in Rust: one
  connection with its commands, a pipeline of ARTICLE requests, a batched STAT checker, a connection
  pool per server, server health, a downloader that fails over between servers, and the in-process
  NNTP server its tests run against.

  \<^bold>\<open>The parts, and where they are modelled.\<close>  File names are relative to \<open>src/\<close> of the crate.

  \<^item> \<open>Prelude\<close>, \<open>Rust_Str\<close>: sequencing of fallible steps (\<open>rbind\<close>), and what the code uses of Rust's
    standard library on bytes and strings: affixes, splitting, \<open>lines\<close>, Unicode-aware trimming,
    UTF-8 validation and lossy decoding, integer parsing and printing.
  \<^item> \<open>Nntp_Error\<close>: \<open>error.rs\<close>, the error type with its texts, the classification of unexpected answers.
  \<^item> \<open>Config\<close>: \<open>config.rs\<close>, the server configuration with its serde defaults, articles and group
    entries, as they are read and written.
  \<^item> \<open>Capabilities\<close>: \<open>capabilities.rs\<close>, the parser of the CAPABILITIES list and the derived flags.
  \<^item> \<open>Overview\<close>: \<open>overview.rs\<close>, LIST OVERVIEW.FMT and the lossless parser of overview rows.
  \<^item> \<open>Wire\<close>: the pure helpers of \<open>connection.rs\<close>: status lines, message ids, header stripping, XOVER,
    XHDR and LIST ACTIVE lines, SOCKS5 URLs, certificate fingerprints, the verifiers and what they check of
    certificates and of handshake signatures.
  \<^item> \<open>Transport\<close>, \<open>Conn\<close>: the socket as a script, and the primitives of \<open>NntpConnection\<close>: the connection
    record, sending, \<open>read_response_line\<close>, the three readers of multi-line bodies, the buffer free
    list, the heartbeat, gzip bodies.
  \<^item> \<open>Commands\<close>, \<open>Listings\<close>, \<open>Posting\<close>, \<open>Session\<close>: the public methods of \<open>connection.rs\<close>: ARTICLE, HEAD,
    BODY, the BODY prefix, STAT, DATE, GROUP; XOVER, XHDR, XPAT, LIST; POST; \<open>connect\<close>, login,
    capabilities, reader mode, compression and \<open>quit\<close>.
  \<^item> \<open>Pipeline\<close>: \<open>pipeline.rs\<close>, the ARTICLE pipeline with its two queues and the STAT batches.
  \<^item> \<open>Pool\<close>: \<open>pool.rs\<close>, permits, idle connections, health checks, ramp-up.
  \<^item> \<open>Server\<close>: \<open>server.rs\<close>, penalties, failure counts, the speed window, the calls into the pool.
  \<^item> \<open>Downloader\<close>: \<open>downloader.rs\<close>, the download loop with fail-over, pause and shutdown.
  \<^item> \<open>Mock_Server\<close>: \<open>testutil.rs\<close>, every command handler of the test server, its fault injection, the
    reader of posted articles, and the login rate limiter.

  The pool owns the connections a server lends to the downloader; the downloader runs one command
  (\<open>fetch_article\<close>) on each and gives the connection back or discards it.  The pipeline and the STAT
  checker drive a connection from outside, with the unflushed sends and reads of \<open>Conn\<close>.

  \<^bold>\<open>How state and effects are represented.\<close>  Each struct is a record and each method a function from
  the record (and its arguments) to a result and the new record; \<open>Inl\<close> is an \<open>NntpError\<close>, so every
  early return of the code is a branch.  The peer of a connection is a script \<open>rx\<close> of bytes, pauses and
  I/O errors, and a script \<open>wr\<close> of write outcomes; what is written is collected in \<open>tx\<close>.  A theorem for
  all scripts holds for all peers.  Time is in milliseconds and advances by the pauses in the script.
  Loops are recursive functions with termination proofs: reading loops consume the script, the
  pipeline consumes its queues (its \<open>size\<close>), the downloader's loop the pairs of articles and servers
  not yet tried; no fuel is used anywhere.  What other tasks do to a pool or a downloader while a
  call waits is an explicit list of events.  Unsigned counters are naturals; where a width shows in a
  result (\<open>u64\<close> parsing) the bound is written out.  The few floating-point results are exact rationals.

  \<^bold>\<open>What the lemmas show.\<close>

  \<^item> \<open>Framing\<close>, \<open>Protocol_Properties\<close>: the body readers against an independent description of the wire
    format (completeness, soundness, bounds, the prefix reader), and the commands built on them.
  \<^item> \<open>Command_Laws\<close>, \<open>Contract\<close>: one contract for all commands (locale \<open>command_contract\<close>): a command
    is refused unless the connection is \<open>Ready\<close>, settles it in \<open>Ready\<close> or \<open>Error\<close> (a BODY prefix that
    stopped early in \<open>Disconnected\<close>), and leaves it \<open>Ready\<close> only after exactly one dialogue: its
    command line and what follows it written, one whole response read.
  \<^item> \<open>Truncation_Laws\<close>: bodies are prefix-free, so an answer that breaks off before the end of its body is
    detected by every command that reads one; a status line that breaks off is not.
  \<^item> \<open>Wire_Laws\<close>, \<open>Overview_Laws\<close>: parsers inverted on the text of well-formed values (locale
    \<open>line_format\<close>), exact header stripping, pinned certificates, overview rows accounted for one by one.
  \<^item> \<open>Pipeline_Laws\<close>, \<open>Stat_Laws\<close>: a pipeline of any depth refines asking one by one (the receiving
    operations do not see what was sent: locales \<open>blind\<close> and \<open>receiver\<close>); a STAT batch answers for all
    ids or poisons the connection.
  \<^item> \<open>Session_Laws\<close>: the state after \<open>connect\<close>, the login dialogue, \<open>quit\<close>, the buffer free list, and that
    after \<open>connect\<close> no command is gated.
  \<^item> \<open>Pool_Laws\<close>, \<open>Server_Laws\<close>: an abstract slot machine bounds the connections, and the pool refines it
    (locale \<open>slot_provider\<close>); penalty windows and the speed window.
  \<^item> \<open>Timeout_Laws\<close>: which texts the connection gives its timeouts and which penalty they lead to.
  \<^item> \<open>Downloader_Laws\<close>: every article gets one result, the loop ends, connections are given back, the
    best server is asked first.
  \<^item> \<open>Mock_Laws\<close>, \<open>Mock_Answers\<close>: what every handler of the test server keeps (locale \<open>mock_invariant\<close>),
    and its half of a conversation (locale \<open>conversation\<close>): for each request its writes and when they
    arrive at a client.
  \<^item> \<open>End_To_End\<close>, \<open>Session_End_To_End\<close>: client and server together.  The server is given a sequence of
    bytes, the client reads the server's answers, and the client is shown to write exactly those
    bytes: the pipeline, the STAT checker, BODY, POST, the login, \<open>connect\<close>, and a whole session from
    \<open>connect\<close> to the last article.
  \<^item> \<open>Download_End_To_End\<close>: the same for the downloader with its servers and their pools, against the
    specification \<open>fail_over\<close>: which server serves which article, what each of them is asked, and that a
    server asked for nothing is not connected to.  \<open>Download_Trace\<close>: a download with the log of its
    attempts, an inductive relation whose rules are the branches of the loop, for any servers.
  \<^item> \<open>Fault_Laws\<close>, \<open>Stat_Faults\<close>: a server with any of the test server's faults writes a part of what the
    faultless one writes; the pipeline gets from it nothing but right articles and errors, and the STAT
    checker true answers or one error.
  \<^item> \<open>Text_Laws\<close>, \<open>Typing_Laws\<close>: the string operations take UTF-8 to UTF-8, and what the commands return has
    the types of the source, whatever the server sends.
  \<^item> \<open>Finding_Laws\<close>: the behaviour of branches that are missing, one lemma each.

  \<^bold>\<open>The unit tests.\<close>  The tests that the source files carry are runs of the code on concrete values.  The
  theories \<open>Tests_Parsing\<close> (errors, configuration, capabilities, overview, status lines), \<open>Tests_Wire\<close>,
  \<open>Tests_Connection\<close>, \<open>Tests_Commands\<close>, \<open>Tests_Listings\<close>, \<open>Tests_Pipeline\<close>, \<open>Tests_Pool\<close>, \<open>Tests_Server\<close>,
  \<open>Tests_Downloader\<close> and \<open>Tests_Long\<close> state all 181 as booleans under their own names and prove each by evaluating
  the model in the kernel: so the model answers as the code does wherever the authors have written down
  what they expect.  \<open>Runs\<close> holds the evaluation rules (the collections \<open>run\<close> and \<open>run_cong\<close>) and the
  small test harness: \<open>passes cfg cmds body\<close> connects to a mock server configured by \<open>cfg\<close>, runs \<open>body\<close> and
  its assertions, and demands that the client has sent just the commands \<open>cmds\<close> that the mock server was
  given.  A port is any number, since the network is found behind every address; a random identifier and
  the payload of a stalled write are arbitrary.  In two tests the bodies, of 16 KB and 220
  KB, are too long to be run byte by byte: \<open>Tests_Long\<close> keeps them as names and proves what the server
  writes of them and what the client reads.

  \<^bold>\<open>Parameters.\<close>  \<open>gunzip\<close> (the \<open>flate2\<close> decoder), SHA-256, chain validation and the default verifier's
  check of signatures (\<open>sha2\<close>, \<open>rustls\<close>), the
  network of \<open>Session\<close> (dialling, SOCKS, TLS handshakes), the environment of the pool (the network and the
  connect timeout each of its connections meets), and \<open>str::to_uppercase\<close> in the test server are arguments of the definitions that use them.  No theorem
  assumes anything of them but that \<open>to_uppercase\<close> agrees with ASCII upper case on ASCII strings.

  \<^bold>\<open>Not modelled.\<close>  Logging and its timers.  The internals of sockets, TLS and gzip (parameters or
  scripts).  The two verifiers of the source accept every handshake signature, and the model says so;
  the list of signature schemes they announce is that of \<open>rustls\<close> and is left out.  The closing of the
  transport, which ignores its result.  \<open>lib.rs\<close>, which only declares modules.  The listener of the test server,
  which spawns one handler per accepted socket.  The bandwidth limit of the downloader, which only
  yields to the scheduler.  The error of a closed semaphore, since the code never closes it.

  \<^bold>\<open>Simplifications.\<close>  Writes take no time, and one that fails or stalls adds nothing to \<open>tx\<close>.  Whether
  \<open>connect\<close> runs out of its budget is an argument (\<open>lapse\<close>), not computed from the clock.  While a caller
  waits for a permit the other tasks only give connections back; acquisitions that compete with it are
  steps of the slot machine of \<open>Pool_Laws\<close>, which has no step for the release of a connection that was
  never taken (see the finding on \<open>pool.rs\<close>) and does not count those that \<open>close_idle\<close> is just quitting.
  The result channel of a download neither fills nor closes, and pause and shutdown arrive where the
  loop looks for them.  \<open>debug_str\<close> leaves out the escapes of characters of several bytes.
\<close>

end
